theory Spec2Isabelle
  imports Complex_Main
begin

section \<open>Errors raised by the scripts\<close>

text \<open>
  Every exception the modelled Python can raise is a value.  A function that may raise
  returns \<open>error + 'a\<close>, with \<open>Inl\<close> for the exception.
\<close>

datatype error =
    FileNotFoundError
  | ValueError
  | OverflowError
  | IndexError
  | ZeroDivisionError
  | TypeError
  | KeyError

section \<open>The bigint validator (src/tests/validators/events/big\_int\_validator.py)\<close>

subsection \<open>Values\<close>

text \<open>
  An element of the numeric series that \<open>_validate_column\<close> walks over is a Python
  \<open>int\<close> (an \<open>int64\<close> or \<open>uint64\<close> column) or a Python \<open>float\<close> (a \<open>float64\<close>
  column).  A finite float is \<open>PyFloat m e\<close>, the number \<open>m * 2 ^ e\<close> with an integer
  significand \<open>m\<close> and an integer exponent \<open>e\<close>; it is a binary64 value when
  \<open>\<bar>m\<bar> < 2 ^ 53\<close> and \<open>- 1074 \<le> e \<le> 971\<close>.  Python compares an int with a float
  exactly, and \<open>int(value)\<close> truncates exactly, so the validator computes on the
  rational number \<open>float_val m e\<close> and no rounding takes part.  The infinities and NaN are
  values of their own.
\<close>

datatype pynum = PyInt int | PyFloat int int | PosInf | NegInf | PyNaN

definition float_val :: "int \<Rightarrow> int \<Rightarrow> rat" where
  "float_val m e = (if 0 \<le> e then of_int (m * 2 ^ nat e) else of_int m / of_int (2 ^ nat (- e)))"


text \<open>
  A cell of the frame as \<open>pd.read_csv\<close> holds it: a number (NaN for a missing cell) or
  a string (in an \<open>object\<close> column).
\<close>

datatype vcell = VNum pynum | VStr string

definition BIGINT_MIN :: int where
  "BIGINT_MIN = - 9223372036854775808"

definition BIGINT_MAX :: int where
  "BIGINT_MAX = 9223372036854775807"

text \<open>\<open>pd.isna(value)\<close> and \<open>pd.notna(original_value)\<close>.\<close>

fun isna :: "pynum \<Rightarrow> bool" where
  "isna PyNaN = True"
| "isna _ = False"

fun notna_cell :: "vcell \<Rightarrow> bool" where
  "notna_cell (VNum n) = (\<not> isna n)"
| "notna_cell (VStr s) = True"

text \<open>\<open>value < bound\<close> and \<open>value > bound\<close> for a Python int bound; NaN compares false.\<close>

fun num_lt_int :: "pynum \<Rightarrow> int \<Rightarrow> bool" where
  "num_lt_int (PyInt i) b = (i < b)"
| "num_lt_int (PyFloat m e) b = (float_val m e < of_int b)"
| "num_lt_int PosInf b = False"
| "num_lt_int NegInf b = True"
| "num_lt_int PyNaN b = False"

fun num_gt_int :: "pynum \<Rightarrow> int \<Rightarrow> bool" where
  "num_gt_int (PyInt i) b = (i > b)"
| "num_gt_int (PyFloat m e) b = (float_val m e > of_int b)"
| "num_gt_int PosInf b = True"
| "num_gt_int NegInf b = False"
| "num_gt_int PyNaN b = False"

text \<open>\<open>int(value)\<close> on a float truncates towards zero and raises on an infinity or NaN.\<close>

definition trunc_rat :: "rat \<Rightarrow> int" where
  "trunc_rat r = (if 0 \<le> r then \<lfloor>r\<rfloor> else \<lceil>r\<rceil>)"

fun py_int :: "pynum \<Rightarrow> error + int" where
  "py_int (PyInt i) = Inr i"
| "py_int (PyFloat m e) = Inr (trunc_rat (float_val m e))"
| "py_int PosInf = Inl OverflowError"
| "py_int NegInf = Inl OverflowError"
| "py_int PyNaN = Inl ValueError"

text \<open>\<open>value != i\<close> for a Python int \<open>i\<close>.\<close>

fun num_ne_int :: "pynum \<Rightarrow> int \<Rightarrow> bool" where
  "num_ne_int (PyInt j) i = (j \<noteq> i)"
| "num_ne_int (PyFloat m e) i = (float_val m e \<noteq> of_int i)"
| "num_ne_int _ i = True"

text \<open>\<open>isinstance(value, float)\<close>.\<close>

fun is_float :: "pynum \<Rightarrow> bool" where
  "is_float (PyInt i) = False"
| "is_float _ = True"

text \<open>
  \<open>str.strip()\<close> with no argument removes leading and trailing white space.  Over ASCII
  the white-space characters of Python's \<open>str.isspace\<close> are the codes 9 to 13, 28 to 31
  and 32; bytes above ASCII are treated as not white space.
\<close>

definition isspace :: "char \<Rightarrow> bool" where
  "isspace c = (let n = (of_char c :: nat) in (9 \<le> n \<and> n \<le> 13) \<or> (28 \<le> n \<and> n \<le> 32))"

definition lstrip :: "string \<Rightarrow> string" where
  "lstrip s = dropWhile isspace s"

definition rstrip :: "string \<Rightarrow> string" where
  "rstrip s = rev (dropWhile isspace (rev s))"

definition strip :: "string \<Rightarrow> string" where
  "strip s = rstrip (lstrip s)"

text \<open>
  \<open>str(original_value).strip()\<close> as a truth value: the text of a number is never blank,
  a string is blank when it is empty after stripping.
\<close>

fun str_strip_nonempty :: "vcell \<Rightarrow> bool" where
  "str_strip_nonempty (VNum n) = True"
| "str_strip_nonempty (VStr s) = (strip s \<noteq> [])"

subsection \<open>Violations and the frame\<close>

datatype error_type = NON_NUMERIC | UNDERFLOW | OVERFLOW | PRECISION_LOSS

text \<open>
  One entry of \<open>self.violations\<close>.  The \<open>message\<close> entry of the dictionary is a rendering
  of the other entries as text and is not modelled.
\<close>

record violation =
  row :: nat
  column :: string
  val :: vcell
  error_type :: error_type

datatype dtype = Dint64 | Dfloat64 | Dother

record series =
  dtype_of :: dtype
  cells :: "vcell list"

type_synonym dataframe = "(string \<times> series) list"

definition columns :: "dataframe \<Rightarrow> string list" where
  "columns df = map fst df"

text \<open>\<open>series.iloc[idx]\<close> raises \<open>IndexError\<close> out of range.\<close>

definition iloc :: "'a list \<Rightarrow> nat \<Rightarrow> error + 'a" where
  "iloc xs i = (if i < length xs then Inr (xs ! i) else Inl IndexError)"

subsection \<open>\<open>BigintValidator._validate_column\<close>\<close>

text \<open>
  The body of the loop for one \<open>(idx, value)\<close>.  It takes \<open>self.violations\<close> and returns
  it as the iteration leaves it, together with the exception the iteration raised, if
  any: an append made before a raise stays in the list.
\<close>

definition check_range :: "string \<Rightarrow> nat \<Rightarrow> pynum \<Rightarrow> violation list \<Rightarrow> violation list" where
  "check_range col idx v vs =
     (if num_lt_int v BIGINT_MIN then
        vs @ [\<lparr>row = idx + 2, column = col, val = VNum v, error_type = UNDERFLOW\<rparr>]
      else if num_gt_int v BIGINT_MAX then
        vs @ [\<lparr>row = idx + 2, column = col, val = VNum v, error_type = OVERFLOW\<rparr>]
      else vs)"

definition check_precision ::
  "string \<Rightarrow> nat \<Rightarrow> pynum \<Rightarrow> violation list \<Rightarrow> violation list \<times> error option" where
  "check_precision col idx v vs =
     (if is_float v then
        (case py_int v of
           Inl e \<Rightarrow> (vs, Some e)
         | Inr i \<Rightarrow>
             (if num_ne_int v i then
                (vs @ [\<lparr>row = idx + 2, column = col, val = VNum v,
                        error_type = PRECISION_LOSS\<rparr>], None)
              else (vs, None)))
      else (vs, None))"

definition check_cell ::
  "string \<Rightarrow> vcell list \<Rightarrow> nat \<Rightarrow> pynum \<Rightarrow> violation list \<Rightarrow> violation list \<times> error option" where
  "check_cell col orig idx v vs =
     (if isna v then
        (case iloc orig idx of
           Inl e \<Rightarrow> (vs, Some e)
         | Inr original_value \<Rightarrow>
             (if notna_cell original_value \<and> str_strip_nonempty original_value then
                (vs @ [\<lparr>row = idx + 2, column = col, val = original_value,
                        error_type = NON_NUMERIC\<rparr>], None)
              else (vs, None)))
      else check_precision col idx v (check_range col idx v vs))"

text \<open>\<open>for idx, value in enumerate(numeric_series)\<close>, from index \<open>idx\<close> on.\<close>

fun validate_loop ::
  "string \<Rightarrow> vcell list \<Rightarrow> nat \<Rightarrow> pynum list \<Rightarrow> violation list \<Rightarrow> violation list \<times> error option"
where
  "validate_loop col orig idx [] vs = (vs, None)"
| "validate_loop col orig idx (v # rest) vs =
     (case check_cell col orig idx v vs of
        (vs', Some e) \<Rightarrow> (vs', Some e)
      | (vs', None) \<Rightarrow> validate_loop col orig (Suc idx) rest vs')"

text \<open>
  \<open>pd.to_numeric(series, errors='coerce')\<close> is pandas' own and is taken as a parameter
  \<open>to_numeric\<close>, from the cells of a column to the numeric series.
\<close>

definition validate_column ::
  "(vcell list \<Rightarrow> pynum list) \<Rightarrow> series \<Rightarrow> string \<Rightarrow> violation list \<Rightarrow>
   violation list \<times> error option" where
  "validate_column to_numeric s col vs =
     validate_loop col (cells s) 0 (to_numeric (cells s)) vs"

subsection \<open>\<open>BigintValidator.validate\<close>\<close>

text \<open>
  The validator object.  \<open>self.stats\<close> is filled by \<open>_generate_stats\<close> for the report
  only (minimum, maximum, mean and counts per column); it takes no part in the result of
  \<open>validate\<close> and is not modelled.
\<close>

record validator =
  csv_path :: string
  numeric_columns :: "string list option"
  violations :: "violation list"

text \<open>\<open>BigintValidator(csv_path, numeric_columns)\<close>.\<close>

definition init_validator :: "string \<Rightarrow> string list option \<Rightarrow> validator" where
  "init_validator p cols = \<lparr>csv_path = p, numeric_columns = cols, violations = []\<rparr>"

text \<open>
  What is at a path: nothing, something \<open>pd.read_csv\<close> raises on, or a file that reads
  as a frame.  Column names of a frame are taken to be distinct, so \<open>df[col]\<close> is the
  column found by \<open>map_of\<close>.
\<close>

datatype csv_file = Unreadable | Csv dataframe

type_synonym filesystem = "string \<Rightarrow> csv_file option"

definition detect_numeric_columns :: "(vcell list \<Rightarrow> pynum list) \<Rightarrow> dataframe \<Rightarrow> string list" where
  "detect_numeric_columns to_numeric df =
     map fst (filter (\<lambda>(c, s). dtype_of s = Dint64 \<or> dtype_of s = Dfloat64 \<or>
                               list_ex (\<lambda>n. \<not> isna n) (to_numeric (cells s))) df)"

text \<open>\<open>for col in self.numeric_columns\<close>: a column the frame does not have is skipped.\<close>

fun validate_columns ::
  "(vcell list \<Rightarrow> pynum list) \<Rightarrow> dataframe \<Rightarrow> string list \<Rightarrow> violation list \<Rightarrow>
   violation list \<times> error option"
where
  "validate_columns to_numeric df [] vs = (vs, None)"
| "validate_columns to_numeric df (col # cols) vs =
     (case map_of df col of
        None \<Rightarrow> validate_columns to_numeric df cols vs
      | Some s \<Rightarrow>
          (case validate_column to_numeric s col vs of
             (vs', Some e) \<Rightarrow> (vs', Some e)
           | (vs', None) \<Rightarrow> validate_columns to_numeric df cols vs'))"

text \<open>
  \<open>validate\<close> returns the validator as the call leaves it and either the exception
  raised or the pair \<open>(is_valid, violations)\<close>.
\<close>

definition validate ::
  "(vcell list \<Rightarrow> pynum list) \<Rightarrow> filesystem \<Rightarrow> validator \<Rightarrow>
   validator \<times> (error + bool \<times> violation list)" where
  "validate to_numeric fs self =
     (case fs (csv_path self) of
        None \<Rightarrow> (self, Inl FileNotFoundError)
      | Some Unreadable \<Rightarrow> (self, Inl ValueError)
      | Some (Csv df) \<Rightarrow>
          (let cols = (case numeric_columns self of
                         None \<Rightarrow> detect_numeric_columns to_numeric df
                       | Some cs \<Rightarrow> cs);
               (vs, exn) = validate_columns to_numeric df cols (violations self);
               self' = self\<lparr>numeric_columns := Some cols, violations := vs\<rparr>
           in (case exn of
                 Some e \<Rightarrow> (self', Inl e)
               | None \<Rightarrow> (self', Inr (vs = [], vs)))))"

text \<open>
  On a column that is numeric already \<open>pd.to_numeric\<close> returns the numbers it holds.
  \<open>numeric_cells\<close> is that reading; it is used for concrete frames whose validated
  columns hold numbers only (on a string it answers NaN, which such frames never reach).
\<close>

fun numeric_cell :: "vcell \<Rightarrow> pynum" where
  "numeric_cell (VNum n) = n"
| "numeric_cell (VStr s) = PyNaN"

definition numeric_cells :: "vcell list \<Rightarrow> pynum list" where
  "numeric_cells cs = map numeric_cell cs"


section \<open>The cleaning script (src/scripts/etl/data\_cleaning.py)\<close>

subsection \<open>Cells and columns\<close>

text \<open>
  A frame is the list of its rows in index order, a row a record of its columns.  The
  frames are those \<open>pd.read_csv\<close> gives for data of the expected kinds:
  \<^item> a column the script compares with a number (\<open>age\<close>, \<open>cost\<close>, the prices) holds
    numbers or NaN: \<open>rat option\<close>, a number being the rational it denotes;
  \<^item> a column the script treats with \<open>.str\<close> or \<open>isin\<close> on strings holds strings or
    NaN: \<open>string option\<close>;
  \<^item> a column the script coerces with \<open>pd.to_numeric(..., errors='coerce')\<close> (the keys) may
    hold anything: a \<open>cell\<close> is null, a number or a string;
  \<^item> a column the script converts with \<open>pd.to_datetime(..., errors='coerce')\<close> holds
    null, a timestamp (an integer count of time units) or a string not yet parsed;
  \<^item> the columns a cleaning function never names are the list \<open>others\<close> of the row.
  NaN, None, NaT and \<open>pd.NA\<close> are one null value, so \<open>df.where(pd.notna(df), None)\<close> is
  the identity and is left out.
\<close>

datatype cell = NA | Num rat | Str string

datatype tcell = NaT | Stamp int | Txt string

text \<open>
  What pandas and Python do with text is their own and is a parameter of the cleaning
  functions: the number \<open>pd.to_numeric\<close> reads from a string (or none), the timestamp
  \<open>pd.to_datetime\<close> reads from a string of a named column (or none), and the string
  \<open>str.title()\<close> returns, which follows the Unicode case tables (one character may become
  several, and titling a titled string may change it again).
\<close>

record reader =
  to_numeric_text :: "string \<Rightarrow> rat option"
  to_datetime_text :: "string \<Rightarrow> string \<Rightarrow> int option"
  title_text :: "string \<Rightarrow> string"

text \<open>\<open>pd.to_datetime(df[col], errors='coerce')\<close> on one cell of column \<open>col\<close>.\<close>

fun to_datetime :: "reader \<Rightarrow> string \<Rightarrow> tcell \<Rightarrow> tcell" where
  "to_datetime rd col NaT = NaT"
| "to_datetime rd col (Stamp t) = Stamp t"
| "to_datetime rd col (Txt s) =
     (case to_datetime_text rd col s of None \<Rightarrow> NaT | Some t \<Rightarrow> Stamp t)"

fun ts_isna :: "tcell \<Rightarrow> bool" where
  "ts_isna NaT = True"
| "ts_isna _ = False"

text \<open>\<open>a >= b\<close> on two datetime columns: false when either side is NaT.\<close>

fun ts_ge :: "tcell \<Rightarrow> tcell \<Rightarrow> bool" where
  "ts_ge (Stamp a) (Stamp b) = (a \<ge> b)"
| "ts_ge _ _ = False"

text \<open>
  \<open>pd.to_numeric(df[col], errors='coerce').astype('Int64')\<close> on one cell: text that is
  not a number becomes null, and a number that is not an integer makes \<open>astype\<close> raise
  \<open>TypeError\<close> (cannot safely cast).
\<close>

definition is_integer :: "rat \<Rightarrow> bool" where
  "is_integer r = (of_int \<lfloor>r\<rfloor> = r)"

fun to_Int64 :: "reader \<Rightarrow> cell \<Rightarrow> error + cell" where
  "to_Int64 rd NA = Inr NA"
| "to_Int64 rd (Num r) = (if is_integer r then Inr (Num r) else Inl TypeError)"
| "to_Int64 rd (Str s) =
     (case to_numeric_text rd s of
        None \<Rightarrow> Inr NA
      | Some r \<Rightarrow> (if is_integer r then Inr (Num r) else Inl TypeError))"

text \<open>
  A column assignment that may raise, row by row: the first exception is the result.
\<close>

fun assign :: "('r \<Rightarrow> error + 'r) \<Rightarrow> 'r list \<Rightarrow> error + 'r list" where
  "assign f [] = Inr []"
| "assign f (r # rs) =
     (case f r of
        Inl e \<Rightarrow> Inl e
      | Inr r' \<Rightarrow> (case assign f rs of Inl e \<Rightarrow> Inl e | Inr rs' \<Rightarrow> Inr (r' # rs')))"

text \<open>Comparisons of a numeric column with a number or with another column; NaN is false.\<close>

fun ge_const :: "rat option \<Rightarrow> rat \<Rightarrow> bool" where
  "ge_const None c = False"
| "ge_const (Some x) c = (x \<ge> c)"

fun ge_col :: "rat option \<Rightarrow> rat option \<Rightarrow> bool" where
  "ge_col (Some x) (Some y) = (x \<ge> y)"
| "ge_col _ _ = False"

text \<open>\<open>series.fillna(d)\<close>, \<open>series.str.strip()\<close>, \<open>series.str.title()\<close> on one cell.\<close>

fun fillna :: "string \<Rightarrow> string option \<Rightarrow> string option" where
  "fillna d None = Some d"
| "fillna d (Some s) = Some s"

definition str_strip :: "string option \<Rightarrow> string option" where
  "str_strip c = map_option strip c"

definition str_title :: "reader \<Rightarrow> string option \<Rightarrow> string option" where
  "str_title rd c = map_option (title_text rd) c"

text \<open>
  On ASCII text \<open>str.title()\<close> is the function \<open>ascii_title\<close>: a letter that follows a
  character that is not a letter (or starts the string) becomes upper case, a letter that
  follows a letter becomes lower case, every other character stays.  It is the
  \<open>title_text\<close> of the readers used on concrete frames, whose text is ASCII.  The
  classes of ASCII letters below also serve the email pattern.
\<close>

definition islower :: "char \<Rightarrow> bool" where
  "islower c = (let n = (of_char c :: nat) in 97 \<le> n \<and> n \<le> 122)"

definition isupper :: "char \<Rightarrow> bool" where
  "isupper c = (let n = (of_char c :: nat) in 65 \<le> n \<and> n \<le> 90)"

definition toupper :: "char \<Rightarrow> char" where
  "toupper c = (if islower c then char_of ((of_char c :: nat) - 32) else c)"

definition tolower :: "char \<Rightarrow> char" where
  "tolower c = (if isupper c then char_of ((of_char c :: nat) + 32) else c)"

fun ascii_title_from :: "bool \<Rightarrow> string \<Rightarrow> string" where
  "ascii_title_from previous_is_cased [] = []"
| "ascii_title_from previous_is_cased (c # s) =
     (if islower c then
        (if previous_is_cased then c else toupper c) # ascii_title_from True s
      else if isupper c then
        (if previous_is_cased then tolower c else c) # ascii_title_from True s
      else c # ascii_title_from False s)"

definition ascii_title :: "string \<Rightarrow> string" where
  "ascii_title s = ascii_title_from False s"

text \<open>
  \<open>EMAIL_RE.match(str(x))\<close> for
  \<open>^[A-Za-z0-9._%+-]+@[A-Za-z0-9.-]+\.[A-Za-z]{2,}$\<close>.  The local part is the longest
  prefix of its character class and must be followed by \<open>@\<close>; the top-level domain is the
  longest suffix of letters and must be preceded by a dot; \<open>$\<close> also matches before one
  final newline.
\<close>

definition isalpha :: "char \<Rightarrow> bool" where
  "isalpha c = (islower c \<or> isupper c)"

definition isdigit :: "char \<Rightarrow> bool" where
  "isdigit c = (let n = (of_char c :: nat) in 48 \<le> n \<and> n \<le> 57)"

definition local_char :: "char \<Rightarrow> bool" where
  "local_char c = (isalpha c \<or> isdigit c \<or> c \<in> set ''._%+-'')"

definition domain_char :: "char \<Rightarrow> bool" where
  "domain_char c = (isalpha c \<or> isdigit c \<or> c \<in> set ''.-'')"

definition EMAIL_RE_match :: "string \<Rightarrow> bool" where
  "EMAIL_RE_match s0 =
     (let s = (if s0 \<noteq> [] \<and> last s0 = CHR 0x0A then butlast s0 else s0);
          local = takeWhile local_char s;
          rest = dropWhile local_char s
      in local \<noteq> [] \<and> rest \<noteq> [] \<and> hd rest = CHR ''@'' \<and>
         (let dom = tl rest;
              tld = takeWhile isalpha (rev dom);
              pre = rev (dropWhile isalpha (rev dom))
          in 2 \<le> length tld \<and> pre \<noteq> [] \<and> last pre = CHR ''.'' \<and>
             butlast pre \<noteq> [] \<and> list_all domain_char (butlast pre)))"

text \<open>
  \<open>df['email'].apply(lambda x: bool(EMAIL_RE.match(str(x))) if pd.notna(x) else False)\<close>
  on one cell.
\<close>

fun email_valid :: "string option \<Rightarrow> bool" where
  "email_valid None = False"
| "email_valid (Some s) = EMAIL_RE_match s"

text \<open>
  \<open>df.drop_duplicates(subset=[key], keep='first')\<close>: a row is kept when no earlier row
  has the same key; two nulls are the same key.
\<close>

fun drop_from :: "'k list \<Rightarrow> ('r \<Rightarrow> 'k) \<Rightarrow> 'r list \<Rightarrow> 'r list" where
  "drop_from seen key [] = []"
| "drop_from seen key (r # rs) =
     (if key r \<in> set seen then drop_from seen key rs
      else r # drop_from (key r # seen) key rs)"

definition drop_duplicates :: "('r \<Rightarrow> 'k) \<Rightarrow> 'r list \<Rightarrow> 'r list" where
  "drop_duplicates key df = drop_from [] key df"

text \<open>
  The report every cleaning function but the last prints before it returns evaluates
  \<open>(original_rows - clean_rows) / original_rows * 100\<close>, which raises
  \<open>ZeroDivisionError\<close> on a frame without rows.
\<close>

definition print_removed :: "nat \<Rightarrow> 'r list \<Rightarrow> error + 'r list" where
  "print_removed original_rows df = (if original_rows = 0 then Inl ZeroDivisionError else Inr df)"

text \<open>Sequencing of steps that may raise.\<close>

definition and_then :: "error + 'a \<Rightarrow> ('a \<Rightarrow> error + 'b) \<Rightarrow> error + 'b" where
  "and_then m f = (case m of Inl e \<Rightarrow> Inl e | Inr x \<Rightarrow> f x)"

text \<open>
  \<open>df[col] = pd.to_numeric(df[col], errors='coerce').astype('Int64')\<close> for the column
  read by \<open>get\<close> and written by \<open>put\<close>.
\<close>

definition astype_Int64 ::
  "reader \<Rightarrow> ('r \<Rightarrow> cell) \<Rightarrow> ('r \<Rightarrow> cell \<Rightarrow> 'r) \<Rightarrow> 'r list \<Rightarrow> error + 'r list" where
  "astype_Int64 rd get put df =
     assign (\<lambda>r. case to_Int64 rd (get r) of Inl e \<Rightarrow> Inl e | Inr c \<Rightarrow> Inr (put r c)) df"

subsection \<open>\<open>clean_users\<close>\<close>

record users =
  u_id :: cell
  u_first_name :: "string option"
  u_last_name :: "string option"
  u_email :: "string option"
  u_age :: "rat option"
  u_city :: "string option"
  u_country :: "string option"
  u_created_at :: tcell
  u_others :: "cell list"

definition clean_users :: "reader \<Rightarrow> users list \<Rightarrow> error + users list" where
  "clean_users rd df0 =
     (let original_rows = length df0;
          df = drop_duplicates u_email df0;
          df = filter (\<lambda>r. ge_const (u_age r) 18) df;
          df = map (\<lambda>r. r\<lparr>u_city := fillna ''Unknown'' (u_city r)\<rparr>) df;
          df = map (\<lambda>r. r\<lparr>u_first_name := str_title rd (str_strip (u_first_name r))\<rparr>) df;
          df = map (\<lambda>r. r\<lparr>u_last_name := str_title rd (str_strip (u_last_name r))\<rparr>) df;
          df = map (\<lambda>r. r\<lparr>u_country := str_title rd (str_strip (u_country r))\<rparr>) df;
          df = map (\<lambda>r. r\<lparr>u_city := str_strip (u_city r)\<rparr>) df;
          df = filter (\<lambda>r. email_valid (u_email r)) df;
          df = map (\<lambda>r. r\<lparr>u_created_at := to_datetime rd ''created_at'' (u_created_at r)\<rparr>) df;
          df = filter (\<lambda>r. \<not> ts_isna (u_created_at r)) df
      in and_then (astype_Int64 rd u_id (\<lambda>r c. r\<lparr>u_id := c\<rparr>) df)
           (print_removed original_rows))"

subsection \<open>\<open>clean_products\<close>\<close>

record products =
  p_id :: cell
  p_cost :: "rat option"
  p_retail_price :: "rat option"
  p_name :: "string option"
  p_brand :: "string option"
  p_category :: "string option"
  p_department :: "string option"
  p_others :: "cell list"

definition clean_products :: "reader \<Rightarrow> products list \<Rightarrow> error + products list" where
  "clean_products rd df0 =
     (let original_rows = length df0;
          df = drop_duplicates p_id df0;
          df = filter (\<lambda>r. ge_const (p_cost r) 0) df;
          df = filter (\<lambda>r. ge_col (p_retail_price r) (p_cost r)) df;
          df = map (\<lambda>r. r\<lparr>p_name := fillna ''Unknown Product'' (p_name r)\<rparr>) df;
          df = map (\<lambda>r. r\<lparr>p_brand := fillna ''Generic'' (p_brand r)\<rparr>) df;
          df = map (\<lambda>r. r\<lparr>p_category := fillna ''Uncategorized'' (p_category r)\<rparr>) df;
          df = map (\<lambda>r. r\<lparr>p_name := str_strip (p_name r)\<rparr>) df;
          df = map (\<lambda>r. r\<lparr>p_brand := str_strip (p_brand r)\<rparr>) df;
          df = map (\<lambda>r. r\<lparr>p_category := str_title rd (str_strip (p_category r))\<rparr>) df;
          df = map (\<lambda>r. r\<lparr>p_department := str_strip (p_department r)\<rparr>) df
      in and_then (astype_Int64 rd p_id (\<lambda>r c. r\<lparr>p_id := c\<rparr>) df)
           (print_removed original_rows))"

subsection \<open>\<open>clean_orders\<close>\<close>

text \<open>
  The four timestamp columns are taken to be present, so the test \<open>col in df.columns\<close>
  of the conversion loop is true.
\<close>

record orders =
  o_order_id :: cell
  o_user_id :: cell
  o_status :: "string option"
  o_created_at :: tcell
  o_shipped_at :: tcell
  o_delivered_at :: tcell
  o_returned_at :: tcell
  o_others :: "cell list"

definition orders_valid_statuses :: "string list" where
  "orders_valid_statuses = [''Completed'', ''Cancelled'', ''Processing'', ''Shipped'', ''Returned'']"

text \<open>\<open>df['status'].isin(valid_statuses)\<close> on one cell.\<close>

fun isin_text :: "string option \<Rightarrow> string list \<Rightarrow> bool" where
  "isin_text None vs = False"
| "isin_text (Some s) vs = (s \<in> set vs)"

definition orders_to_datetime :: "reader \<Rightarrow> orders \<Rightarrow> orders" where
  "orders_to_datetime rd r =
     r\<lparr>o_created_at := to_datetime rd ''created_at'' (o_created_at r),
       o_shipped_at := to_datetime rd ''shipped_at'' (o_shipped_at r),
       o_delivered_at := to_datetime rd ''delivered_at'' (o_delivered_at r),
       o_returned_at := to_datetime rd ''returned_at'' (o_returned_at r)\<rparr>"

definition shipped_after_created :: "orders \<Rightarrow> bool" where
  "shipped_after_created r =
     (ts_isna (o_shipped_at r) \<or> ts_isna (o_created_at r) \<or>
      ts_ge (o_shipped_at r) (o_created_at r))"

definition delivered_after_shipped :: "orders \<Rightarrow> bool" where
  "delivered_after_shipped r =
     (ts_isna (o_delivered_at r) \<or> ts_isna (o_shipped_at r) \<or>
      ts_ge (o_delivered_at r) (o_shipped_at r))"

definition clean_orders :: "reader \<Rightarrow> orders list \<Rightarrow> error + orders list" where
  "clean_orders rd df0 =
     (let original_rows = length df0;
          df = drop_duplicates o_order_id df0;
          df = map (orders_to_datetime rd) df;
          df = filter (\<lambda>r. isin_text (o_status r) orders_valid_statuses) df;
          df = filter shipped_after_created df;
          df = filter delivered_after_shipped df
      in and_then (astype_Int64 rd o_order_id (\<lambda>r c. r\<lparr>o_order_id := c\<rparr>) df) (\<lambda>df.
         and_then (astype_Int64 rd o_user_id (\<lambda>r c. r\<lparr>o_user_id := c\<rparr>) df)
           (print_removed original_rows)))"

subsection \<open>\<open>clean_order_items\<close>\<close>

record order_items =
  oi_id :: cell
  oi_order_id :: cell
  oi_product_id :: cell
  oi_sale_price :: "rat option"
  oi_status :: "string option"
  oi_created_at :: tcell
  oi_shipped_at :: tcell
  oi_delivered_at :: tcell
  oi_returned_at :: tcell
  oi_others :: "cell list"

definition order_items_valid_statuses :: "string list" where
  "order_items_valid_statuses =
     [''Complete'', ''Cancelled'', ''Processing'', ''Shipped'', ''Returned'']"

definition order_items_to_datetime :: "reader \<Rightarrow> order_items \<Rightarrow> order_items" where
  "order_items_to_datetime rd r =
     r\<lparr>oi_created_at := to_datetime rd ''created_at'' (oi_created_at r),
       oi_shipped_at := to_datetime rd ''shipped_at'' (oi_shipped_at r),
       oi_delivered_at := to_datetime rd ''delivered_at'' (oi_delivered_at r),
       oi_returned_at := to_datetime rd ''returned_at'' (oi_returned_at r)\<rparr>"

definition clean_order_items :: "reader \<Rightarrow> order_items list \<Rightarrow> error + order_items list" where
  "clean_order_items rd df0 =
     (let original_rows = length df0;
          df = drop_duplicates oi_id df0;
          df = filter (\<lambda>r. ge_const (oi_sale_price r) 0) df;
          df = map (order_items_to_datetime rd) df;
          df = filter (\<lambda>r. isin_text (oi_status r) order_items_valid_statuses) df
      in and_then (astype_Int64 rd oi_id (\<lambda>r c. r\<lparr>oi_id := c\<rparr>) df) (\<lambda>df.
         and_then (astype_Int64 rd oi_order_id (\<lambda>r c. r\<lparr>oi_order_id := c\<rparr>) df) (\<lambda>df.
         and_then (astype_Int64 rd oi_product_id (\<lambda>r c. r\<lparr>oi_product_id := c\<rparr>) df)
           (print_removed original_rows))))"

subsection \<open>\<open>clean_inventory_items\<close>\<close>

record inventory_items =
  inv_id :: cell
  inv_product_id :: cell
  inv_cost :: "rat option"
  inv_product_retail_price :: "rat option"
  inv_created_at :: tcell
  inv_sold_at :: tcell
  inv_product_name :: "string option"
  inv_product_brand :: "string option"
  inv_others :: "cell list"

definition clean_inventory_items ::
  "reader \<Rightarrow> inventory_items list \<Rightarrow> error + inventory_items list" where
  "clean_inventory_items rd df0 =
     (let original_rows = length df0;
          df = drop_duplicates inv_id df0;
          df = filter (\<lambda>r. ge_const (inv_cost r) 0) df;
          df = filter (\<lambda>r. ge_const (inv_product_retail_price r) 0) df;
          df = map (\<lambda>r. r\<lparr>inv_created_at := to_datetime rd ''created_at'' (inv_created_at r)\<rparr>) df;
          df = map (\<lambda>r. r\<lparr>inv_sold_at := to_datetime rd ''sold_at'' (inv_sold_at r)\<rparr>) df;
          df = filter (\<lambda>r. ts_isna (inv_sold_at r) \<or> ts_ge (inv_sold_at r) (inv_created_at r)) df;
          df = map (\<lambda>r. r\<lparr>inv_product_name := fillna ''Unknown Product'' (inv_product_name r)\<rparr>) df;
          df = map (\<lambda>r. r\<lparr>inv_product_brand := fillna ''Generic'' (inv_product_brand r)\<rparr>) df
      in and_then (astype_Int64 rd inv_id (\<lambda>r c. r\<lparr>inv_id := c\<rparr>) df) (\<lambda>df.
         and_then (astype_Int64 rd inv_product_id (\<lambda>r c. r\<lparr>inv_product_id := c\<rparr>) df)
           (print_removed original_rows)))"

subsection \<open>\<open>clean_events\<close>\<close>

text \<open>
  \<open>df.replace('  +', '', regex=True)\<close> rewrites every string of the frame with
  \<open>re.sub\<close>: each maximal run of two or more spaces is removed, a single space stays.
\<close>

function drop_runs :: "string \<Rightarrow> string" where
  "drop_runs [] = []"
| "drop_runs (c # s) =
     (if c = CHR '' '' \<and> s \<noteq> [] \<and> hd s = CHR '' ''
      then drop_runs (dropWhile (\<lambda>d. d = CHR '' '') s)
      else c # drop_runs s)"
  by pat_completeness auto
termination
  by (relation "measure length") (auto simp: length_dropWhile_le less_Suc_eq_le)

fun replace_cell :: "cell \<Rightarrow> cell" where
  "replace_cell (Str s) = Str (drop_runs s)"
| "replace_cell c = c"

record events =
  e_id :: cell
  e_user_id :: cell
  e_sequence_number :: cell
  e_created_at :: tcell
  e_city :: "string option"
  e_others :: "cell list"

definition replace_spaces :: "events \<Rightarrow> events" where
  "replace_spaces r =
     r\<lparr>e_city := map_option drop_runs (e_city r), e_others := map replace_cell (e_others r)\<rparr>"

definition clean_events :: "reader \<Rightarrow> events list \<Rightarrow> error + events list" where
  "clean_events rd df0 =
     (let original_rows = length df0;
          df = drop_duplicates e_id df0;
          df = map (\<lambda>r. r\<lparr>e_created_at := to_datetime rd ''created_at'' (e_created_at r)\<rparr>) df;
          df = filter (\<lambda>r. \<not> ts_isna (e_created_at r)) df;
          df = map (\<lambda>r. r\<lparr>e_city := fillna ''Unknown'' (e_city r)\<rparr>) df
      in and_then (astype_Int64 rd e_id (\<lambda>r c. r\<lparr>e_id := c\<rparr>) df) (\<lambda>df.
         and_then (astype_Int64 rd e_user_id (\<lambda>r c. r\<lparr>e_user_id := c\<rparr>) df) (\<lambda>df.
         and_then (astype_Int64 rd e_sequence_number (\<lambda>r c. r\<lparr>e_sequence_number := c\<rparr>) df) (\<lambda>df.
         print_removed original_rows (map replace_spaces df)))))"

subsection \<open>\<open>clean_distribution_centers\<close>\<close>

text \<open>This function prints the two counts only and divides by nothing.\<close>

record distribution_centers =
  dc_id :: cell
  dc_name :: "string option"
  dc_others :: "cell list"

definition clean_distribution_centers ::
  "reader \<Rightarrow> distribution_centers list \<Rightarrow> error + distribution_centers list" where
  "clean_distribution_centers rd df0 =
     (let df = drop_duplicates dc_id df0;
          df = map (\<lambda>r. r\<lparr>dc_name := str_strip (dc_name r)\<rparr>) df
      in astype_Int64 rd dc_id (\<lambda>r c. r\<lparr>dc_id := c\<rparr>) df)"

subsection \<open>\<open>main\<close>\<close>

text \<open>
  The files \<open>main\<close> reads and writes.  A raw file is modelled by the frame
  \<open>pd.read_csv\<close> returns for it, a processed file by the frame written to it: reading a
  processed file back gives the rows that were written, in the same order and with the
  same keys (a null key is written as an empty field and read back as null).  A
  violations file holds the selected columns of the rows that were dropped.  A file that
  does not exist is \<open>None\<close>.
\<close>

record raw_files =
  users_csv :: "users list option"
  products_csv :: "products list option"
  orders_csv :: "orders list option"
  order_items_csv :: "order_items list option"
  inventory_items_csv :: "inventory_items list option"
  events_csv :: "events list option"
  distribution_centers_csv :: "distribution_centers list option"

text \<open>
  One entry of \<open>cleaning_summary\<close>.  The entry \<open>removed_percent\<close>, a rounded float
  computed from the counts, is not modelled.
\<close>

record summary_row =
  table :: string
  original_rows :: nat
  clean_rows :: nat
  removed_rows :: int
  clean_rows_after_RI :: "nat option"

text \<open>
  The state \<open>main\<close> works on: the directories \<open>data/processed\<close> and \<open>data/violations\<close>,
  and the list \<open>cleaning_summary\<close>.
\<close>

record state =
  users_cleaned :: "users list option"
  products_cleaned :: "products list option"
  orders_cleaned :: "orders list option"
  order_items_cleaned :: "order_items list option"
  inventory_items_cleaned :: "inventory_items list option"
  events_cleaned :: "events list option"
  distribution_centers_cleaned :: "distribution_centers list option"
  orphan_orders :: "(cell \<times> cell) list option"
  oi_missing_orders :: "(cell \<times> cell \<times> cell) list option"
  oi_missing_products :: "(cell \<times> cell \<times> cell) list option"
  orphan_events :: "(cell \<times> cell \<times> tcell) list option"
  cleaning_summary :: "summary_row list"

text \<open>
  A step of \<open>main\<close> returns the state it leaves and the exception it raised, if any;
  nothing in \<open>main\<close> catches an exception, so the first one ends the run.
\<close>

definition step ::
  "state \<times> error option \<Rightarrow> (state \<Rightarrow> state \<times> error option) \<Rightarrow> state \<times> error option" where
  "step m f = (case m of (st, Some e) \<Rightarrow> (st, Some e) | (st, None) \<Rightarrow> f st)"

text \<open>
  The body of \<open>for filename, cleaning_func in files_to_clean.items()\<close> for one table: a
  missing raw file is skipped; otherwise the frame is cleaned, written, and counted.
\<close>

definition process_file ::
  "string \<Rightarrow> ('r list \<Rightarrow> error + 'r list) \<Rightarrow> 'r list option \<Rightarrow> ('r list \<Rightarrow> state \<Rightarrow> state) \<Rightarrow>
   state \<Rightarrow> state \<times> error option" where
  "process_file name cleaning_func raw to_csv st =
     (case raw of
        None \<Rightarrow> (st, None)
      | Some df_raw \<Rightarrow>
          (case cleaning_func df_raw of
             Inl e \<Rightarrow> (st, Some e)
           | Inr df_clean \<Rightarrow>
               ((to_csv df_clean st)
                  \<lparr>cleaning_summary := cleaning_summary st @
                     [\<lparr>table = name,
                       original_rows = length df_raw,
                       clean_rows = length df_clean,
                       removed_rows = int (length df_raw) - int (length df_clean),
                       clean_rows_after_RI = None\<rparr>]\<rparr>, None)))"

definition clean_all :: "reader \<Rightarrow> raw_files \<Rightarrow> state \<Rightarrow> state \<times> error option" where
  "clean_all rd raw st0 =
     step (process_file ''users'' (clean_users rd) (users_csv raw)
             (\<lambda>df st. st\<lparr>users_cleaned := Some df\<rparr>) st0) (\<lambda>st.
     step (process_file ''products'' (clean_products rd) (products_csv raw)
             (\<lambda>df st. st\<lparr>products_cleaned := Some df\<rparr>) st) (\<lambda>st.
     step (process_file ''orders'' (clean_orders rd) (orders_csv raw)
             (\<lambda>df st. st\<lparr>orders_cleaned := Some df\<rparr>) st) (\<lambda>st.
     step (process_file ''order_items'' (clean_order_items rd) (order_items_csv raw)
             (\<lambda>df st. st\<lparr>order_items_cleaned := Some df\<rparr>) st) (\<lambda>st.
     step (process_file ''inventory_items'' (clean_inventory_items rd) (inventory_items_csv raw)
             (\<lambda>df st. st\<lparr>inventory_items_cleaned := Some df\<rparr>) st) (\<lambda>st.
     step (process_file ''events'' (clean_events rd) (events_csv raw)
             (\<lambda>df st. st\<lparr>events_cleaned := Some df\<rparr>) st) (\<lambda>st.
     process_file ''distribution_centers'' (clean_distribution_centers rd)
             (distribution_centers_csv raw)
             (\<lambda>df st. st\<lparr>distribution_centers_cleaned := Some df\<rparr>) st))))))"

text \<open>
  \<open>series.isin(values)\<close> on one cell: membership by value, where a null is found among
  values that hold a null.
\<close>

definition isin :: "cell \<Rightarrow> cell list \<Rightarrow> bool" where
  "isin v vs = (v \<in> set vs)"

fun cell_isna :: "cell \<Rightarrow> bool" where
  "cell_isna NA = True"
| "cell_isna _ = False"

text \<open>\<open>for row in cleaning_summary: if row["table"] == name: row["clean_rows_after_RI"] = n\<close>.\<close>

definition set_after_RI :: "string \<Rightarrow> nat \<Rightarrow> summary_row list \<Rightarrow> summary_row list" where
  "set_after_RI name n rows =
     map (\<lambda>row. if table row = name then row\<lparr>clean_rows_after_RI := Some n\<rparr> else row) rows"

text \<open>ORDERS and USERS: the block under \<open>if all(os.path.exists(p) for p in [users_path, orders_path])\<close>.\<close>

definition ri_orders_users :: "state \<Rightarrow> state" where
  "ri_orders_users st =
     (case (users_cleaned st, orders_cleaned st) of
        (Some users_df, Some orders_df) \<Rightarrow>
          (let mask_valid_user = (\<lambda>r. isin (o_user_id r) (map u_id users_df));
               orphan_orders_df =
                 map (\<lambda>r. (o_order_id r, o_user_id r))
                     (filter (\<lambda>r. \<not> mask_valid_user r) orders_df);
               st = (if orphan_orders_df \<noteq> [] then st\<lparr>orphan_orders := Some orphan_orders_df\<rparr>
                     else st);
               orders_df = filter mask_valid_user orders_df
           in st\<lparr>orders_cleaned := Some orders_df,
                 cleaning_summary :=
                   set_after_RI ''orders'' (length orders_df) (cleaning_summary st)\<rparr>)
      | _ \<Rightarrow> st)"

text \<open>EVENTS and USERS: the block under \<open>if all(os.path.exists(p) for p in [users_path, events_path])\<close>.\<close>

definition ri_events_users :: "state \<Rightarrow> state" where
  "ri_events_users st =
     (case (users_cleaned st, events_cleaned st) of
        (Some users_df, Some events_df) \<Rightarrow>
          (let valid_user_ids = remdups (filter (\<lambda>c. \<not> cell_isna c) (map u_id users_df));
               mask_valid = (\<lambda>r. cell_isna (e_user_id r) \<or> isin (e_user_id r) valid_user_ids);
               orphan_events_df =
                 map (\<lambda>r. (e_id r, e_user_id r, e_created_at r))
                     (filter (\<lambda>r. \<not> mask_valid r) events_df);
               st = (if orphan_events_df \<noteq> [] then st\<lparr>orphan_events := Some orphan_events_df\<rparr>
                     else st);
               events_df = filter mask_valid events_df
           in st\<lparr>events_cleaned := Some events_df,
                 cleaning_summary :=
                   set_after_RI ''events'' (length events_df) (cleaning_summary st)\<rparr>)
      | _ \<Rightarrow> st)"

text \<open>
  ORDER\_ITEMS with ORDERS and PRODUCTS: the block under
  \<open>if all(os.path.exists(p) for p in [orders_path, prods_path, oitems_path])\<close>.  The block
  for the events is written inside this block, so it runs as the last step of it.
\<close>

definition ri_order_items :: "state \<Rightarrow> state" where
  "ri_order_items st =
     (case (orders_cleaned st, products_cleaned st, order_items_cleaned st) of
        (Some orders_df, Some prods_df, Some oitems_df) \<Rightarrow>
          (let mask_order_ok = (\<lambda>r. isin (oi_order_id r) (map o_order_id orders_df));
               oi_missing_orders_df =
                 map (\<lambda>r. (oi_id r, oi_order_id r, oi_product_id r))
                     (filter (\<lambda>r. \<not> mask_order_ok r) oitems_df);
               st = (if oi_missing_orders_df \<noteq> []
                     then st\<lparr>oi_missing_orders := Some oi_missing_orders_df\<rparr> else st);
               mask_product_ok = (\<lambda>r. isin (oi_product_id r) (map p_id prods_df));
               oi_missing_products_df =
                 map (\<lambda>r. (oi_id r, oi_order_id r, oi_product_id r))
                     (filter (\<lambda>r. \<not> mask_product_ok r) oitems_df);
               st = (if oi_missing_products_df \<noteq> []
                     then st\<lparr>oi_missing_products := Some oi_missing_products_df\<rparr> else st);
               oitems_df = filter (\<lambda>r. mask_order_ok r \<and> mask_product_ok r) oitems_df;
               st = st\<lparr>order_items_cleaned := Some oitems_df,
                       cleaning_summary :=
                         set_after_RI ''order_items'' (length oitems_df) (cleaning_summary st)\<rparr>
           in ri_events_users st)
      | _ \<Rightarrow> st)"

text \<open>
  The report at the end builds a frame from \<open>cleaning_summary\<close> and reads its column
  \<open>original_rows\<close>, which an empty summary does not have.
\<close>

definition report :: "state \<Rightarrow> state \<times> error option" where
  "report st = (if cleaning_summary st = [] then (st, Some KeyError) else (st, None))"

text \<open>
  \<open>main\<close>, started on the directories as \<open>disk\<close> has them (the summary starts empty).
\<close>

definition main :: "reader \<Rightarrow> raw_files \<Rightarrow> state \<Rightarrow> state \<times> error option" where
  "main rd raw disk =
     step (clean_all rd raw (disk\<lparr>cleaning_summary := []\<rparr>)) (\<lambda>st.
       report (ri_order_items (ri_orders_users st)))"

subsection \<open>Predicates used to state the properties\<close>

text \<open>A key cell that holds text, which the coercion to \<open>Int64\<close> has to read.\<close>

fun is_text :: "cell \<Rightarrow> bool" where
  "is_text (Str s) = True"
| "is_text _ = False"


text \<open>A string without white space at either end.\<close>

definition trimmed :: "string \<Rightarrow> bool" where
  "trimmed s = (s = [] \<or> (\<not> isspace (hd s) \<and> \<not> isspace (last s)))"

subsection \<open>The shape shared by the cleaning functions\<close>

text \<open>
  Each cleaning function removes duplicate keys, then filters and rewrites row by row,
  then coerces its key columns.  The filters and assignments of a function, taken
  together, are one test \<open>keep\<close> and one rewriting \<open>rewrite\<close> of a row of the deduplicated
  frame.  The definitions below name these for each table; the lemmas \<open>clean_*_normal\<close>
  show that the functions, as written in the script, compute exactly this.
\<close>

definition cleaned_by ::
  "('r \<Rightarrow> 'k) \<Rightarrow> ('r \<Rightarrow> bool) \<Rightarrow> ('r \<Rightarrow> 'r) \<Rightarrow> ('r list \<Rightarrow> error + 'r list) \<Rightarrow>
   'r list \<Rightarrow> error + 'r list" where
  "cleaned_by key keep rewrite coerce df =
     coerce (map rewrite (filter keep (drop_duplicates key df)))"

definition users_row :: "reader \<Rightarrow> users \<Rightarrow> users" where
  "users_row rd r =
     r\<lparr>u_city := str_strip (fillna ''Unknown'' (u_city r)),
       u_first_name := str_title rd (str_strip (u_first_name r)),
       u_last_name := str_title rd (str_strip (u_last_name r)),
       u_country := str_title rd (str_strip (u_country r)),
       u_created_at := to_datetime rd ''created_at'' (u_created_at r)\<rparr>"

definition users_keep :: "reader \<Rightarrow> users \<Rightarrow> bool" where
  "users_keep rd r =
     (ge_const (u_age r) 18 \<and> email_valid (u_email r) \<and>
      \<not> ts_isna (to_datetime rd ''created_at'' (u_created_at r)))"

definition users_coerce :: "reader \<Rightarrow> users list \<Rightarrow> error + users list" where
  "users_coerce rd df = astype_Int64 rd u_id (\<lambda>r c. r\<lparr>u_id := c\<rparr>) df"

definition products_row :: "reader \<Rightarrow> products \<Rightarrow> products" where
  "products_row rd r =
     r\<lparr>p_name := str_strip (fillna ''Unknown Product'' (p_name r)),
       p_brand := str_strip (fillna ''Generic'' (p_brand r)),
       p_category := str_title rd (str_strip (fillna ''Uncategorized'' (p_category r))),
       p_department := str_strip (p_department r)\<rparr>"

definition products_keep :: "products \<Rightarrow> bool" where
  "products_keep r = (ge_const (p_cost r) 0 \<and> ge_col (p_retail_price r) (p_cost r))"

definition products_coerce :: "reader \<Rightarrow> products list \<Rightarrow> error + products list" where
  "products_coerce rd df = astype_Int64 rd p_id (\<lambda>r c. r\<lparr>p_id := c\<rparr>) df"

definition orders_keep :: "reader \<Rightarrow> orders \<Rightarrow> bool" where
  "orders_keep rd r =
     (isin_text (o_status r) orders_valid_statuses \<and>
      shipped_after_created (orders_to_datetime rd r) \<and>
      delivered_after_shipped (orders_to_datetime rd r))"

definition orders_coerce :: "reader \<Rightarrow> orders list \<Rightarrow> error + orders list" where
  "orders_coerce rd df =
     and_then (astype_Int64 rd o_order_id (\<lambda>r c. r\<lparr>o_order_id := c\<rparr>) df)
       (astype_Int64 rd o_user_id (\<lambda>r c. r\<lparr>o_user_id := c\<rparr>))"

definition order_items_keep :: "order_items \<Rightarrow> bool" where
  "order_items_keep r =
     (ge_const (oi_sale_price r) 0 \<and> isin_text (oi_status r) order_items_valid_statuses)"

definition order_items_coerce :: "reader \<Rightarrow> order_items list \<Rightarrow> error + order_items list" where
  "order_items_coerce rd df =
     and_then (astype_Int64 rd oi_id (\<lambda>r c. r\<lparr>oi_id := c\<rparr>) df) (\<lambda>df.
     and_then (astype_Int64 rd oi_order_id (\<lambda>r c. r\<lparr>oi_order_id := c\<rparr>) df)
       (astype_Int64 rd oi_product_id (\<lambda>r c. r\<lparr>oi_product_id := c\<rparr>)))"

definition inventory_items_row :: "reader \<Rightarrow> inventory_items \<Rightarrow> inventory_items" where
  "inventory_items_row rd r =
     r\<lparr>inv_created_at := to_datetime rd ''created_at'' (inv_created_at r),
       inv_sold_at := to_datetime rd ''sold_at'' (inv_sold_at r),
       inv_product_name := fillna ''Unknown Product'' (inv_product_name r),
       inv_product_brand := fillna ''Generic'' (inv_product_brand r)\<rparr>"

definition inventory_items_keep :: "reader \<Rightarrow> inventory_items \<Rightarrow> bool" where
  "inventory_items_keep rd r =
     (ge_const (inv_cost r) 0 \<and> ge_const (inv_product_retail_price r) 0 \<and>
      (ts_isna (to_datetime rd ''sold_at'' (inv_sold_at r)) \<or>
       ts_ge (to_datetime rd ''sold_at'' (inv_sold_at r))
             (to_datetime rd ''created_at'' (inv_created_at r))))"

definition inventory_items_coerce ::
  "reader \<Rightarrow> inventory_items list \<Rightarrow> error + inventory_items list" where
  "inventory_items_coerce rd df =
     and_then (astype_Int64 rd inv_id (\<lambda>r c. r\<lparr>inv_id := c\<rparr>) df)
       (astype_Int64 rd inv_product_id (\<lambda>r c. r\<lparr>inv_product_id := c\<rparr>))"

definition events_row :: "reader \<Rightarrow> events \<Rightarrow> events" where
  "events_row rd r =
     r\<lparr>e_created_at := to_datetime rd ''created_at'' (e_created_at r),
       e_city := fillna ''Unknown'' (e_city r)\<rparr>"

definition events_keep :: "reader \<Rightarrow> events \<Rightarrow> bool" where
  "events_keep rd r = (\<not> ts_isna (to_datetime rd ''created_at'' (e_created_at r)))"

definition events_coerce :: "reader \<Rightarrow> events list \<Rightarrow> error + events list" where
  "events_coerce rd df =
     and_then (astype_Int64 rd e_id (\<lambda>r c. r\<lparr>e_id := c\<rparr>) df) (\<lambda>df.
     and_then (astype_Int64 rd e_user_id (\<lambda>r c. r\<lparr>e_user_id := c\<rparr>) df) (\<lambda>df.
     and_then (astype_Int64 rd e_sequence_number (\<lambda>r c. r\<lparr>e_sequence_number := c\<rparr>) df) (\<lambda>df.
       Inr (map replace_spaces df))))"

definition distribution_centers_row :: "distribution_centers \<Rightarrow> distribution_centers" where
  "distribution_centers_row r = r\<lparr>dc_name := str_strip (dc_name r)\<rparr>"

definition distribution_centers_coerce ::
  "reader \<Rightarrow> distribution_centers list \<Rightarrow> error + distribution_centers list" where
  "distribution_centers_coerce rd df = astype_Int64 rd dc_id (\<lambda>r c. r\<lparr>dc_id := c\<rparr>) df"

text \<open>
  A row \<open>r\<close> of the orders frame is retained in the cleaned frame \<open>out\<close> when some row of
  \<open>out\<close> is \<open>r\<close> with its timestamps parsed and its two keys coerced.
\<close>

definition orders_retained :: "reader \<Rightarrow> orders \<Rightarrow> orders list \<Rightarrow> bool" where
  "orders_retained rd r out =
     (\<exists>r'\<in>set out. r'\<lparr>o_order_id := o_order_id r, o_user_id := o_user_id r\<rparr> =
                      orders_to_datetime rd r)"

text \<open>
  A reader for concrete frames with ASCII text: it reads no text as a number or as a
  timestamp (the coerced columns of these frames hold no text that pandas could read),
  and it title-cases as Python does on ASCII text.
\<close>

definition reads_nothing :: reader where
  "reads_nothing =
     \<lparr>to_numeric_text = (\<lambda>s. None), to_datetime_text = (\<lambda>col s. None),
      title_text = ascii_title\<rparr>"

text \<open>
  The title-cased columns of a cleaned frame are settled when stripping and title-casing
  them once more leaves every cell as it is.  This holds of all ASCII text; Python's
  \<open>str.title()\<close> does not guarantee it for every Unicode string.
\<close>

definition users_titled :: "reader \<Rightarrow> users list \<Rightarrow> bool" where
  "users_titled rd df =
     (\<forall>r\<in>set df. str_title rd (str_strip (u_first_name r)) = u_first_name r \<and>
                   str_title rd (str_strip (u_last_name r)) = u_last_name r \<and>
                   str_title rd (str_strip (u_country r)) = u_country r)"

definition products_titled :: "reader \<Rightarrow> products list \<Rightarrow> bool" where
  "products_titled rd df =
     (\<forall>r\<in>set df. str_title rd (str_strip (p_category r)) = p_category r)"

subsection \<open>Concrete frames\<close>

text \<open>
  Three orders: one shipped before it was created, one not shipped yet, one delivered
  before it was shipped.
\<close>

definition order_shipped_early :: orders where
  "order_shipped_early =
     \<lparr>o_order_id = Num 1, o_user_id = Num 10, o_status = Some ''Shipped'',
      o_created_at = Stamp 100, o_shipped_at = Stamp 50, o_delivered_at = NaT,
      o_returned_at = NaT, o_others = []\<rparr>"

definition order_not_shipped :: orders where
  "order_not_shipped =
     \<lparr>o_order_id = Num 2, o_user_id = Num 10, o_status = Some ''Processing'',
      o_created_at = Stamp 100, o_shipped_at = NaT, o_delivered_at = NaT,
      o_returned_at = NaT, o_others = []\<rparr>"

definition order_delivered_early :: orders where
  "order_delivered_early =
     \<lparr>o_order_id = Num 3, o_user_id = Num 11, o_status = Some ''Completed'',
      o_created_at = Stamp 100, o_shipped_at = Stamp 200, o_delivered_at = Stamp 150,
      o_returned_at = NaT, o_others = []\<rparr>"

text \<open>The directories before a first run: no processed file, no violations file.\<close>

definition empty_disk :: state where
  "empty_disk =
     \<lparr>users_cleaned = None, products_cleaned = None, orders_cleaned = None,
      order_items_cleaned = None, inventory_items_cleaned = None, events_cleaned = None,
      distribution_centers_cleaned = None, orphan_orders = None, oi_missing_orders = None,
      oi_missing_products = None, orphan_events = None, cleaning_summary = []\<rparr>"

text \<open>A user, a product, an order of that user, and an order of a user that does not exist.\<close>

definition user_1 :: users where
  "user_1 =
     \<lparr>u_id = Num 1, u_first_name = Some ''Ada'', u_last_name = Some ''Low'',
      u_email = Some ''ada@example.org'', u_age = Some 30, u_city = Some ''Leeds'',
      u_country = Some ''Uk'', u_created_at = Stamp 10, u_others = []\<rparr>"

definition product_7 :: products where
  "product_7 =
     \<lparr>p_id = Num 7, p_cost = Some 10, p_retail_price = Some 10, p_name = Some ''Cap'',
      p_brand = Some ''Acme'', p_category = Some ''Hats'', p_department = Some ''Men'',
      p_others = []\<rparr>"

definition order_of_user_1 :: orders where
  "order_of_user_1 =
     \<lparr>o_order_id = Num 100, o_user_id = Num 1, o_status = Some ''Shipped'',
      o_created_at = Stamp 20, o_shipped_at = Stamp 30, o_delivered_at = NaT,
      o_returned_at = NaT, o_others = []\<rparr>"

definition order_of_nobody :: orders where
  "order_of_nobody =
     \<lparr>o_order_id = Num 101, o_user_id = Num 2, o_status = Some ''Shipped'',
      o_created_at = Stamp 20, o_shipped_at = Stamp 30, o_delivered_at = NaT,
      o_returned_at = NaT, o_others = []\<rparr>"

text \<open>
  Order items: one of an existing order and product, one of a missing order, one of a
  missing product, one of a missing order and a missing product.
\<close>

definition order_item :: "rat \<Rightarrow> rat \<Rightarrow> rat \<Rightarrow> order_items" where
  "order_item i oid pid =
     \<lparr>oi_id = Num i, oi_order_id = Num oid, oi_product_id = Num pid,
      oi_sale_price = Some 12, oi_status = Some ''Shipped'', oi_created_at = Stamp 20,
      oi_shipped_at = Stamp 30, oi_delivered_at = NaT, oi_returned_at = NaT, oi_others = []\<rparr>"

text \<open>Events: of the user, of nobody (anonymous), and of a user that does not exist.\<close>

definition event :: "rat \<Rightarrow> cell \<Rightarrow> events" where
  "event i uid =
     \<lparr>e_id = Num i, e_user_id = uid, e_sequence_number = Num 1, e_created_at = Stamp 40,
      e_city = Some ''Leeds'', e_others = []\<rparr>"

definition disk_with_order_items :: state where
  "disk_with_order_items =
     empty_disk
       \<lparr>orders_cleaned := Some [order_of_user_1],
        products_cleaned := Some [product_7],
        order_items_cleaned :=
          Some [order_item 1 100 7, order_item 2 999 7, order_item 3 100 8, order_item 4 999 8]\<rparr>"

definition disk_with_events :: state where
  "disk_with_events =
     empty_disk
       \<lparr>users_cleaned := Some [user_1],
        events_cleaned := Some [event 1 (Num 1), event 2 NA, event 3 (Num 2)]\<rparr>"

text \<open>A raw directory without files, to which the examples add the files of a run.\<close>

definition no_raw_files :: raw_files where
  "no_raw_files =
     \<lparr>users_csv = None, products_csv = None, orders_csv = None, order_items_csv = None,
      inventory_items_csv = None, events_csv = None, distribution_centers_csv = None\<rparr>"

text \<open>
  Two runs on an empty processed directory: one with the raw orders and order items only
  (the second item names an order that does not exist), one with the raw users and events
  only (the third event names a user that does not exist).
\<close>

definition raw_orders_and_items :: raw_files where
  "raw_orders_and_items =
     no_raw_files\<lparr>orders_csv := Some [order_of_user_1],
                   order_items_csv := Some [order_item 1 100 7, order_item 2 999 7]\<rparr>"

definition raw_users_and_events :: raw_files where
  "raw_users_and_events =
     no_raw_files\<lparr>users_csv := Some [user_1],
                   events_csv := Some [event 1 (Num 1), event 2 NA, event 3 (Num 2)]\<rparr>"

text \<open>
  Processed users and orders (one order of a user that does not exist) and an order item
  of that order, without a products file.
\<close>

definition disk_without_products :: state where
  "disk_without_products =
     empty_disk
       \<lparr>users_cleaned := Some [user_1],
        orders_cleaned := Some [order_of_user_1, order_of_nobody],
        order_items_cleaned := Some [order_item 2 101 7]\<rparr>"

text \<open>
  A raw users row with untrimmed names and no city, which cleaning turns into \<open>user_1\<close>;
  a second account of the same \<open>id\<close> under another email; a user under 18.
\<close>

definition user_1_raw :: users where
  "user_1_raw =
     \<lparr>u_id = Num 1, u_first_name = Some ''  ada '', u_last_name = Some ''LOW'',
      u_email = Some ''ada@example.org'', u_age = Some 30, u_city = Some '' Leeds'',
      u_country = Some ''uk'', u_created_at = Stamp 10, u_others = []\<rparr>"

definition user_1_again :: users where
  "user_1_again = user_1\<lparr>u_email := Some ''ada@example.com''\<rparr>"

definition user_minor :: users where
  "user_minor = user_1\<lparr>u_age := Some 17\<rparr>"

text \<open>Two products whose ids are text that is not a number.\<close>

definition product_x :: products where
  "product_x = product_7\<lparr>p_id := Str ''x''\<rparr>"

definition product_y :: products where
  "product_y = product_7\<lparr>p_id := Str ''y'', p_name := Some ''Scarf''\<rparr>"

text \<open>An inventory item and a distribution center.\<close>

definition inventory_item_5 :: inventory_items where
  "inventory_item_5 =
     \<lparr>inv_id = Num 5, inv_product_id = Num 7, inv_cost = Some 10,
      inv_product_retail_price = Some 12, inv_created_at = Stamp 5, inv_sold_at = NaT,
      inv_product_name = Some ''Cap'', inv_product_brand = Some ''Acme'', inv_others = []\<rparr>"

definition distribution_center_3 :: distribution_centers where
  "distribution_center_3 = \<lparr>dc_id = Num 3, dc_name = Some ''Leeds North'', dc_others = []\<rparr>"

text \<open>A processed directory with all the tables the checks read.\<close>

definition disk_full :: state where
  "disk_full =
     empty_disk
       \<lparr>users_cleaned := Some [user_1],
        products_cleaned := Some [product_7],
        orders_cleaned := Some [order_of_user_1, order_of_nobody],
        order_items_cleaned := Some [order_item 1 100 7, order_item 2 101 7],
        events_cleaned := Some [event 1 (Num 1), event 2 NA, event 3 (Num 2)]\<rparr>"

text \<open>
  Raw frames for each table, with rows that cleaning rewrites and rows that it removes,
  and the rows that remain.
\<close>

definition user_2_raw :: users where
  "user_2_raw =
     \<lparr>u_id = Num 2, u_first_name = Some ''BOB '', u_last_name = Some ''o'neil'',
      u_email = Some ''bob@example.org'', u_age = Some 45, u_city = None,
      u_country = Some '' france'', u_created_at = Stamp 11, u_others = []\<rparr>"

definition user_2 :: users where
  "user_2 =
     \<lparr>u_id = Num 2, u_first_name = Some ''Bob'', u_last_name = Some ''O'Neil'',
      u_email = Some ''bob@example.org'', u_age = Some 45, u_city = Some ''Unknown'',
      u_country = Some ''France'', u_created_at = Stamp 11, u_others = []\<rparr>"

definition users_raw :: "users list" where
  "users_raw =
     [user_1_raw, user_2_raw, user_1\<lparr>u_id := Num 9\<rparr>,
      user_1\<lparr>u_id := Num 4, u_email := Some ''kid@example.org'', u_age := Some 17\<rparr>]"

definition product_8_raw :: products where
  "product_8_raw =
     \<lparr>p_id = Num 8, p_cost = Some 4, p_retail_price = Some 9, p_name = Some '' Scarf '',
      p_brand = None, p_category = Some ''winter wear'', p_department = Some ''Women'',
      p_others = []\<rparr>"

definition product_8 :: products where
  "product_8 =
     \<lparr>p_id = Num 8, p_cost = Some 4, p_retail_price = Some 9, p_name = Some ''Scarf'',
      p_brand = Some ''Generic'', p_category = Some ''Winter Wear'',
      p_department = Some ''Women'', p_others = []\<rparr>"

definition products_raw :: "products list" where
  "products_raw =
     [product_7, product_8_raw, product_7\<lparr>p_name := Some ''Hat''\<rparr>,
      product_7\<lparr>p_id := Num 9, p_retail_price := Some 5\<rparr>]"

definition orders_raw :: "orders list" where
  "orders_raw =
     [order_shipped_early, order_not_shipped, order_delivered_early, order_of_user_1,
      order_of_user_1\<lparr>o_status := Some ''Returned''\<rparr>,
      order_of_nobody\<lparr>o_status := Some ''Lost''\<rparr>]"

definition order_items_raw :: "order_items list" where
  "order_items_raw =
     [order_item 1 100 7, order_item 2 999 7, order_item 1 5 5,
      (order_item 3 100 7)\<lparr>oi_sale_price := Some (- 1)\<rparr>]"

definition inventory_item_6_raw :: inventory_items where
  "inventory_item_6_raw =
     \<lparr>inv_id = Num 6, inv_product_id = Num 8, inv_cost = Some 4,
      inv_product_retail_price = Some 9, inv_created_at = Stamp 5, inv_sold_at = Stamp 9,
      inv_product_name = None, inv_product_brand = None, inv_others = []\<rparr>"

definition inventory_item_6 :: inventory_items where
  "inventory_item_6 =
     inventory_item_6_raw
       \<lparr>inv_product_name := Some ''Unknown Product'', inv_product_brand := Some ''Generic''\<rparr>"

definition inventory_items_raw :: "inventory_items list" where
  "inventory_items_raw =
     [inventory_item_5, inventory_item_6_raw,
      inventory_item_5\<lparr>inv_id := Num 7, inv_sold_at := Stamp 1\<rparr>,
      inventory_item_5\<lparr>inv_cost := Some 99\<rparr>]"

definition events_raw :: "events list" where
  "events_raw =
     [event 1 (Num 1),
      (event 2 NA)\<lparr>e_city := Some ''New   York'', e_others := [Str ''a  b c'', NA]\<rparr>,
      (event 3 (Num 2))\<lparr>e_created_at := NaT\<rparr>,
      event 1 (Num 5)]"

definition event_2_clean :: events where
  "event_2_clean = (event 2 NA)\<lparr>e_city := Some ''NewYork'', e_others := [Str ''ab c'', NA]\<rparr>"

definition distribution_centers_raw :: "distribution_centers list" where
  "distribution_centers_raw =
     [distribution_center_3, \<lparr>dc_id = Num 4, dc_name = Some '' Hull '', dc_others = []\<rparr>,
      distribution_center_3\<lparr>dc_name := Some ''Leeds South''\<rparr>]"

definition distribution_center_4 :: distribution_centers where
  "distribution_center_4 = \<lparr>dc_id = Num 4, dc_name = Some ''Hull'', dc_others = []\<rparr>"


text \<open>A raw directory that holds all seven tables.\<close>

definition raw_full :: raw_files where
  "raw_full =
     \<lparr>users_csv = Some users_raw, products_csv = Some products_raw,
      orders_csv = Some orders_raw, order_items_csv = Some order_items_raw,
      inventory_items_csv = Some inventory_items_raw, events_csv = Some events_raw,
      distribution_centers_csv = Some distribution_centers_raw\<rparr>"
subsection \<open>The counts of a run\<close>

text \<open>
  The number of rows of the processed file of a table, by the name the summary gives the
  table; a file that does not exist has none.
\<close>

definition file_rows :: "state \<Rightarrow> string \<Rightarrow> nat option" where
  "file_rows st name =
     (if name = ''users'' then map_option length (users_cleaned st)
      else if name = ''products'' then map_option length (products_cleaned st)
      else if name = ''orders'' then map_option length (orders_cleaned st)
      else if name = ''order_items'' then map_option length (order_items_cleaned st)
      else if name = ''inventory_items'' then map_option length (inventory_items_cleaned st)
      else if name = ''events'' then map_option length (events_cleaned st)
      else if name = ''distribution_centers''
        then map_option length (distribution_centers_cleaned st)
      else None)"

text \<open>
  An entry of the summary whose counts do not increase from the raw rows to the cleaned
  rows to the rows left by the referential-integrity checks.
\<close>

definition counts_ok :: "summary_row \<Rightarrow> bool" where
  "counts_ok entry =
     (clean_rows entry \<le> original_rows entry \<and>
      (case clean_rows_after_RI entry of None \<Rightarrow> True | Some n \<Rightarrow> n \<le> clean_rows entry))"

text \<open>
  What holds of the summary throughout a run: the counts of every entry do not increase,
  and the processed file of its table has no more rows than the entry counts as cleaned.
\<close>

definition summary_inv :: "state \<Rightarrow> bool" where
  "summary_inv st =
     (\<forall>entry\<in>set (cleaning_summary st).
        counts_ok entry \<and> (\<forall>m. file_rows st (table entry) = Some m \<longrightarrow> m \<le> clean_rows entry))"

section \<open>Properties of the bigint validator\<close>



subsection \<open>One violation for a cell\<close>










subsection \<open>What \<open>validate\<close> returns\<close>

lemma validate_missing: "fs (csv_path self) = None \<Longrightarrow> snd (validate tn fs self) = Inl FileNotFoundError"
  by (simp add: validate_def)

lemma validate_unreadable: "fs (csv_path self) = Some Unreadable \<Longrightarrow> snd (validate tn fs self) = Inl ValueError"
  by (simp add: validate_def)

lemma validate_ok_iff: "snd (validate tn fs self) = Inr (ok, vs) \<Longrightarrow> ok = (vs = [])"
  by (auto simp: validate_def Let_def split: option.splits csv_file.splits prod.splits)

text \<open>
  C10.  The call does not always return once the file has been read: on a \<open>float64\<close>
  column that holds an infinity (the CSV cell \<open>inf\<close>), \<open>int(value)\<close> in the precision
  check raises \<open>OverflowError\<close> after the OVERFLOW violation has been appended, and
  \<open>validate\<close> propagates it.
\<close>

theorem validate_raises_on_infinity:
  "snd (validate numeric_cells
     [''data/processed/events_cleaned.csv'' \<mapsto>
        Csv [(''id'', \<lparr>dtype_of = Dfloat64, cells = [VNum (PyFloat 1 0), VNum PosInf]\<rparr>)]]
     (init_validator ''data/processed/events_cleaned.csv'' (Some [''id''])))
   = Inl OverflowError"
  by code_simp

section \<open>Properties of the cleaning script\<close>

subsection \<open>Duplicates, coercion, sequencing\<close>

lemma drop_from_subset: "set (drop_from seen key xs) \<subseteq> set xs"
  by (induction xs arbitrary: seen) auto

lemma drop_from_length: "length (drop_from seen key xs) \<le> length xs"
  by (induction xs arbitrary: seen) (auto simp: le_SucI)

lemma drop_from_unseen: "r \<in> set (drop_from seen key xs) \<Longrightarrow> key r \<notin> set seen"
proof (induction xs arbitrary: seen)
  case Nil
  then show ?case by simp
next
  case (Cons a xs)
  show ?case
  proof (cases "key a \<in> set seen")
    case True
    with Cons show ?thesis by simp
  next
    case False
    with Cons.prems have "r = a \<or> r \<in> set (drop_from (key a # seen) key xs)" by simp
    then show ?thesis using False Cons.IH[of "key a # seen"] by auto
  qed
qed

lemma drop_from_distinct: "distinct (map key (drop_from seen key xs))"
  by (induction xs arbitrary: seen) (auto dest: drop_from_unseen)

lemma drop_from_id:
  "distinct (map key xs) \<Longrightarrow> set (map key xs) \<inter> set seen = {} \<Longrightarrow> drop_from seen key xs = xs"
  by (induction xs arbitrary: seen) auto

lemma drop_duplicates_distinct: "distinct (map key (drop_duplicates key df))"
  by (simp add: drop_duplicates_def drop_from_distinct)

lemma drop_duplicates_length: "length (drop_duplicates key df) \<le> length df"
  by (simp add: drop_duplicates_def drop_from_length)

lemma drop_duplicates_subset: "set (drop_duplicates key df) \<subseteq> set df"
  by (simp add: drop_duplicates_def drop_from_subset)

lemma drop_duplicates_id: "distinct (map key df) \<Longrightarrow> drop_duplicates key df = df"
  by (simp add: drop_duplicates_def drop_from_id)

lemma drop_duplicates_Nil_iff: "drop_duplicates key df = [] \<longleftrightarrow> df = []"
  by (cases df) (simp_all add: drop_duplicates_def)

lemma assign_list_all2:
  "assign f xs = Inr ys \<Longrightarrow> list_all2 (\<lambda>x y. f x = Inr y) xs ys"
  by (induction xs arbitrary: ys) (auto split: sum.splits)

lemma assign_length: "assign f xs = Inr ys \<Longrightarrow> length ys = length xs"
  by (drule assign_list_all2) (rule list_all2_lengthD[symmetric])

lemma assign_id: "(\<And>x. x \<in> set xs \<Longrightarrow> f x = Inr x) \<Longrightarrow> assign f xs = Inr xs"
  by (induction xs) auto

lemma assign_map:
  "(\<And>x. x \<in> set xs \<Longrightarrow> f x = Inr (g x)) \<Longrightarrow> assign f xs = Inr (map g xs)"
  by (induction xs) auto

lemma astype_Int64_length: "astype_Int64 rd get put df = Inr out \<Longrightarrow> length out = length df"
  by (auto simp: astype_Int64_def dest: assign_length)

lemma to_Int64_numeric: "\<not> is_text c \<Longrightarrow> to_Int64 rd c = Inr c' \<Longrightarrow> c' = c"
  by (cases c) (auto split: if_splits)

lemma to_Int64_result: "to_Int64 rd c = Inr c' \<Longrightarrow> \<not> is_text c' \<and> to_Int64 rd' c' = Inr c'"
  by (cases c) (auto split: if_splits option.splits)

lemma and_then_Inr: "and_then m f = Inr y \<longleftrightarrow> (\<exists>x. m = Inr x \<and> f x = Inr y)"
  by (cases m) (auto simp: and_then_def)

lemma print_removed_Inr: "print_removed n df = Inr out \<longleftrightarrow> n \<noteq> 0 \<and> out = df"
  by (auto simp: print_removed_def)

subsection \<open>Text normalisation is idempotent\<close>

lemma of_char_char_of_small: "n < 256 \<Longrightarrow> (of_char (char_of (n::nat)) :: nat) = n"
  by simp

lemma toupper_props: "islower c \<Longrightarrow> isupper (toupper c) \<and> \<not> islower (toupper c) \<and> \<not> isspace (toupper c)"
  by (auto simp: islower_def isupper_def toupper_def isspace_def Let_def)

lemma tolower_props: "isupper c \<Longrightarrow> islower (tolower c) \<and> \<not> isupper (tolower c) \<and> \<not> isspace (tolower c)"
  by (auto simp: islower_def isupper_def tolower_def isspace_def Let_def)

lemma lower_not_upper: "islower c \<Longrightarrow> \<not> isupper c"
  by (auto simp: islower_def isupper_def Let_def)

lemma letters_not_space: "islower c \<or> isupper c \<Longrightarrow> \<not> isspace c"
  by (auto simp: islower_def isupper_def isspace_def Let_def)

lemma ascii_title_from_idem: "ascii_title_from p (ascii_title_from p s) = ascii_title_from p s"
  by (induction s arbitrary: p) (auto simp: toupper_props tolower_props lower_not_upper)

lemma title_idem: "ascii_title (ascii_title s) = ascii_title s"
  by (simp add: ascii_title_def ascii_title_from_idem)

lemma ascii_title_from_spaces: "map isspace (ascii_title_from p s) = map isspace s"
  by (induction s arbitrary: p) (auto simp: toupper_props tolower_props letters_not_space)



lemma trimmed_strip_id: "trimmed s \<Longrightarrow> strip s = s"
proof (cases "s = []")
  case True
  then show ?thesis by (simp add: strip_def lstrip_def rstrip_def)
next
  case False
  assume "trimmed s"
  with False have h: "\<not> isspace (hd s)" "\<not> isspace (last s)" by (simp_all add: trimmed_def)
  from h(1) False have "lstrip s = s" unfolding lstrip_def by (cases s) simp_all
  moreover from h(2) False have "dropWhile isspace (rev s) = rev s"
    by (cases "rev s") (simp_all add: hd_rev[symmetric])
  then have "rstrip s = s" by (simp add: rstrip_def)
  ultimately show "strip s = s" by (simp add: strip_def)
qed

lemma rstrip_prefix: "\<exists>w. t = rstrip t @ w"
proof -
  have "rev t = takeWhile isspace (rev t) @ dropWhile isspace (rev t)" by simp
  then have "rev (rev t) = rev (takeWhile isspace (rev t) @ dropWhile isspace (rev t))" by simp
  then have "t = rev (dropWhile isspace (rev t)) @ rev (takeWhile isspace (rev t))"
    by (simp only: rev_rev_ident rev_append)
  then show ?thesis unfolding rstrip_def by blast
qed

lemma trimmed_strip: "trimmed (strip s)"
proof (cases "strip s = []")
  case True
  then show ?thesis by (simp add: trimmed_def)
next
  case False
  define t where "t = lstrip s"
  have u: "strip s = rstrip t" by (simp add: strip_def t_def)
  from False u have tne: "t \<noteq> []" by (auto simp: rstrip_def)
  then have "\<not> isspace (hd t)" unfolding t_def lstrip_def by (metis hd_dropWhile)
  moreover obtain w where "t = rstrip t @ w" using rstrip_prefix by blast
  then have "hd t = hd (rstrip t)" using False u by (metis hd_append2)
  ultimately have a: "\<not> isspace (hd (strip s))" using u by simp
  from False u have "dropWhile isspace (rev t) \<noteq> []" by (simp add: rstrip_def)
  then have "\<not> isspace (hd (dropWhile isspace (rev t)))" by (rule hd_dropWhile)
  then have b: "\<not> isspace (last (strip s))" using u False
    by (simp add: rstrip_def last_rev)
  from a b show ?thesis by (simp add: trimmed_def)
qed

lemma strip_idem: "strip (strip s) = strip s"
  by (simp add: trimmed_strip trimmed_strip_id)

lemma trimmed_title: "trimmed s \<Longrightarrow> trimmed (ascii_title s)"
proof (cases "s = []")
  case True
  then show ?thesis by (simp add: ascii_title_def trimmed_def)
next
  case False
  assume t: "trimmed s"
  have m: "map isspace (ascii_title s) = map isspace s" by (simp add: ascii_title_def ascii_title_from_spaces)
  then have "length (ascii_title s) = length s" by (metis length_map)
  with False have ne: "ascii_title s \<noteq> []" by auto
  from m ne False have "isspace (hd (ascii_title s)) = isspace (hd s)" by (metis hd_map)
  moreover from m ne False have "isspace (last (ascii_title s)) = isspace (last s)" by (metis last_map)
  ultimately show ?thesis using t False ne by (simp add: trimmed_def)
qed

lemma title_strip_fixed: "strip (ascii_title (strip s)) = ascii_title (strip s)"
  by (simp add: trimmed_strip trimmed_title trimmed_strip_id)

lemma title_strip_idem: "ascii_title (strip (ascii_title (strip s))) = ascii_title (strip s)"
  by (simp add: title_strip_fixed title_idem)

lemma str_strip_idem: "str_strip (str_strip c) = str_strip c"
  by (cases c) (simp_all add: str_strip_def strip_idem)

lemma str_title_strip_idem:
  "title_text rd = ascii_title \<Longrightarrow>
   str_title rd (str_strip (str_title rd (str_strip c))) = str_title rd (str_strip c)"
  by (cases c) (simp_all add: str_strip_def str_title_def title_strip_idem)

lemma fillna_idem: "fillna d (fillna d c) = fillna d c"
  by (cases c) simp_all

lemma fillna_str_strip: "fillna d (str_strip (fillna d c)) = str_strip (fillna d c)"
  by (cases c) (simp_all add: str_strip_def)

lemma fillna_str_title:
  "fillna d (str_title rd (str_strip (fillna d c))) = str_title rd (str_strip (fillna d c))"
  by (cases c) (simp_all add: str_strip_def str_title_def)

lemma fillna_fixed_by_title:
  "str_title rd (str_strip c) = c \<Longrightarrow> c = fillna d c' \<Longrightarrow>
   str_title rd (str_strip (fillna d c)) = c"
  by (cases c') simp_all

lemma to_datetime_idem: "to_datetime rd' col' (to_datetime rd col c) = to_datetime rd col c"
  by (cases c) (simp_all split: option.splits)

lemma drop_runs_no_space_hd:
  "s = [] \<or> hd s \<noteq> CHR '' '' \<Longrightarrow> drop_runs s = [] \<or> hd (drop_runs s) \<noteq> CHR '' ''"
  by (cases s) auto

lemma drop_runs_idem: "drop_runs (drop_runs s) = drop_runs s"
proof (induction s rule: drop_runs.induct)
  case 1
  then show ?case by simp
next
  case (2 c s)
  show ?case
  proof (cases "c = CHR '' '' \<and> s \<noteq> [] \<and> hd s = CHR '' ''")
    case True
    then show ?thesis using 2(1) by simp
  next
    case False
    then have e: "drop_runs (c # s) = c # drop_runs s" by auto
    have ih: "drop_runs (drop_runs s) = drop_runs s" using 2(2) False by simp
    show ?thesis
    proof (cases "c = CHR '' ''")
      case True
      with False have "s = [] \<or> hd s \<noteq> CHR '' ''" by auto
      then have "drop_runs s = [] \<or> hd (drop_runs s) \<noteq> CHR '' ''" by (rule drop_runs_no_space_hd)
      then show ?thesis using e ih by auto
    next
      case False
      then show ?thesis using e ih by simp
    qed
  qed
qed

subsection \<open>Coercion of a key column\<close>

lemma astype_rows:
  "astype_Int64 rd get put df = Inr out \<Longrightarrow>
   list_all2 (\<lambda>r r'. \<exists>c. to_Int64 rd (get r) = Inr c \<and> r' = put r c) df out"
  unfolding astype_Int64_def
  by (drule assign_list_all2) (auto elim!: list_all2_mono split: sum.splits)

lemma astype_set:
  assumes "astype_Int64 rd get put df = Inr out" and "r' \<in> set out"
  shows "\<exists>r\<in>set df. \<exists>c. to_Int64 rd (get r) = Inr c \<and> r' = put r c"
proof -
  from assms(2) obtain i where i: "i < length out" "r' = out ! i" by (auto simp: in_set_conv_nth)
  from astype_rows[OF assms(1)] have l: "length df = length out"
    and a: "\<forall>i<length out. \<exists>c. to_Int64 rd (get (df ! i)) = Inr c \<and> out ! i = put (df ! i) c"
    by (auto simp: list_all2_conv_all_nth)
  from a i obtain c where "to_Int64 rd (get (df ! i)) = Inr c" "r' = put (df ! i) c" by auto
  moreover have "df ! i \<in> set df" using i l by simp
  ultimately show ?thesis by blast
qed

lemma astype_map_other:
  assumes "astype_Int64 rd get put df = Inr out" and "\<And>r c. h (put r c) = h r"
  shows "map h out = map h df"
proof -
  have "list_all2 (\<lambda>r r'. h r' = h r) df out"
    using astype_rows[OF assms(1)] by (auto elim!: list_all2_mono simp: assms(2))
  then show ?thesis by (induction rule: list_all2_induct) auto
qed

lemma astype_keys_numeric:
  assumes "astype_Int64 rd get put df = Inr out" and "\<And>r c. get (put r c) = c"
    and "\<forall>r\<in>set df. \<not> is_text (get r)"
  shows "map get out = map get df"
proof -
  have "list_all2 (\<lambda>r r'. \<exists>c. to_Int64 rd (get r) = Inr c \<and> r' = put r c) df out"
    by (rule astype_rows[OF assms(1)])
  then show ?thesis using assms(3)
    by (induction rule: list_all2_induct) (auto simp: assms(2) dest: to_Int64_numeric)
qed

lemma astype_id:
  assumes "\<forall>r\<in>set df. to_Int64 rd (get r) = Inr (get r)" and "\<And>r. put r (get r) = r"
  shows "astype_Int64 rd get put df = Inr df"
  unfolding astype_Int64_def using assms by (intro assign_id) simp


subsection \<open>The cleaning functions in their shared shape\<close>

lemma and_then_assoc: "and_then (and_then m f) g = and_then m (\<lambda>x. and_then (f x) g)"
  by (cases m) (simp_all add: and_then_def)

lemma and_then_Inr_right: "and_then m Inr = m"
  by (cases m) (simp_all add: and_then_def)

lemma clean_users_normal:
  "clean_users rd df =
     and_then (cleaned_by u_email (users_keep rd) (users_row rd) (users_coerce rd) df)
       (print_removed (length df))"
  unfolding clean_users_def Let_def cleaned_by_def users_coerce_def
  by (rule arg_cong2[where f = and_then, OF arg_cong[where f = "astype_Int64 _ _ _"] refl])
     (simp add: filter_map o_def users_row_def[abs_def] users_keep_def[abs_def]
        conj_commute conj_left_commute cong: conj_cong)

lemma clean_products_normal:
  "clean_products rd df =
     and_then (cleaned_by p_id products_keep (products_row rd) (products_coerce rd) df)
       (print_removed (length df))"
  unfolding clean_products_def Let_def cleaned_by_def products_coerce_def
  by (rule arg_cong2[where f = and_then, OF arg_cong[where f = "astype_Int64 _ _ _"] refl])
     (simp add: filter_map o_def products_row_def[abs_def] products_keep_def[abs_def]
        conj_commute conj_left_commute cong: conj_cong)

lemma orders_stages:
  "filter delivered_after_shipped (filter shipped_after_created
     (filter (\<lambda>r. isin_text (o_status r) orders_valid_statuses)
       (map (orders_to_datetime rd) xs))) =
   map (orders_to_datetime rd) (filter (orders_keep rd) xs)"
  by (simp add: filter_map o_def orders_keep_def[abs_def] orders_to_datetime_def
        conj_commute conj_left_commute cong: conj_cong)

lemma clean_orders_normal:
  "clean_orders rd df =
     and_then (cleaned_by o_order_id (orders_keep rd) (orders_to_datetime rd) (orders_coerce rd) df)
       (print_removed (length df))"
  unfolding clean_orders_def Let_def cleaned_by_def orders_coerce_def orders_stages
  by (simp add: and_then_assoc)

lemma order_items_stages:
  "filter (\<lambda>r. isin_text (oi_status r) order_items_valid_statuses)
     (map (order_items_to_datetime rd) (filter (\<lambda>r. ge_const (oi_sale_price r) 0) xs)) =
   map (order_items_to_datetime rd) (filter order_items_keep xs)"
  by (simp add: filter_map o_def order_items_keep_def[abs_def] order_items_to_datetime_def
        conj_commute conj_left_commute cong: conj_cong)

lemma clean_order_items_normal:
  "clean_order_items rd df =
     and_then (cleaned_by oi_id order_items_keep (order_items_to_datetime rd)
                 (order_items_coerce rd) df)
       (print_removed (length df))"
  unfolding clean_order_items_def Let_def cleaned_by_def order_items_coerce_def order_items_stages
  by (simp add: and_then_assoc)

lemma inventory_items_stages:
  "map (\<lambda>r. r\<lparr>inv_product_brand := fillna ''Generic'' (inv_product_brand r)\<rparr>)
     (map (\<lambda>r. r\<lparr>inv_product_name := fillna ''Unknown Product'' (inv_product_name r)\<rparr>)
       (filter (\<lambda>r. ts_isna (inv_sold_at r) \<or> ts_ge (inv_sold_at r) (inv_created_at r))
         (map (\<lambda>r. r\<lparr>inv_sold_at := to_datetime rd ''sold_at'' (inv_sold_at r)\<rparr>)
           (map (\<lambda>r. r\<lparr>inv_created_at := to_datetime rd ''created_at'' (inv_created_at r)\<rparr>)
             (filter (\<lambda>r. ge_const (inv_product_retail_price r) 0)
               (filter (\<lambda>r. ge_const (inv_cost r) 0) xs)))))) =
   map (inventory_items_row rd) (filter (inventory_items_keep rd) xs)"
  by (simp add: filter_map o_def inventory_items_keep_def[abs_def] inventory_items_row_def[abs_def]
        conj_commute conj_left_commute cong: conj_cong)

lemma clean_inventory_items_normal:
  "clean_inventory_items rd df =
     and_then (cleaned_by inv_id (inventory_items_keep rd) (inventory_items_row rd)
                 (inventory_items_coerce rd) df)
       (print_removed (length df))"
  unfolding clean_inventory_items_def Let_def cleaned_by_def inventory_items_coerce_def
    inventory_items_stages
  by (simp add: and_then_assoc)

lemma events_stages:
  "map (\<lambda>r. r\<lparr>e_city := fillna ''Unknown'' (e_city r)\<rparr>)
     (filter (\<lambda>r. \<not> ts_isna (e_created_at r))
       (map (\<lambda>r. r\<lparr>e_created_at := to_datetime rd ''created_at'' (e_created_at r)\<rparr>) xs)) =
   map (events_row rd) (filter (events_keep rd) xs)"
  by (simp add: filter_map o_def events_keep_def[abs_def] events_row_def[abs_def])

lemma clean_events_normal:
  "clean_events rd df =
     and_then (cleaned_by e_id (events_keep rd) (events_row rd) (events_coerce rd) df)
       (print_removed (length df))"
  unfolding clean_events_def Let_def cleaned_by_def events_coerce_def events_stages
  by (simp add: and_then_def split: sum.splits)

lemma clean_distribution_centers_normal:
  "clean_distribution_centers rd df =
     cleaned_by dc_id (\<lambda>r. True) distribution_centers_row (distribution_centers_coerce rd) df"
  unfolding clean_distribution_centers_def Let_def cleaned_by_def distribution_centers_coerce_def
  by (simp add: distribution_centers_row_def[abs_def])

subsection \<open>Orders: the date rules\<close>

lemma cleaned_by_set:
  assumes "cleaned_by key keep rewrite coerce df = Inr out"
  shows "coerce (map rewrite (filter keep (drop_duplicates key df))) = Inr out"
  using assms by (simp add: cleaned_by_def)

lemma orders_coerce_rows:
  assumes "orders_coerce rd xs = Inr out"
  shows "list_all2 (\<lambda>r r'. \<exists>c1 c2. to_Int64 rd (o_order_id r) = Inr c1 \<and>
            to_Int64 rd (o_user_id r) = Inr c2 \<and> r' = r\<lparr>o_order_id := c1, o_user_id := c2\<rparr>) xs out"
proof -
  from assms obtain mid where
    m1: "astype_Int64 rd o_order_id (\<lambda>r c. r\<lparr>o_order_id := c\<rparr>) xs = Inr mid" and
    m2: "astype_Int64 rd o_user_id (\<lambda>r c. r\<lparr>o_user_id := c\<rparr>) mid = Inr out"
    by (auto simp: orders_coerce_def and_then_Inr)
  show ?thesis
    by (rule list_all2_trans[OF _ astype_rows[OF m1] astype_rows[OF m2]]) auto
qed

lemma list_all2_in_right:
  "list_all2 P xs ys \<Longrightarrow> y \<in> set ys \<Longrightarrow> \<exists>x\<in>set xs. P x y"
  by (auto simp: list_all2_conv_all_nth in_set_conv_nth) (metis nth_mem)

lemma list_all2_in_left:
  "list_all2 P xs ys \<Longrightarrow> x \<in> set xs \<Longrightarrow> \<exists>y\<in>set ys. P x y"
  by (auto simp: list_all2_conv_all_nth in_set_conv_nth) (metis nth_mem)

lemma clean_orders_rows:
  assumes "clean_orders rd df = Inr out"
  shows "list_all2 (\<lambda>r r'. \<exists>c1 c2. r' = (orders_to_datetime rd r)\<lparr>o_order_id := c1, o_user_id := c2\<rparr>)
           (filter (orders_keep rd) (drop_duplicates o_order_id df)) out"
proof -
  from assms have "orders_coerce rd (map (orders_to_datetime rd)
      (filter (orders_keep rd) (drop_duplicates o_order_id df))) = Inr out"
    by (auto simp: clean_orders_normal and_then_Inr print_removed_Inr cleaned_by_def)
  from orders_coerce_rows[OF this] show ?thesis
    by (simp add: list_all2_map1) (erule list_all2_mono, auto)
qed

lemma orders_keep_cong:
  "r'\<lparr>o_order_id := a, o_user_id := b\<rparr> = orders_to_datetime rd r \<Longrightarrow>
   r' = (orders_to_datetime rd r2)\<lparr>o_order_id := c1, o_user_id := c2\<rparr> \<Longrightarrow>
   orders_keep rd r = orders_keep rd r2"
proof -
  assume a: "r'\<lparr>o_order_id := a, o_user_id := b\<rparr> = orders_to_datetime rd r"
    and b: "r' = (orders_to_datetime rd r2)\<lparr>o_order_id := c1, o_user_id := c2\<rparr>"
  let ?x = "orders_to_datetime rd r" and ?y = "orders_to_datetime rd r2"
  from a b have e: "?x = ?y\<lparr>o_order_id := a, o_user_id := b\<rparr>" by simp
  have s: "o_status r = o_status r2"
    using arg_cong[OF e, of o_status] by (simp add: orders_to_datetime_def)
  have "shipped_after_created ?x = shipped_after_created ?y"
    "delivered_after_shipped ?x = delivered_after_shipped ?y"
    by (subst e, simp add: shipped_after_created_def delivered_after_shipped_def)+
  with s show ?thesis by (simp add: orders_keep_def)
qed

lemma orders_retained_iff:
  assumes "clean_orders rd df = Inr out" and "r \<in> set (drop_duplicates o_order_id df)"
  shows "orders_retained rd r out \<longleftrightarrow> orders_keep rd r"
proof
  assume "orders_retained rd r out"
  then obtain r' where r': "r' \<in> set out"
    "r'\<lparr>o_order_id := o_order_id r, o_user_id := o_user_id r\<rparr> = orders_to_datetime rd r"
    by (auto simp: orders_retained_def)
  from list_all2_in_right[OF clean_orders_rows[OF assms(1)] r'(1)]
  obtain r2 c1 c2 where "orders_keep rd r2"
    "r' = (orders_to_datetime rd r2)\<lparr>o_order_id := c1, o_user_id := c2\<rparr>" by auto
  with orders_keep_cong[OF r'(2)] show "orders_keep rd r" by blast
next
  assume "orders_keep rd r"
  with assms(2) have "r \<in> set (filter (orders_keep rd) (drop_duplicates o_order_id df))" by simp
  from list_all2_in_left[OF clean_orders_rows[OF assms(1)] this]
  obtain r' c1 c2 where "r' \<in> set out"
    "r' = (orders_to_datetime rd r)\<lparr>o_order_id := c1, o_user_id := c2\<rparr>" by auto
  then show "orders_retained rd r out"
    by (auto simp: orders_retained_def orders_to_datetime_def intro!: bexI[of _ r'])
qed


text \<open>
  C8.  For every row of the orders frame that is the first one with its \<open>order_id\<close>:
  when \<open>shipped_at\<close> and \<open>created_at\<close> both parse to timestamps and \<open>shipped_at\<close> is the
  earlier one, cleaning drops the row; likewise when \<open>delivered_at\<close> and \<open>shipped_at\<close>
  both parse and \<open>delivered_at\<close> is the earlier one; and when \<open>shipped_at\<close> is null (or
  does not parse) the date rules keep the row whatever \<open>created_at\<close> is, so that a row
  with a valid status is retained.
\<close>

theorem orders_date_rules:
  assumes "clean_orders rd df = Inr out" and "r \<in> set (drop_duplicates o_order_id df)"
  shows "(\<forall>s c. to_datetime rd ''shipped_at'' (o_shipped_at r) = Stamp s \<longrightarrow>
                to_datetime rd ''created_at'' (o_created_at r) = Stamp c \<longrightarrow>
                s < c \<longrightarrow> \<not> orders_retained rd r out) \<and>
         (\<forall>d s. to_datetime rd ''delivered_at'' (o_delivered_at r) = Stamp d \<longrightarrow>
                to_datetime rd ''shipped_at'' (o_shipped_at r) = Stamp s \<longrightarrow>
                d < s \<longrightarrow> \<not> orders_retained rd r out) \<and>
         (to_datetime rd ''shipped_at'' (o_shipped_at r) = NaT \<longrightarrow>
            isin_text (o_status r) orders_valid_statuses \<longrightarrow> orders_retained rd r out)"
  unfolding orders_retained_iff[OF assms]
  by (auto simp: orders_keep_def shipped_after_created_def delivered_after_shipped_def
        orders_to_datetime_def)

theorem orders_date_rules_witness:
  "clean_orders reads_nothing [order_shipped_early, order_not_shipped, order_delivered_early]
     = Inr [order_not_shipped] \<and>
   \<not> orders_retained reads_nothing order_shipped_early [order_not_shipped] \<and>
   \<not> orders_retained reads_nothing order_delivered_early [order_not_shipped] \<and>
   orders_retained reads_nothing order_not_shipped [order_not_shipped]"
proof -
  let ?df = "[order_shipped_early, order_not_shipped, order_delivered_early]"
  have e: "clean_orders reads_nothing ?df = Inr [order_not_shipped]"
    by (simp add: clean_orders_def drop_duplicates_def astype_Int64_def and_then_def
          print_removed_def orders_to_datetime_def shipped_after_created_def
          delivered_after_shipped_def orders_valid_statuses_def reads_nothing_def is_integer_def
          order_shipped_early_def order_not_shipped_def order_delivered_early_def)
  have d: "drop_duplicates o_order_id ?df = ?df"
    by (simp add: drop_duplicates_def
          order_shipped_early_def order_not_shipped_def order_delivered_early_def)
  have m: "order_shipped_early \<in> set (drop_duplicates o_order_id ?df)"
    "order_not_shipped \<in> set (drop_duplicates o_order_id ?df)"
    "order_delivered_early \<in> set (drop_duplicates o_order_id ?df)"
    unfolding d by simp_all
  have "\<not> orders_retained reads_nothing order_shipped_early [order_not_shipped]"
    using orders_date_rules[OF e m(1)]
    by (simp add: order_shipped_early_def)
  moreover have "\<not> orders_retained reads_nothing order_delivered_early [order_not_shipped]"
    using orders_date_rules[OF e m(3)]
    by (simp add: order_delivered_early_def)
  moreover have "orders_retained reads_nothing order_not_shipped [order_not_shipped]"
    using orders_date_rules[OF e m(2)]
    by (simp add: order_not_shipped_def orders_valid_statuses_def)
  ultimately show ?thesis using e by simp
qed

subsection \<open>Referential integrity: order items and events\<close>

lemma ri_events_users_other_files:
  "order_items_cleaned (ri_events_users st) = order_items_cleaned st"
  "oi_missing_orders (ri_events_users st) = oi_missing_orders st"
  "oi_missing_products (ri_events_users st) = oi_missing_products st"
  "orders_cleaned (ri_events_users st) = orders_cleaned st"
  "products_cleaned (ri_events_users st) = products_cleaned st"
  "users_cleaned (ri_events_users st) = users_cleaned st"
  "orphan_orders (ri_events_users st) = orphan_orders st"
  by (simp_all add: ri_events_users_def Let_def split: option.splits)

text \<open>
  C4.  When the block for the order items runs, on the orders table as the orders check
  has left it (\<open>orders_df\<close>), the cleaned products table (\<open>prods_df\<close>) and the order
  items (\<open>oitems_df\<close>): the order items written back are exactly the rows whose
  \<open>order_id\<close> is among the order ids and whose \<open>product_id\<close> is among the product ids;
  every row that fails the order check has its record in \<open>oi_missing_orders.csv\<close>, every
  row that fails the product check has its record in \<open>oi_missing_products.csv\<close>, and a row
  that fails both has a record in both.
\<close>

theorem order_items_retained_iff_both_parents:
  assumes "orders_cleaned st = Some orders_df"
    and "products_cleaned st = Some prods_df"
    and "order_items_cleaned st = Some oitems_df"
  shows "order_items_cleaned (ri_order_items st) =
           Some (filter (\<lambda>r. oi_order_id r \<in> set (map o_order_id orders_df) \<and>
                             oi_product_id r \<in> set (map p_id prods_df)) oitems_df) \<and>
         (\<forall>r\<in>set oitems_df. oi_order_id r \<notin> set (map o_order_id orders_df) \<longrightarrow>
            (\<exists>vs. oi_missing_orders (ri_order_items st) = Some vs \<and>
                  (oi_id r, oi_order_id r, oi_product_id r) \<in> set vs)) \<and>
         (\<forall>r\<in>set oitems_df. oi_product_id r \<notin> set (map p_id prods_df) \<longrightarrow>
            (\<exists>vs. oi_missing_products (ri_order_items st) = Some vs \<and>
                  (oi_id r, oi_order_id r, oi_product_id r) \<in> set vs))"
proof (intro conjI ballI impI)
  show "order_items_cleaned (ri_order_items st) =
           Some (filter (\<lambda>r. oi_order_id r \<in> set (map o_order_id orders_df) \<and>
                             oi_product_id r \<in> set (map p_id prods_df)) oitems_df)"
    using assms by (simp add: ri_order_items_def Let_def isin_def ri_events_users_other_files)
next
  fix r assume r: "r \<in> set oitems_df" "oi_order_id r \<notin> set (map o_order_id orders_df)"
  then have "filter (\<lambda>r. oi_order_id r \<notin> set (map o_order_id orders_df)) oitems_df \<noteq> []"
    by (auto simp: filter_empty_conv)
  with r assms show "\<exists>vs. oi_missing_orders (ri_order_items st) = Some vs \<and>
                  (oi_id r, oi_order_id r, oi_product_id r) \<in> set vs"
    by (force simp: ri_order_items_def Let_def isin_def ri_events_users_other_files)
next
  fix r assume r: "r \<in> set oitems_df" "oi_product_id r \<notin> set (map p_id prods_df)"
  then have "filter (\<lambda>r. oi_product_id r \<notin> set (map p_id prods_df)) oitems_df \<noteq> []"
    by (auto simp: filter_empty_conv)
  with r assms show "\<exists>vs. oi_missing_products (ri_order_items st) = Some vs \<and>
                  (oi_id r, oi_order_id r, oi_product_id r) \<in> set vs"
    by (force simp: ri_order_items_def Let_def isin_def ri_events_users_other_files)
qed

theorem order_items_retained_iff_both_parents_witness:
  "order_items_cleaned (ri_order_items disk_with_order_items) = Some [order_item 1 100 7] \<and>
   (\<exists>vs. oi_missing_orders (ri_order_items disk_with_order_items) = Some vs \<and>
         (Num 2, Num 999, Num 7) \<in> set vs \<and> (Num 4, Num 999, Num 8) \<in> set vs) \<and>
   (\<exists>vs. oi_missing_products (ri_order_items disk_with_order_items) = Some vs \<and>
         (Num 3, Num 100, Num 8) \<in> set vs \<and> (Num 4, Num 999, Num 8) \<in> set vs)"
proof -
  have a: "orders_cleaned disk_with_order_items = Some [order_of_user_1]"
    "products_cleaned disk_with_order_items = Some [product_7]"
    "order_items_cleaned disk_with_order_items =
       Some [order_item 1 100 7, order_item 2 999 7, order_item 3 100 8, order_item 4 999 8]"
    by (simp_all add: disk_with_order_items_def empty_disk_def)
  from order_items_retained_iff_both_parents[OF a] show ?thesis
    by (auto simp: order_item_def order_of_user_1_def product_7_def)
qed

lemma isin_valid_ids:
  "(cell_isna c \<or> isin c (remdups (filter (\<lambda>c. \<not> cell_isna c) ids))) =
   (c = NA \<or> c \<in> set ids)"
  by (cases c) (auto simp: isin_def)

lemma not_isin_valid_ids:
  "(\<not> cell_isna c \<and> \<not> isin c (remdups (filter (\<lambda>c. \<not> cell_isna c) ids))) =
   (c \<noteq> NA \<and> c \<notin> set ids)"
  by (cases c) (auto simp: isin_def)

text \<open>
  C5.  When the block for the events runs, an events row is retained if and only if its
  \<open>user_id\<close> is null or is among the ids of the cleaned users table; every rejected row
  has a record in \<open>orphan_events.csv\<close> that carries its \<open>id\<close> and \<open>user_id\<close> (and its
  \<open>created_at\<close>).
\<close>

theorem events_retained_iff_null_or_known_user:
  assumes "users_cleaned st = Some users_df" and "events_cleaned st = Some events_df"
  shows "events_cleaned (ri_events_users st) =
           Some (filter (\<lambda>r. e_user_id r = NA \<or> e_user_id r \<in> set (map u_id users_df)) events_df) \<and>
         (\<forall>r\<in>set events_df.
            \<not> (e_user_id r = NA \<or> e_user_id r \<in> set (map u_id users_df)) \<longrightarrow>
            (\<exists>vs. orphan_events (ri_events_users st) = Some vs \<and>
                  (e_id r, e_user_id r, e_created_at r) \<in> set vs))"
proof (intro conjI ballI impI)
  show "events_cleaned (ri_events_users st) =
           Some (filter (\<lambda>r. e_user_id r = NA \<or> e_user_id r \<in> set (map u_id users_df)) events_df)"
    using assms by (simp add: ri_events_users_def Let_def isin_valid_ids)
next
  fix r assume r: "r \<in> set events_df"
    "\<not> (e_user_id r = NA \<or> e_user_id r \<in> set (map u_id users_df))"
  then have "filter (\<lambda>r. \<not> (e_user_id r = NA \<or> e_user_id r \<in> set (map u_id users_df))) events_df \<noteq> []"
    by (auto simp: filter_empty_conv)
  with r assms show "\<exists>vs. orphan_events (ri_events_users st) = Some vs \<and>
                  (e_id r, e_user_id r, e_created_at r) \<in> set vs"
    by (force simp: ri_events_users_def Let_def isin_valid_ids not_isin_valid_ids)
qed


theorem events_retained_iff_null_or_known_user_witness:
  "events_cleaned (ri_events_users disk_with_events) = Some [event 1 (Num 1), event 2 NA] \<and>
   (\<exists>vs. orphan_events (ri_events_users disk_with_events) = Some vs \<and>
         (Num 3, Num 2, Stamp 40) \<in> set vs)"
proof -
  have a: "users_cleaned disk_with_events = Some [user_1]"
    "events_cleaned disk_with_events = Some [event 1 (Num 1), event 2 NA, event 3 (Num 2)]"
    by (simp_all add: disk_with_events_def empty_disk_def)
  from events_retained_iff_null_or_known_user[OF a] show ?thesis
    by (auto simp: event_def user_1_def)
qed

subsection \<open>Referential integrity: which checks run\<close>

text \<open>
  C3, as stated, fails.  In a run with the raw orders and order items only, both tables
  of the check of \<open>order_items.order_id\<close> against the orders are present, and the check is
  skipped because the products file is missing: the item of the missing order stays and
  no violations file is written.  In a run with the raw users and events only, the check
  of \<open>events.user_id\<close> against the users is skipped as well, because its block is written
  inside the block for the order items: the event of the missing user stays.
\<close>

theorem ri_check_skipped_though_both_tables_present:
  "snd (main reads_nothing raw_orders_and_items empty_disk) = None \<and>
   orders_cleaned (fst (main reads_nothing raw_orders_and_items empty_disk)) =
     Some [order_of_user_1] \<and>
   order_items_cleaned (fst (main reads_nothing raw_orders_and_items empty_disk)) =
     Some [order_item 1 100 7, order_item 2 999 7] \<and>
   oi_missing_orders (fst (main reads_nothing raw_orders_and_items empty_disk)) = None \<and>
   snd (main reads_nothing raw_users_and_events empty_disk) = None \<and>
   users_cleaned (fst (main reads_nothing raw_users_and_events empty_disk)) = Some [user_1] \<and>
   events_cleaned (fst (main reads_nothing raw_users_and_events empty_disk)) =
     Some [event 1 (Num 1), event 2 NA, event 3 (Num 2)] \<and>
   orphan_events (fst (main reads_nothing raw_users_and_events empty_disk)) = None"
  by code_simp

lemma ri_orders_users_other_files:
  "order_items_cleaned (ri_orders_users st) = order_items_cleaned st"
  "oi_missing_orders (ri_orders_users st) = oi_missing_orders st"
  "oi_missing_products (ri_orders_users st) = oi_missing_products st"
  "products_cleaned (ri_orders_users st) = products_cleaned st"
  "users_cleaned (ri_orders_users st) = users_cleaned st"
  "events_cleaned (ri_orders_users st) = events_cleaned st"
  "orphan_events (ri_orders_users st) = orphan_events st"
  by (simp_all add: ri_orders_users_def Let_def split: option.splits)

lemma ri_orders_users_skipped:
  "users_cleaned st = None \<or> orders_cleaned st = None \<Longrightarrow> ri_orders_users st = st"
  by (auto simp: ri_orders_users_def split: option.splits)

lemma ri_orders_users_evaluated:
  "users_cleaned st = Some u \<Longrightarrow> orders_cleaned st = Some os \<Longrightarrow>
   orders_cleaned (ri_orders_users st) = Some (filter (\<lambda>r. o_user_id r \<in> set (map u_id u)) os)"
  by (simp add: ri_orders_users_def Let_def isin_def)

lemma ri_order_items_skipped:
  "orders_cleaned st = None \<or> products_cleaned st = None \<or> order_items_cleaned st = None \<Longrightarrow>
   ri_order_items st = st"
  by (auto simp: ri_order_items_def split: option.splits)

lemma ri_order_items_other_files:
  "orders_cleaned (ri_order_items st) = orders_cleaned st"
  "orphan_orders (ri_order_items st) = orphan_orders st"
  "users_cleaned (ri_order_items st) = users_cleaned st"
  "products_cleaned (ri_order_items st) = products_cleaned st"
  by (simp_all add: ri_order_items_def Let_def ri_events_users_other_files split: option.splits)

lemma order_items_file_after:
  assumes "orders_cleaned st = Some orders_df"
    and "products_cleaned st = Some prods_df"
    and "order_items_cleaned st = Some oitems_df"
  shows "order_items_cleaned (ri_order_items st) =
           Some (filter (\<lambda>r. oi_order_id r \<in> set (map o_order_id orders_df) \<and>
                             oi_product_id r \<in> set (map p_id prods_df)) oitems_df)"
  using assms by (simp add: ri_order_items_def Let_def isin_def ri_events_users_other_files)

lemma ri_events_users_skipped:
  "users_cleaned st = None \<or> events_cleaned st = None \<Longrightarrow> ri_events_users st = st"
  by (auto simp: ri_events_users_def split: option.splits)

lemma ri_order_items_events_skipped:
  assumes "users_cleaned st = None \<or> events_cleaned st = None"
  shows "events_cleaned (ri_order_items st) = events_cleaned st \<and>
         orphan_events (ri_order_items st) = orphan_events st"
proof (cases "orders_cleaned st = None \<or> products_cleaned st = None \<or> order_items_cleaned st = None")
  case True
  then show ?thesis by (simp add: ri_order_items_skipped)
next
  case False
  then obtain os p oi where "orders_cleaned st = Some os" "products_cleaned st = Some p"
    "order_items_cleaned st = Some oi" by auto
  then show ?thesis using assms
    by (auto simp: ri_order_items_def Let_def ri_events_users_skipped)
qed

text \<open>
  C3, amended.  A check is skipped whenever one of its own two tables is missing.  The
  check of the orders against the users is evaluated exactly when the users file and the
  orders file both exist.  The two checks of the order items, against the orders as the
  first check has left them and against the products, are evaluated together, exactly
  when the orders, products and order items files all exist.  Nothing is said about when
  the check of the events is evaluated beyond its being skipped when the users file or
  the events file is missing.
\<close>

theorem ri_checks_evaluated_when:
  fixes st :: state
  defines "st' \<equiv> ri_order_items (ri_orders_users st)"
  shows "(users_cleaned st = None \<or> orders_cleaned st = None \<longrightarrow>
            orders_cleaned st' = orders_cleaned st \<and> orphan_orders st' = orphan_orders st) \<and>
         (\<forall>u os. users_cleaned st = Some u \<and> orders_cleaned st = Some os \<longrightarrow>
            orders_cleaned st' = Some (filter (\<lambda>r. o_user_id r \<in> set (map u_id u)) os)) \<and>
         (orders_cleaned st = None \<or> products_cleaned st = None \<or> order_items_cleaned st = None \<longrightarrow>
            order_items_cleaned st' = order_items_cleaned st \<and>
            oi_missing_orders st' = oi_missing_orders st \<and>
            oi_missing_products st' = oi_missing_products st) \<and>
         (\<forall>os p oi. orders_cleaned st' = Some os \<and> products_cleaned st = Some p \<and>
                   order_items_cleaned st = Some oi \<longrightarrow>
            order_items_cleaned st' =
              Some (filter (\<lambda>r. oi_order_id r \<in> set (map o_order_id os) \<and>
                                oi_product_id r \<in> set (map p_id p)) oi)) \<and>
         (users_cleaned st = None \<or> events_cleaned st = None \<longrightarrow>
            events_cleaned st' = events_cleaned st \<and> orphan_events st' = orphan_events st)"
proof (intro conjI allI impI)
  assume a: "users_cleaned st = None \<or> orders_cleaned st = None"
  show "orders_cleaned st' = orders_cleaned st" "orphan_orders st' = orphan_orders st"
    unfolding st'_def using a by (simp_all add: ri_order_items_other_files ri_orders_users_skipped)
next
  fix u os assume "users_cleaned st = Some u \<and> orders_cleaned st = Some os"
  then show "orders_cleaned st' = Some (filter (\<lambda>r. o_user_id r \<in> set (map u_id u)) os)"
    unfolding st'_def by (simp add: ri_order_items_other_files ri_orders_users_evaluated)
next
  assume a: "orders_cleaned st = None \<or> products_cleaned st = None \<or> order_items_cleaned st = None"
  have "orders_cleaned (ri_orders_users st) = None \<or> products_cleaned (ri_orders_users st) = None \<or>
        order_items_cleaned (ri_orders_users st) = None"
    using a by (auto simp: ri_orders_users_other_files ri_orders_users_def Let_def split: option.splits)
  then have "st' = ri_orders_users st" unfolding st'_def by (rule ri_order_items_skipped)
  then show "order_items_cleaned st' = order_items_cleaned st"
    "oi_missing_orders st' = oi_missing_orders st"
    "oi_missing_products st' = oi_missing_products st"
    by (simp_all add: ri_orders_users_other_files)
next
  fix os p oi
  assume a: "orders_cleaned st' = Some os \<and> products_cleaned st = Some p \<and>
             order_items_cleaned st = Some oi"
  then have "orders_cleaned (ri_orders_users st) = Some os"
    "products_cleaned (ri_orders_users st) = Some p"
    "order_items_cleaned (ri_orders_users st) = Some oi"
    unfolding st'_def by (simp_all add: ri_order_items_other_files ri_orders_users_other_files)
  from order_items_file_after[OF this]
  show "order_items_cleaned st' =
              Some (filter (\<lambda>r. oi_order_id r \<in> set (map o_order_id os) \<and>
                                oi_product_id r \<in> set (map p_id p)) oi)"
    unfolding st'_def .
next
  assume a: "users_cleaned st = None \<or> events_cleaned st = None"
  then have "users_cleaned (ri_orders_users st) = None \<or> events_cleaned (ri_orders_users st) = None"
    by (simp add: ri_orders_users_other_files)
  from ri_order_items_events_skipped[OF this]
  show "events_cleaned st' = events_cleaned st" "orphan_events st' = orphan_events st"
    unfolding st'_def by (simp_all add: ri_orders_users_other_files)
qed

theorem ri_checks_evaluated_when_witness:
  "users_cleaned disk_with_order_items = None \<and>
   orders_cleaned (ri_order_items (ri_orders_users disk_with_order_items)) =
     Some [order_of_user_1] \<and>
   order_items_cleaned (ri_order_items (ri_orders_users disk_with_order_items)) =
     Some [order_item 1 100 7] \<and>
   events_cleaned (ri_order_items (ri_orders_users disk_with_order_items)) = None \<and>
   products_cleaned disk_without_products = None \<and>
   orders_cleaned (ri_order_items (ri_orders_users disk_without_products)) =
     Some [order_of_user_1] \<and>
   order_items_cleaned (ri_order_items (ri_orders_users disk_without_products)) =
     Some [order_item 2 101 7]"
  using ri_checks_evaluated_when[of disk_with_order_items]
    ri_checks_evaluated_when[of disk_without_products]
  by (simp add: disk_with_order_items_def disk_without_products_def empty_disk_def
        order_item_def order_of_user_1_def order_of_nobody_def product_7_def user_1_def)

subsection \<open>Properties of the shared shape\<close>

lemma list_all2_same_map: "list_all2 (\<lambda>x y. g y = f x) xs ys \<Longrightarrow> map g ys = map f xs"
  by (induction rule: list_all2_induct) auto

lemma cleaned_by_length:
  assumes "cleaned_by key keep rewrite coerce df = Inr out"
    and "\<And>xs ys. coerce xs = Inr ys \<Longrightarrow> length ys = length xs"
  shows "length out \<le> length df"
proof -
  from assms have "length out = length (filter keep (drop_duplicates key df))"
    by (auto simp: cleaned_by_def dest!: assms(2))
  also have "\<dots> \<le> length (drop_duplicates key df)" by (rule length_filter_le)
  also have "\<dots> \<le> length df" by (rule drop_duplicates_length)
  finally show ?thesis .
qed

lemma cleaned_by_distinct:
  assumes "cleaned_by key keep rewrite coerce df = Inr out"
    and "\<And>r. key (rewrite r) = key r"
    and "\<And>xs ys. coerce xs = Inr ys \<Longrightarrow> \<forall>r\<in>set xs. ok (key r) \<Longrightarrow> map key ys = map key xs"
    and "\<forall>r\<in>set df. ok (key r)"
  shows "distinct (map key out)"
proof -
  let ?pre = "map rewrite (filter keep (drop_duplicates key df))"
  have c: "coerce ?pre = Inr out" using assms(1) by (simp add: cleaned_by_def)
  have "\<forall>r\<in>set ?pre. ok (key r)"
    using assms(4) drop_duplicates_subset[of key df] by (auto simp: assms(2))
  from assms(3)[OF c this] have "map key out = map key (filter keep (drop_duplicates key df))"
    by (simp add: assms(2) o_def)
  then show ?thesis
    by (simp add: distinct_map_filter drop_duplicates_distinct)
qed

lemma cleaned_by_idem:
  assumes "distinct (map key out)"
    and "\<And>r. r \<in> set out \<Longrightarrow> keep r \<and> rewrite r = r"
    and "coerce out = Inr out"
  shows "cleaned_by key keep rewrite coerce out = Inr out"
proof -
  have "drop_duplicates key out = out" using assms(1) by (rule drop_duplicates_id)
  moreover have "filter keep out = out" using assms(2) by (simp add: filter_id_conv)
  moreover have "map rewrite out = out" using assms(2) by (simp add: map_idI)
  ultimately show ?thesis using assms(3) by (simp add: cleaned_by_def)
qed

lemma cleaned_by_rows:
  assumes "cleaned_by key keep rewrite coerce df = Inr out"
    and "\<And>xs ys. coerce xs = Inr ys \<Longrightarrow> list_all2 P xs ys"
    and "r' \<in> set out"
  shows "\<exists>r\<in>set df. keep r \<and> P (rewrite r) r'"
proof -
  have "list_all2 P (map rewrite (filter keep (drop_duplicates key df))) out"
    using assms(1,2) by (simp add: cleaned_by_def)
  from list_all2_in_right[OF this assms(3)] show ?thesis
    using drop_duplicates_subset[of key df] by auto
qed

lemma to_Int64_stable: "to_Int64 rd c = Inr c' \<Longrightarrow> to_Int64 rd' c' = Inr c'"
  by (simp add: to_Int64_result)

subsection \<open>\<open>clean_users\<close>: row count, unique emails, fixed point\<close>

lemma users_coerce_rows:
  "users_coerce rd xs = Inr ys \<Longrightarrow>
   list_all2 (\<lambda>r r'. \<exists>c. to_Int64 rd (u_id r) = Inr c \<and> r' = r\<lparr>u_id := c\<rparr>) xs ys"
  unfolding users_coerce_def by (rule astype_rows)

lemma clean_users_Inr:
  "clean_users rd df = Inr out \<longleftrightarrow>
   df \<noteq> [] \<and> cleaned_by u_email (users_keep rd) (users_row rd) (users_coerce rd) df = Inr out"
  by (auto simp: clean_users_normal and_then_Inr print_removed_Inr)

lemma clean_users_length: "clean_users rd df = Inr out \<Longrightarrow> length out \<le> length df"
  unfolding clean_users_Inr
  by (erule conjE, erule cleaned_by_length) (simp add: users_coerce_def astype_Int64_length)

lemma clean_users_distinct_email:
  assumes "clean_users rd df = Inr out"
  shows "distinct (map u_email out)"
proof -
  from assms have c: "cleaned_by u_email (users_keep rd) (users_row rd) (users_coerce rd) df = Inr out"
    by (simp add: clean_users_Inr)
  show ?thesis
  proof (rule cleaned_by_distinct[OF c, where ok = "\<lambda>_. True"])
    show "u_email (users_row rd r) = u_email r" for r by (simp add: users_row_def)
    show "map u_email ys = map u_email xs" if "users_coerce rd xs = Inr ys" for xs ys
      using that unfolding users_coerce_def by (rule astype_map_other) simp
  qed simp
qed

lemma clean_users_stable:
  assumes "clean_users rd df = Inr out" and "r' \<in> set out"
  shows "users_keep rd' r' \<and> to_Int64 rd' (u_id r') = Inr (u_id r') \<and>
         str_strip (fillna ''Unknown'' (u_city r')) = u_city r' \<and>
         to_datetime rd' ''created_at'' (u_created_at r') = u_created_at r' \<and>
         (\<exists>x. u_first_name r' = str_title rd (str_strip x)) \<and>
         (\<exists>x. u_last_name r' = str_title rd (str_strip x)) \<and>
         (\<exists>x. u_country r' = str_title rd (str_strip x))"
proof -
  from assms(1) have c: "cleaned_by u_email (users_keep rd) (users_row rd) (users_coerce rd) df = Inr out"
    by (simp add: clean_users_Inr)
  have "\<exists>r\<in>set df. users_keep rd r \<and>
          (\<exists>c. to_Int64 rd (u_id (users_row rd r)) = Inr c \<and> r' = (users_row rd r)\<lparr>u_id := c\<rparr>)"
    by (rule cleaned_by_rows[OF c _ assms(2)]) (rule users_coerce_rows)
  then obtain r c where r: "users_keep rd r" "to_Int64 rd (u_id (users_row rd r)) = Inr c"
    "r' = (users_row rd r)\<lparr>u_id := c\<rparr>" by auto
  have k: "users_keep rd' r'" using r(1,3)
    by (simp add: users_keep_def users_row_def to_datetime_idem)
  have w: "str_strip (fillna ''Unknown'' (u_city r')) = u_city r'"
    "to_datetime rd' ''created_at'' (u_created_at r') = u_created_at r'"
    using r(3) by (simp_all add: users_row_def str_strip_idem fillna_str_strip to_datetime_idem)
  have n: "\<exists>x. u_first_name r' = str_title rd (str_strip x)"
    "\<exists>x. u_last_name r' = str_title rd (str_strip x)"
    "\<exists>x. u_country r' = str_title rd (str_strip x)"
    using r(3) by (auto simp: users_row_def)
  have i: "to_Int64 rd' (u_id r') = Inr (u_id r')" using r(2,3) by (simp add: to_Int64_stable)
  from k w n i show ?thesis by simp
qed

lemma users_row_fixed:
  assumes "str_strip (fillna ''Unknown'' (u_city r)) = u_city r"
    and "to_datetime rd ''created_at'' (u_created_at r) = u_created_at r"
    and "str_title rd (str_strip (u_first_name r)) = u_first_name r"
    and "str_title rd (str_strip (u_last_name r)) = u_last_name r"
    and "str_title rd (str_strip (u_country r)) = u_country r"
  shows "users_row rd r = r"
  using assms by (simp add: users_row_def)

lemma clean_users_idem:
  assumes "clean_users rd df = Inr out" and "out \<noteq> []" and "users_titled rd out"
  shows "clean_users rd out = Inr out"
proof -
  have "cleaned_by u_email (users_keep rd) (users_row rd) (users_coerce rd) out = Inr out"
  proof (rule cleaned_by_idem)
    show "distinct (map u_email out)" by (rule clean_users_distinct_email[OF assms(1)])
    show "users_keep rd r \<and> users_row rd r = r" if "r \<in> set out" for r
    proof -
      note s = clean_users_stable[OF assms(1) that, of rd]
      from assms(3) that have t: "str_title rd (str_strip (u_first_name r)) = u_first_name r"
        "str_title rd (str_strip (u_last_name r)) = u_last_name r"
        "str_title rd (str_strip (u_country r)) = u_country r"
        by (simp_all add: users_titled_def)
      from s have "users_row rd r = r" by (intro users_row_fixed t) simp_all
      with s show ?thesis by simp
    qed
    show "users_coerce rd out = Inr out"
      unfolding users_coerce_def
      by (rule astype_id) (simp_all add: clean_users_stable[OF assms(1)])
  qed
  with assms(2) show ?thesis by (simp add: clean_users_Inr)
qed

lemma clean_users_titled_ascii:
  assumes "clean_users rd df = Inr out" and "title_text rd = ascii_title"
  shows "users_titled rd out"
  unfolding users_titled_def
proof
  fix r assume "r \<in> set out"
  from clean_users_stable[OF assms(1) this, of rd]
  obtain a b c where "u_first_name r = str_title rd (str_strip a)"
    "u_last_name r = str_title rd (str_strip b)" "u_country r = str_title rd (str_strip c)"
    by auto
  then show "str_title rd (str_strip (u_first_name r)) = u_first_name r \<and>
             str_title rd (str_strip (u_last_name r)) = u_last_name r \<and>
             str_title rd (str_strip (u_country r)) = u_country r"
    by (simp add: str_title_strip_idem[OF assms(2)])
qed

lemma list_all2_map_key:
  assumes "list_all2 P xs ys" and "\<And>x y. x \<in> set xs \<Longrightarrow> P x y \<Longrightarrow> g y = f x"
  shows "map g ys = map f xs"
  using assms by (induction rule: list_all2_induct) auto

lemma and_then_Inr_left: "and_then (Inr x) f = f x"
  by (simp add: and_then_def)

subsection \<open>\<open>clean_products\<close>: row count, unique ids, fixed point\<close>

lemma products_coerce_rows:
  "products_coerce rd xs = Inr ys \<Longrightarrow>
   list_all2 (\<lambda>r r'. \<exists>c. to_Int64 rd (p_id r) = Inr c \<and> r' = r\<lparr>p_id := c\<rparr>) xs ys"
  unfolding products_coerce_def by (rule astype_rows)

lemma clean_products_Inr:
  "clean_products rd df = Inr out \<longleftrightarrow>
   df \<noteq> [] \<and> cleaned_by p_id products_keep (products_row rd) (products_coerce rd) df = Inr out"
  by (auto simp: clean_products_normal and_then_Inr print_removed_Inr)

lemma clean_products_length: "clean_products rd df = Inr out \<Longrightarrow> length out \<le> length df"
  unfolding clean_products_Inr
  by (erule conjE, erule cleaned_by_length) (simp add: products_coerce_def astype_Int64_length)

lemma clean_products_distinct_id:
  assumes "clean_products rd df = Inr out" and "\<forall>r\<in>set df. \<not> is_text (p_id r)"
  shows "distinct (map p_id out)"
proof -
  from assms have c: "cleaned_by p_id products_keep (products_row rd) (products_coerce rd) df = Inr out"
    by (simp add: clean_products_Inr)
  show ?thesis
  proof (rule cleaned_by_distinct[OF c, where ok = "\<lambda>k. \<not> is_text k"])
    show "p_id (products_row rd r) = p_id r" for r by (simp add: products_row_def)
    show "map p_id ys = map p_id xs"
      if "products_coerce rd xs = Inr ys" "\<forall>r\<in>set xs. \<not> is_text (p_id r)" for xs ys
      by (rule list_all2_map_key[OF products_coerce_rows[OF that(1)]])
         (use that(2) to_Int64_numeric in fastforce)
  qed (rule assms(2))
qed

lemma clean_products_stable:
  assumes "clean_products rd df = Inr out" and "r' \<in> set out"
  shows "products_keep r' \<and> to_Int64 rd' (p_id r') = Inr (p_id r') \<and>
         str_strip (fillna ''Unknown Product'' (p_name r')) = p_name r' \<and>
         str_strip (fillna ''Generic'' (p_brand r')) = p_brand r' \<and>
         str_strip (p_department r') = p_department r' \<and>
         fillna ''Uncategorized'' (p_category r') = p_category r' \<and>
         (\<exists>x. p_category r' = str_title rd (str_strip x))"
proof -
  from assms(1) have c: "cleaned_by p_id products_keep (products_row rd) (products_coerce rd) df = Inr out"
    by (simp add: clean_products_Inr)
  have "\<exists>r\<in>set df. products_keep r \<and>
          (\<exists>c. to_Int64 rd (p_id (products_row rd r)) = Inr c \<and> r' = (products_row rd r)\<lparr>p_id := c\<rparr>)"
    by (rule cleaned_by_rows[OF c _ assms(2)]) (rule products_coerce_rows)
  then obtain r c where r: "products_keep r" "to_Int64 rd (p_id (products_row rd r)) = Inr c"
    "r' = (products_row rd r)\<lparr>p_id := c\<rparr>" by auto
  have k: "products_keep r'" using r(1,3) by (simp add: products_keep_def products_row_def)
  have w: "str_strip (fillna ''Unknown Product'' (p_name r')) = p_name r'"
    "str_strip (fillna ''Generic'' (p_brand r')) = p_brand r'"
    "str_strip (p_department r') = p_department r'"
    "fillna ''Uncategorized'' (p_category r') = p_category r'"
    using r(3) by (simp_all add: products_row_def str_strip_idem fillna_str_strip fillna_str_title)
  have n: "\<exists>x. p_category r' = str_title rd (str_strip x)"
    using r(3) by (auto simp: products_row_def)
  have i: "to_Int64 rd' (p_id r') = Inr (p_id r')" using r(2,3) by (simp add: to_Int64_stable)
  from k w n i show ?thesis by simp
qed

lemma products_row_fixed:
  assumes "str_strip (fillna ''Unknown Product'' (p_name r)) = p_name r"
    and "str_strip (fillna ''Generic'' (p_brand r)) = p_brand r"
    and "str_strip (p_department r) = p_department r"
    and "fillna ''Uncategorized'' (p_category r) = p_category r"
    and "str_title rd (str_strip (p_category r)) = p_category r"
  shows "products_row rd r = r"
  using assms by (simp add: products_row_def)

lemma clean_products_idem:
  assumes "clean_products rd df = Inr out" and "out \<noteq> []" and "distinct (map p_id out)"
    and "products_titled rd out"
  shows "clean_products rd out = Inr out"
proof -
  have "cleaned_by p_id products_keep (products_row rd) (products_coerce rd) out = Inr out"
  proof (rule cleaned_by_idem)
    show "distinct (map p_id out)" by (rule assms(3))
    show "products_keep r \<and> products_row rd r = r" if "r \<in> set out" for r
    proof -
      note s = clean_products_stable[OF assms(1) that, of rd]
      from assms(4) that have t: "str_title rd (str_strip (p_category r)) = p_category r"
        by (simp add: products_titled_def)
      from s have "products_row rd r = r" by (intro products_row_fixed t) simp_all
      with s show ?thesis by simp
    qed
    show "products_coerce rd out = Inr out"
      unfolding products_coerce_def
      by (rule astype_id) (simp_all add: clean_products_stable[OF assms(1)])
  qed
  with assms(2) show ?thesis by (simp add: clean_products_Inr)
qed

lemma clean_products_titled_ascii:
  assumes "clean_products rd df = Inr out" and "title_text rd = ascii_title"
  shows "products_titled rd out"
  unfolding products_titled_def
proof
  fix r assume "r \<in> set out"
  from clean_products_stable[OF assms(1) this, of rd]
  obtain a where "p_category r = str_title rd (str_strip a)" by auto
  then show "str_title rd (str_strip (p_category r)) = p_category r"
    by (simp add: str_title_strip_idem[OF assms(2)])
qed

subsection \<open>\<open>clean_distribution_centers\<close>: row count, unique ids, fixed point\<close>

lemma distribution_centers_coerce_rows:
  "distribution_centers_coerce rd xs = Inr ys \<Longrightarrow>
   list_all2 (\<lambda>r r'. \<exists>c. to_Int64 rd (dc_id r) = Inr c \<and> r' = r\<lparr>dc_id := c\<rparr>) xs ys"
  unfolding distribution_centers_coerce_def by (rule astype_rows)

lemma clean_distribution_centers_length:
  "clean_distribution_centers rd df = Inr out \<Longrightarrow> length out \<le> length df"
  unfolding clean_distribution_centers_normal
  by (erule cleaned_by_length) (simp add: distribution_centers_coerce_def astype_Int64_length)

lemma clean_distribution_centers_distinct_id:
  assumes "clean_distribution_centers rd df = Inr out" and "\<forall>r\<in>set df. \<not> is_text (dc_id r)"
  shows "distinct (map dc_id out)"
proof -
  from assms have c: "cleaned_by dc_id (\<lambda>r. True) distribution_centers_row
      (distribution_centers_coerce rd) df = Inr out"
    by (simp add: clean_distribution_centers_normal)
  show ?thesis
  proof (rule cleaned_by_distinct[OF c, where ok = "\<lambda>k. \<not> is_text k"])
    show "dc_id (distribution_centers_row r) = dc_id r" for r
      by (simp add: distribution_centers_row_def)
    show "map dc_id ys = map dc_id xs"
      if "distribution_centers_coerce rd xs = Inr ys" "\<forall>r\<in>set xs. \<not> is_text (dc_id r)" for xs ys
      by (rule list_all2_map_key[OF distribution_centers_coerce_rows[OF that(1)]])
         (use that(2) to_Int64_numeric in fastforce)
  qed (rule assms(2))
qed

lemma clean_distribution_centers_stable:
  assumes "clean_distribution_centers rd df = Inr out" and "r' \<in> set out"
  shows "distribution_centers_row r' = r' \<and> to_Int64 rd' (dc_id r') = Inr (dc_id r')"
proof -
  from assms(1) have c: "cleaned_by dc_id (\<lambda>r. True) distribution_centers_row
      (distribution_centers_coerce rd) df = Inr out"
    by (simp add: clean_distribution_centers_normal)
  have "\<exists>r\<in>set df. True \<and>
          (\<exists>c. to_Int64 rd (dc_id (distribution_centers_row r)) = Inr c \<and>
               r' = (distribution_centers_row r)\<lparr>dc_id := c\<rparr>)"
    by (rule cleaned_by_rows[OF c _ assms(2)]) (rule distribution_centers_coerce_rows)
  then obtain r c where r: "to_Int64 rd (dc_id (distribution_centers_row r)) = Inr c"
    "r' = (distribution_centers_row r)\<lparr>dc_id := c\<rparr>" by auto
  have w: "distribution_centers_row r' = r'" using r(2)
    by (simp add: distribution_centers_row_def str_strip_idem)
  have i: "to_Int64 rd' (dc_id r') = Inr (dc_id r')" using r by (simp add: to_Int64_stable)
  from w i show ?thesis by simp
qed

lemma clean_distribution_centers_idem:
  assumes "clean_distribution_centers rd df = Inr out" and "distinct (map dc_id out)"
  shows "clean_distribution_centers rd out = Inr out"
  unfolding clean_distribution_centers_normal
proof (rule cleaned_by_idem)
  show "distinct (map dc_id out)" by (rule assms(2))
  show "True \<and> distribution_centers_row r = r" if "r \<in> set out" for r
    using clean_distribution_centers_stable[OF assms(1) that] by simp
  show "distribution_centers_coerce rd out = Inr out"
    unfolding distribution_centers_coerce_def
    by (rule astype_id) (simp_all add: clean_distribution_centers_stable[OF assms(1)])
qed

subsection \<open>\<open>clean_orders\<close>: row count, unique ids, fixed point\<close>

lemma orders_coerce_length: "orders_coerce rd xs = Inr ys \<Longrightarrow> length ys = length xs"
  by (drule orders_coerce_rows) (rule list_all2_lengthD[symmetric])

lemma clean_orders_Inr:
  "clean_orders rd df = Inr out \<longleftrightarrow>
   df \<noteq> [] \<and> cleaned_by o_order_id (orders_keep rd) (orders_to_datetime rd) (orders_coerce rd) df
             = Inr out"
  by (auto simp: clean_orders_normal and_then_Inr print_removed_Inr)

lemma clean_orders_length: "clean_orders rd df = Inr out \<Longrightarrow> length out \<le> length df"
  unfolding clean_orders_Inr
  by (erule conjE, erule cleaned_by_length) (rule orders_coerce_length)

lemma clean_orders_distinct_id:
  assumes "clean_orders rd df = Inr out" and "\<forall>r\<in>set df. \<not> is_text (o_order_id r)"
  shows "distinct (map o_order_id out)"
proof -
  from assms have c: "cleaned_by o_order_id (orders_keep rd) (orders_to_datetime rd)
      (orders_coerce rd) df = Inr out"
    by (simp add: clean_orders_Inr)
  show ?thesis
  proof (rule cleaned_by_distinct[OF c, where ok = "\<lambda>k. \<not> is_text k"])
    show "o_order_id (orders_to_datetime rd r) = o_order_id r" for r
      by (simp add: orders_to_datetime_def)
    show "map o_order_id ys = map o_order_id xs"
      if "orders_coerce rd xs = Inr ys" "\<forall>r\<in>set xs. \<not> is_text (o_order_id r)" for xs ys
      by (rule list_all2_map_key[OF orders_coerce_rows[OF that(1)]])
         (use that(2) to_Int64_numeric in fastforce)
  qed (rule assms(2))
qed

lemma clean_orders_stable:
  assumes "clean_orders rd df = Inr out" and "r' \<in> set out"
  shows "orders_keep rd' r' \<and> orders_to_datetime rd' r' = r' \<and>
         to_Int64 rd' (o_order_id r') = Inr (o_order_id r') \<and>
         to_Int64 rd' (o_user_id r') = Inr (o_user_id r')"
proof -
  from assms(1) have c: "cleaned_by o_order_id (orders_keep rd) (orders_to_datetime rd)
      (orders_coerce rd) df = Inr out"
    by (simp add: clean_orders_Inr)
  have "\<exists>r\<in>set df. orders_keep rd r \<and>
          (\<exists>c1 c2. to_Int64 rd (o_order_id (orders_to_datetime rd r)) = Inr c1 \<and>
             to_Int64 rd (o_user_id (orders_to_datetime rd r)) = Inr c2 \<and>
             r' = (orders_to_datetime rd r)\<lparr>o_order_id := c1, o_user_id := c2\<rparr>)"
    by (rule cleaned_by_rows[OF c _ assms(2)]) (rule orders_coerce_rows)
  then obtain r c1 c2 where r: "orders_keep rd r"
    "to_Int64 rd (o_order_id (orders_to_datetime rd r)) = Inr c1"
    "to_Int64 rd (o_user_id (orders_to_datetime rd r)) = Inr c2"
    "r' = (orders_to_datetime rd r)\<lparr>o_order_id := c1, o_user_id := c2\<rparr>" by auto
  have w: "orders_to_datetime rd' r' = r'" using r(4)
    by (simp add: orders_to_datetime_def to_datetime_idem)
  have k: "orders_keep rd' r'" using r(1)
    unfolding orders_keep_def w
    by (simp add: r(4) orders_to_datetime_def shipped_after_created_def delivered_after_shipped_def)
  have i: "to_Int64 rd' (o_order_id r') = Inr (o_order_id r')"
    "to_Int64 rd' (o_user_id r') = Inr (o_user_id r')"
    using r(2,3,4) by (simp_all add: to_Int64_stable)
  from k w i show ?thesis by simp
qed

lemma clean_orders_idem:
  assumes "clean_orders rd df = Inr out" and "out \<noteq> []"
    and "distinct (map o_order_id out)"
  shows "clean_orders rd out = Inr out"
proof -
  have "cleaned_by o_order_id (orders_keep rd) (orders_to_datetime rd) (orders_coerce rd) out
          = Inr out"
  proof (rule cleaned_by_idem)
    show "distinct (map o_order_id out)" by (rule assms(3))
    show "orders_keep rd r \<and> orders_to_datetime rd r = r" if "r \<in> set out" for r
      using clean_orders_stable[OF assms(1) that] by simp
    have "astype_Int64 rd o_order_id (\<lambda>r c. r\<lparr>o_order_id := c\<rparr>) out = Inr out"
      "astype_Int64 rd o_user_id (\<lambda>r c. r\<lparr>o_user_id := c\<rparr>) out = Inr out"
      by (rule astype_id, simp_all add: clean_orders_stable[OF assms(1)])+
    then show "orders_coerce rd out = Inr out"
      by (simp add: orders_coerce_def and_then_Inr_left)
  qed
  with assms(2) show ?thesis by (simp add: clean_orders_Inr)
qed

subsection \<open>\<open>clean_order_items\<close>: row count, unique ids, fixed point\<close>

lemma order_items_coerce_rows:
  assumes "order_items_coerce rd xs = Inr out"
  shows "list_all2 (\<lambda>r r'. \<exists>c1 c2 c3. to_Int64 rd (oi_id r) = Inr c1 \<and>
            to_Int64 rd (oi_order_id r) = Inr c2 \<and> to_Int64 rd (oi_product_id r) = Inr c3 \<and>
            r' = r\<lparr>oi_id := c1, oi_order_id := c2, oi_product_id := c3\<rparr>) xs out"
proof -
  from assms obtain m1 m2 where
    a1: "astype_Int64 rd oi_id (\<lambda>r c. r\<lparr>oi_id := c\<rparr>) xs = Inr m1" and
    a2: "astype_Int64 rd oi_order_id (\<lambda>r c. r\<lparr>oi_order_id := c\<rparr>) m1 = Inr m2" and
    a3: "astype_Int64 rd oi_product_id (\<lambda>r c. r\<lparr>oi_product_id := c\<rparr>) m2 = Inr out"
    by (auto simp: order_items_coerce_def and_then_Inr)
  have l2: "list_all2 (\<lambda>r r'. \<exists>c1 c2. to_Int64 rd (oi_id r) = Inr c1 \<and>
            to_Int64 rd (oi_order_id r) = Inr c2 \<and> r' = r\<lparr>oi_id := c1, oi_order_id := c2\<rparr>) xs m2"
    by (rule list_all2_trans[OF _ astype_rows[OF a1] astype_rows[OF a2]]) auto
  show ?thesis
    by (rule list_all2_trans[OF _ l2 astype_rows[OF a3]]) auto
qed

lemma order_items_coerce_length: "order_items_coerce rd xs = Inr ys \<Longrightarrow> length ys = length xs"
  by (drule order_items_coerce_rows) (rule list_all2_lengthD[symmetric])

lemma clean_order_items_Inr:
  "clean_order_items rd df = Inr out \<longleftrightarrow>
   df \<noteq> [] \<and> cleaned_by oi_id order_items_keep (order_items_to_datetime rd)
               (order_items_coerce rd) df = Inr out"
  by (auto simp: clean_order_items_normal and_then_Inr print_removed_Inr)

lemma clean_order_items_length: "clean_order_items rd df = Inr out \<Longrightarrow> length out \<le> length df"
  unfolding clean_order_items_Inr
  by (erule conjE, erule cleaned_by_length) (rule order_items_coerce_length)

lemma clean_order_items_distinct_id:
  assumes "clean_order_items rd df = Inr out" and "\<forall>r\<in>set df. \<not> is_text (oi_id r)"
  shows "distinct (map oi_id out)"
proof -
  from assms have c: "cleaned_by oi_id order_items_keep (order_items_to_datetime rd)
      (order_items_coerce rd) df = Inr out"
    by (simp add: clean_order_items_Inr)
  show ?thesis
  proof (rule cleaned_by_distinct[OF c, where ok = "\<lambda>k. \<not> is_text k"])
    show "oi_id (order_items_to_datetime rd r) = oi_id r" for r
      by (simp add: order_items_to_datetime_def)
    show "map oi_id ys = map oi_id xs"
      if "order_items_coerce rd xs = Inr ys" "\<forall>r\<in>set xs. \<not> is_text (oi_id r)" for xs ys
      by (rule list_all2_map_key[OF order_items_coerce_rows[OF that(1)]])
         (use that(2) to_Int64_numeric in fastforce)
  qed (rule assms(2))
qed

lemma clean_order_items_stable:
  assumes "clean_order_items rd df = Inr out" and "r' \<in> set out"
  shows "order_items_keep r' \<and> order_items_to_datetime rd' r' = r' \<and>
         to_Int64 rd' (oi_id r') = Inr (oi_id r') \<and>
         to_Int64 rd' (oi_order_id r') = Inr (oi_order_id r') \<and>
         to_Int64 rd' (oi_product_id r') = Inr (oi_product_id r')"
proof -
  from assms(1) have c: "cleaned_by oi_id order_items_keep (order_items_to_datetime rd)
      (order_items_coerce rd) df = Inr out"
    by (simp add: clean_order_items_Inr)
  have "\<exists>r\<in>set df. order_items_keep r \<and>
          (\<exists>c1 c2 c3. to_Int64 rd (oi_id (order_items_to_datetime rd r)) = Inr c1 \<and>
             to_Int64 rd (oi_order_id (order_items_to_datetime rd r)) = Inr c2 \<and>
             to_Int64 rd (oi_product_id (order_items_to_datetime rd r)) = Inr c3 \<and>
             r' = (order_items_to_datetime rd r)\<lparr>oi_id := c1, oi_order_id := c2, oi_product_id := c3\<rparr>)"
    by (rule cleaned_by_rows[OF c _ assms(2)]) (rule order_items_coerce_rows)
  then obtain r c1 c2 c3 where r: "order_items_keep r"
    "to_Int64 rd (oi_id (order_items_to_datetime rd r)) = Inr c1"
    "to_Int64 rd (oi_order_id (order_items_to_datetime rd r)) = Inr c2"
    "to_Int64 rd (oi_product_id (order_items_to_datetime rd r)) = Inr c3"
    "r' = (order_items_to_datetime rd r)\<lparr>oi_id := c1, oi_order_id := c2, oi_product_id := c3\<rparr>"
    by auto
  have w: "order_items_to_datetime rd' r' = r'" using r(5)
    by (simp add: order_items_to_datetime_def to_datetime_idem)
  have k: "order_items_keep r'" using r(1,5)
    by (simp add: order_items_keep_def order_items_to_datetime_def)
  have i: "to_Int64 rd' (oi_id r') = Inr (oi_id r')"
    "to_Int64 rd' (oi_order_id r') = Inr (oi_order_id r')"
    "to_Int64 rd' (oi_product_id r') = Inr (oi_product_id r')"
    using r(2,3,4,5) by (simp_all add: to_Int64_stable)
  from k w i show ?thesis by simp
qed

lemma clean_order_items_idem:
  assumes "clean_order_items rd df = Inr out" and "out \<noteq> []"
    and "distinct (map oi_id out)"
  shows "clean_order_items rd out = Inr out"
proof -
  have "cleaned_by oi_id order_items_keep (order_items_to_datetime rd) (order_items_coerce rd) out
          = Inr out"
  proof (rule cleaned_by_idem)
    show "distinct (map oi_id out)" by (rule assms(3))
    show "order_items_keep r \<and> order_items_to_datetime rd r = r" if "r \<in> set out" for r
      using clean_order_items_stable[OF assms(1) that] by simp
    have "astype_Int64 rd oi_id (\<lambda>r c. r\<lparr>oi_id := c\<rparr>) out = Inr out"
      "astype_Int64 rd oi_order_id (\<lambda>r c. r\<lparr>oi_order_id := c\<rparr>) out = Inr out"
      "astype_Int64 rd oi_product_id (\<lambda>r c. r\<lparr>oi_product_id := c\<rparr>) out = Inr out"
      by (rule astype_id, simp_all add: clean_order_items_stable[OF assms(1)])+
    then show "order_items_coerce rd out = Inr out"
      by (simp add: order_items_coerce_def and_then_Inr_left)
  qed
  with assms(2) show ?thesis by (simp add: clean_order_items_Inr)
qed

subsection \<open>\<open>clean_inventory_items\<close>: row count, unique ids, fixed point\<close>

lemma inventory_items_coerce_rows:
  assumes "inventory_items_coerce rd xs = Inr out"
  shows "list_all2 (\<lambda>r r'. \<exists>c1 c2. to_Int64 rd (inv_id r) = Inr c1 \<and>
            to_Int64 rd (inv_product_id r) = Inr c2 \<and>
            r' = r\<lparr>inv_id := c1, inv_product_id := c2\<rparr>) xs out"
proof -
  from assms obtain mid where
    m1: "astype_Int64 rd inv_id (\<lambda>r c. r\<lparr>inv_id := c\<rparr>) xs = Inr mid" and
    m2: "astype_Int64 rd inv_product_id (\<lambda>r c. r\<lparr>inv_product_id := c\<rparr>) mid = Inr out"
    by (auto simp: inventory_items_coerce_def and_then_Inr)
  show ?thesis
    by (rule list_all2_trans[OF _ astype_rows[OF m1] astype_rows[OF m2]]) auto
qed

lemma inventory_items_coerce_length:
  "inventory_items_coerce rd xs = Inr ys \<Longrightarrow> length ys = length xs"
  by (drule inventory_items_coerce_rows) (rule list_all2_lengthD[symmetric])

lemma clean_inventory_items_Inr:
  "clean_inventory_items rd df = Inr out \<longleftrightarrow>
   df \<noteq> [] \<and> cleaned_by inv_id (inventory_items_keep rd) (inventory_items_row rd)
               (inventory_items_coerce rd) df = Inr out"
  by (auto simp: clean_inventory_items_normal and_then_Inr print_removed_Inr)

lemma clean_inventory_items_length:
  "clean_inventory_items rd df = Inr out \<Longrightarrow> length out \<le> length df"
  unfolding clean_inventory_items_Inr
  by (erule conjE, erule cleaned_by_length) (rule inventory_items_coerce_length)

lemma clean_inventory_items_distinct_id:
  assumes "clean_inventory_items rd df = Inr out" and "\<forall>r\<in>set df. \<not> is_text (inv_id r)"
  shows "distinct (map inv_id out)"
proof -
  from assms have c: "cleaned_by inv_id (inventory_items_keep rd) (inventory_items_row rd)
      (inventory_items_coerce rd) df = Inr out"
    by (simp add: clean_inventory_items_Inr)
  show ?thesis
  proof (rule cleaned_by_distinct[OF c, where ok = "\<lambda>k. \<not> is_text k"])
    show "inv_id (inventory_items_row rd r) = inv_id r" for r
      by (simp add: inventory_items_row_def)
    show "map inv_id ys = map inv_id xs"
      if "inventory_items_coerce rd xs = Inr ys" "\<forall>r\<in>set xs. \<not> is_text (inv_id r)" for xs ys
      by (rule list_all2_map_key[OF inventory_items_coerce_rows[OF that(1)]])
         (use that(2) to_Int64_numeric in fastforce)
  qed (rule assms(2))
qed

lemma clean_inventory_items_stable:
  assumes "clean_inventory_items rd df = Inr out" and "r' \<in> set out"
  shows "inventory_items_keep rd' r' \<and> inventory_items_row rd' r' = r' \<and>
         to_Int64 rd' (inv_id r') = Inr (inv_id r') \<and>
         to_Int64 rd' (inv_product_id r') = Inr (inv_product_id r')"
proof -
  from assms(1) have c: "cleaned_by inv_id (inventory_items_keep rd) (inventory_items_row rd)
      (inventory_items_coerce rd) df = Inr out"
    by (simp add: clean_inventory_items_Inr)
  have "\<exists>r\<in>set df. inventory_items_keep rd r \<and>
          (\<exists>c1 c2. to_Int64 rd (inv_id (inventory_items_row rd r)) = Inr c1 \<and>
             to_Int64 rd (inv_product_id (inventory_items_row rd r)) = Inr c2 \<and>
             r' = (inventory_items_row rd r)\<lparr>inv_id := c1, inv_product_id := c2\<rparr>)"
    by (rule cleaned_by_rows[OF c _ assms(2)]) (rule inventory_items_coerce_rows)
  then obtain r c1 c2 where r: "inventory_items_keep rd r"
    "to_Int64 rd (inv_id (inventory_items_row rd r)) = Inr c1"
    "to_Int64 rd (inv_product_id (inventory_items_row rd r)) = Inr c2"
    "r' = (inventory_items_row rd r)\<lparr>inv_id := c1, inv_product_id := c2\<rparr>" by auto
  have w: "inventory_items_row rd' r' = r'" using r(4)
    by (simp add: inventory_items_row_def to_datetime_idem fillna_idem)
  have k: "inventory_items_keep rd' r'" using r(1,4)
    by (simp add: inventory_items_keep_def inventory_items_row_def to_datetime_idem)
  have i: "to_Int64 rd' (inv_id r') = Inr (inv_id r')"
    "to_Int64 rd' (inv_product_id r') = Inr (inv_product_id r')"
    using r(2,3,4) by (simp_all add: to_Int64_stable)
  from k w i show ?thesis by simp
qed

lemma clean_inventory_items_idem:
  assumes "clean_inventory_items rd df = Inr out" and "out \<noteq> []"
    and "distinct (map inv_id out)"
  shows "clean_inventory_items rd out = Inr out"
proof -
  have "cleaned_by inv_id (inventory_items_keep rd) (inventory_items_row rd)
          (inventory_items_coerce rd) out = Inr out"
  proof (rule cleaned_by_idem)
    show "distinct (map inv_id out)" by (rule assms(3))
    show "inventory_items_keep rd r \<and> inventory_items_row rd r = r" if "r \<in> set out" for r
      using clean_inventory_items_stable[OF assms(1) that] by simp
    have "astype_Int64 rd inv_id (\<lambda>r c. r\<lparr>inv_id := c\<rparr>) out = Inr out"
      "astype_Int64 rd inv_product_id (\<lambda>r c. r\<lparr>inv_product_id := c\<rparr>) out = Inr out"
      by (rule astype_id, simp_all add: clean_inventory_items_stable[OF assms(1)])+
    then show "inventory_items_coerce rd out = Inr out"
      by (simp add: inventory_items_coerce_def and_then_Inr_left)
  qed
  with assms(2) show ?thesis by (simp add: clean_inventory_items_Inr)
qed

subsection \<open>\<open>clean_events\<close>: row count, unique ids, fixed point\<close>

lemma replace_cell_idem: "replace_cell (replace_cell c) = replace_cell c"
  by (cases c) (simp_all add: drop_runs_idem)

lemma replace_spaces_idem: "replace_spaces (replace_spaces r) = replace_spaces r"
  by (simp add: replace_spaces_def replace_cell_idem drop_runs_idem option.map_comp o_def
        cong: option.map_cong)

lemma fillna_map_option: "fillna d (map_option f (fillna d c)) = map_option f (fillna d c)"
  by (cases c) simp_all

lemma events_coerce_rows:
  assumes "events_coerce rd xs = Inr out"
  shows "list_all2 (\<lambda>r r'. \<exists>c1 c2 c3. to_Int64 rd (e_id r) = Inr c1 \<and>
            to_Int64 rd (e_user_id r) = Inr c2 \<and> to_Int64 rd (e_sequence_number r) = Inr c3 \<and>
            r' = replace_spaces (r\<lparr>e_id := c1, e_user_id := c2, e_sequence_number := c3\<rparr>)) xs out"
proof -
  from assms obtain m1 m2 m3 where
    a1: "astype_Int64 rd e_id (\<lambda>r c. r\<lparr>e_id := c\<rparr>) xs = Inr m1" and
    a2: "astype_Int64 rd e_user_id (\<lambda>r c. r\<lparr>e_user_id := c\<rparr>) m1 = Inr m2" and
    a3: "astype_Int64 rd e_sequence_number (\<lambda>r c. r\<lparr>e_sequence_number := c\<rparr>) m2 = Inr m3" and
    o: "out = map replace_spaces m3"
    by (auto simp: events_coerce_def and_then_Inr)
  have l2: "list_all2 (\<lambda>r r'. \<exists>c1 c2. to_Int64 rd (e_id r) = Inr c1 \<and>
            to_Int64 rd (e_user_id r) = Inr c2 \<and> r' = r\<lparr>e_id := c1, e_user_id := c2\<rparr>) xs m2"
    by (rule list_all2_trans[OF _ astype_rows[OF a1] astype_rows[OF a2]]) auto
  have l3: "list_all2 (\<lambda>r r'. \<exists>c1 c2 c3. to_Int64 rd (e_id r) = Inr c1 \<and>
            to_Int64 rd (e_user_id r) = Inr c2 \<and> to_Int64 rd (e_sequence_number r) = Inr c3 \<and>
            r' = r\<lparr>e_id := c1, e_user_id := c2, e_sequence_number := c3\<rparr>) xs m3"
    by (rule list_all2_trans[OF _ l2 astype_rows[OF a3]]) auto
  show ?thesis unfolding o list_all2_map2
    by (rule list_all2_mono[OF l3]) auto
qed

lemma events_coerce_length: "events_coerce rd xs = Inr ys \<Longrightarrow> length ys = length xs"
  by (drule events_coerce_rows) (rule list_all2_lengthD[symmetric])

lemma clean_events_Inr:
  "clean_events rd df = Inr out \<longleftrightarrow>
   df \<noteq> [] \<and> cleaned_by e_id (events_keep rd) (events_row rd) (events_coerce rd) df = Inr out"
  by (auto simp: clean_events_normal and_then_Inr print_removed_Inr)

lemma clean_events_length: "clean_events rd df = Inr out \<Longrightarrow> length out \<le> length df"
  unfolding clean_events_Inr
  by (erule conjE, erule cleaned_by_length) (rule events_coerce_length)

lemma clean_events_distinct_id:
  assumes "clean_events rd df = Inr out" and "\<forall>r\<in>set df. \<not> is_text (e_id r)"
  shows "distinct (map e_id out)"
proof -
  from assms have c: "cleaned_by e_id (events_keep rd) (events_row rd) (events_coerce rd) df = Inr out"
    by (simp add: clean_events_Inr)
  show ?thesis
  proof (rule cleaned_by_distinct[OF c, where ok = "\<lambda>k. \<not> is_text k"])
    show "e_id (events_row rd r) = e_id r" for r
      by (simp add: events_row_def)
    show "map e_id ys = map e_id xs"
      if "events_coerce rd xs = Inr ys" "\<forall>r\<in>set xs. \<not> is_text (e_id r)" for xs ys
      by (rule list_all2_map_key[OF events_coerce_rows[OF that(1)]])
         (use that(2) to_Int64_numeric in \<open>fastforce simp: replace_spaces_def\<close>)
  qed (rule assms(2))
qed

lemma clean_events_stable:
  assumes "clean_events rd df = Inr out" and "r' \<in> set out"
  shows "events_keep rd' r' \<and> events_row rd' r' = r' \<and> replace_spaces r' = r' \<and>
         to_Int64 rd' (e_id r') = Inr (e_id r') \<and>
         to_Int64 rd' (e_user_id r') = Inr (e_user_id r') \<and>
         to_Int64 rd' (e_sequence_number r') = Inr (e_sequence_number r')"
proof -
  from assms(1) have c: "cleaned_by e_id (events_keep rd) (events_row rd) (events_coerce rd) df = Inr out"
    by (simp add: clean_events_Inr)
  have "\<exists>r\<in>set df. events_keep rd r \<and>
          (\<exists>c1 c2 c3. to_Int64 rd (e_id (events_row rd r)) = Inr c1 \<and>
             to_Int64 rd (e_user_id (events_row rd r)) = Inr c2 \<and>
             to_Int64 rd (e_sequence_number (events_row rd r)) = Inr c3 \<and>
             r' = replace_spaces ((events_row rd r)\<lparr>e_id := c1, e_user_id := c2, e_sequence_number := c3\<rparr>))"
    by (rule cleaned_by_rows[OF c _ assms(2)]) (rule events_coerce_rows)
  then obtain r c1 c2 c3 where r: "events_keep rd r"
    "to_Int64 rd (e_id (events_row rd r)) = Inr c1"
    "to_Int64 rd (e_user_id (events_row rd r)) = Inr c2"
    "to_Int64 rd (e_sequence_number (events_row rd r)) = Inr c3"
    "r' = replace_spaces ((events_row rd r)\<lparr>e_id := c1, e_user_id := c2, e_sequence_number := c3\<rparr>)"
    by auto
  have s: "replace_spaces r' = r'" unfolding r(5) by (rule replace_spaces_idem)
  have w: "events_row rd' r' = r'" using r(5)
    by (simp add: events_row_def replace_spaces_def to_datetime_idem fillna_map_option)
  have k: "events_keep rd' r'" using r(1,5)
    by (simp add: events_keep_def events_row_def replace_spaces_def to_datetime_idem)
  have i: "to_Int64 rd' (e_id r') = Inr (e_id r')"
    "to_Int64 rd' (e_user_id r') = Inr (e_user_id r')"
    "to_Int64 rd' (e_sequence_number r') = Inr (e_sequence_number r')"
    using r(2,3,4,5) by (simp_all add: to_Int64_stable replace_spaces_def)
  from k w s i show ?thesis by simp
qed

lemma clean_events_idem:
  assumes "clean_events rd df = Inr out" and "out \<noteq> []"
    and "distinct (map e_id out)"
  shows "clean_events rd out = Inr out"
proof -
  have "cleaned_by e_id (events_keep rd) (events_row rd) (events_coerce rd) out = Inr out"
  proof (rule cleaned_by_idem)
    show "distinct (map e_id out)" by (rule assms(3))
    show "events_keep rd r \<and> events_row rd r = r" if "r \<in> set out" for r
      using clean_events_stable[OF assms(1) that] by simp
    have "astype_Int64 rd e_id (\<lambda>r c. r\<lparr>e_id := c\<rparr>) out = Inr out"
      "astype_Int64 rd e_user_id (\<lambda>r c. r\<lparr>e_user_id := c\<rparr>) out = Inr out"
      "astype_Int64 rd e_sequence_number (\<lambda>r c. r\<lparr>e_sequence_number := c\<rparr>) out = Inr out"
      by (rule astype_id, simp_all add: clean_events_stable[OF assms(1)])+
    moreover have "map replace_spaces out = out"
      by (rule map_idI) (simp add: clean_events_stable[OF assms(1)])
    ultimately show "events_coerce rd out = Inr out"
      by (simp add: events_coerce_def and_then_Inr_left)
  qed
  with assms(2) show ?thesis by (simp add: clean_events_Inr)
qed

subsection \<open>Cleaning a cleaned frame again\<close>

text \<open>
  C9, as stated, fails.  Duplicates are removed on the key as read, before the key is
  coerced: two products whose ids are the texts \<open>x\<close> and \<open>y\<close> are both kept, both ids
  become null, and cleaning the output again removes the second row as a duplicate of
  the first.
\<close>

theorem cleaning_not_idempotent_on_text_ids:
  "clean_products reads_nothing [product_x, product_y] =
     Inr [product_x\<lparr>p_id := NA\<rparr>, product_y\<lparr>p_id := NA\<rparr>] \<and>
   clean_products reads_nothing [product_x\<lparr>p_id := NA\<rparr>, product_y\<lparr>p_id := NA\<rparr>] =
     Inr [product_x\<lparr>p_id := NA\<rparr>] \<and>
   clean_products reads_nothing [product_x\<lparr>p_id := NA\<rparr>, product_y\<lparr>p_id := NA\<rparr>] \<noteq>
     Inr [product_x\<lparr>p_id := NA\<rparr>, product_y\<lparr>p_id := NA\<rparr>]"
  by code_simp

text \<open>
  A cleaning function that has removed every row returns an empty frame, and on an empty
  frame the report it prints divides by zero.
\<close>

lemma clean_users_empty_output_raises:
  "clean_users reads_nothing [user_minor] = Inr [] \<and>
   clean_users reads_nothing [] = Inl ZeroDivisionError"
  by code_simp

text \<open>
  C9, amended.  Each cleaning function returns its own output unchanged when it is
  applied to it, provided that the output is not empty, that no two rows of the output
  have the same coerced key (for \<open>clean_users\<close>, which removes duplicates on the email,
  this always holds), and, for the two functions that title-case text, that the
  title-cased columns of the output are settled: stripping and title-casing them again
  changes no cell, as is the case for all ASCII text.  \<open>clean_distribution_centers\<close>,
  which prints no percentage, is a fixed point also on an empty output.  Nothing is said
  about the other six functions on an empty output.
\<close>

theorem cleaning_fixed_point:
  "(clean_users rd us = Inr us' \<longrightarrow> us' \<noteq> [] \<longrightarrow> users_titled rd us' \<longrightarrow>
      clean_users rd us' = Inr us') \<and>
   (clean_products rd ps = Inr ps' \<longrightarrow> ps' \<noteq> [] \<longrightarrow> distinct (map p_id ps') \<longrightarrow>
      products_titled rd ps' \<longrightarrow> clean_products rd ps' = Inr ps') \<and>
   (clean_orders rd os = Inr os' \<longrightarrow> os' \<noteq> [] \<longrightarrow> distinct (map o_order_id os') \<longrightarrow>
      clean_orders rd os' = Inr os') \<and>
   (clean_order_items rd ois = Inr ois' \<longrightarrow> ois' \<noteq> [] \<longrightarrow> distinct (map oi_id ois') \<longrightarrow>
      clean_order_items rd ois' = Inr ois') \<and>
   (clean_inventory_items rd ivs = Inr ivs' \<longrightarrow> ivs' \<noteq> [] \<longrightarrow> distinct (map inv_id ivs') \<longrightarrow>
      clean_inventory_items rd ivs' = Inr ivs') \<and>
   (clean_events rd es = Inr es' \<longrightarrow> es' \<noteq> [] \<longrightarrow> distinct (map e_id es') \<longrightarrow>
      clean_events rd es' = Inr es') \<and>
   (clean_distribution_centers rd ds = Inr ds' \<longrightarrow> distinct (map dc_id ds') \<longrightarrow>
      clean_distribution_centers rd ds' = Inr ds')"
  by (intro conjI impI) (erule clean_users_idem clean_products_idem clean_orders_idem
        clean_order_items_idem clean_inventory_items_idem clean_events_idem
        clean_distribution_centers_idem; assumption)+

theorem cleaning_fixed_point_witness:
  "clean_users reads_nothing users_raw = Inr [user_1, user_2] \<and>
   users_titled reads_nothing [user_1, user_2] \<and>
   clean_users reads_nothing [user_1, user_2] = Inr [user_1, user_2] \<and>
   clean_products reads_nothing products_raw = Inr [product_7, product_8] \<and>
   distinct (map p_id [product_7, product_8]) \<and>
   products_titled reads_nothing [product_7, product_8] \<and>
   clean_products reads_nothing [product_7, product_8] = Inr [product_7, product_8] \<and>
   clean_orders reads_nothing orders_raw = Inr [order_not_shipped, order_of_user_1] \<and>
   distinct (map o_order_id [order_not_shipped, order_of_user_1]) \<and>
   clean_orders reads_nothing [order_not_shipped, order_of_user_1] =
     Inr [order_not_shipped, order_of_user_1] \<and>
   clean_order_items reads_nothing order_items_raw =
     Inr [order_item 1 100 7, order_item 2 999 7] \<and>
   distinct (map oi_id [order_item 1 100 7, order_item 2 999 7]) \<and>
   clean_order_items reads_nothing [order_item 1 100 7, order_item 2 999 7] =
     Inr [order_item 1 100 7, order_item 2 999 7] \<and>
   clean_inventory_items reads_nothing inventory_items_raw =
     Inr [inventory_item_5, inventory_item_6] \<and>
   distinct (map inv_id [inventory_item_5, inventory_item_6]) \<and>
   clean_inventory_items reads_nothing [inventory_item_5, inventory_item_6] =
     Inr [inventory_item_5, inventory_item_6] \<and>
   clean_events reads_nothing events_raw = Inr [event 1 (Num 1), event_2_clean] \<and>
   distinct (map e_id [event 1 (Num 1), event_2_clean]) \<and>
   clean_events reads_nothing [event 1 (Num 1), event_2_clean] =
     Inr [event 1 (Num 1), event_2_clean] \<and>
   clean_distribution_centers reads_nothing distribution_centers_raw =
     Inr [distribution_center_3, distribution_center_4] \<and>
   distinct (map dc_id [distribution_center_3, distribution_center_4]) \<and>
   clean_distribution_centers reads_nothing [distribution_center_3, distribution_center_4] =
     Inr [distribution_center_3, distribution_center_4]"
proof -
  have u: "clean_users reads_nothing users_raw = Inr [user_1, user_2]"
    "[user_1, user_2] \<noteq> []" "users_titled reads_nothing [user_1, user_2]"
    by code_simp+
  have p: "clean_products reads_nothing products_raw = Inr [product_7, product_8]"
    "[product_7, product_8] \<noteq> []" "distinct (map p_id [product_7, product_8])"
    "products_titled reads_nothing [product_7, product_8]"
    by code_simp+
  have os: "clean_orders reads_nothing orders_raw = Inr [order_not_shipped, order_of_user_1]"
    "[order_not_shipped, order_of_user_1] \<noteq> []"
    "distinct (map o_order_id [order_not_shipped, order_of_user_1])"
    by code_simp+
  have oi: "clean_order_items reads_nothing order_items_raw =
              Inr [order_item 1 100 7, order_item 2 999 7]"
    "[order_item 1 100 7, order_item 2 999 7] \<noteq> []"
    "distinct (map oi_id [order_item 1 100 7, order_item 2 999 7])"
    by code_simp+
  have iv: "clean_inventory_items reads_nothing inventory_items_raw =
              Inr [inventory_item_5, inventory_item_6]"
    "[inventory_item_5, inventory_item_6] \<noteq> []"
    "distinct (map inv_id [inventory_item_5, inventory_item_6])"
    by code_simp+
  have e: "clean_events reads_nothing events_raw = Inr [event 1 (Num 1), event_2_clean]"
    "[event 1 (Num 1), event_2_clean] \<noteq> []"
    "distinct (map e_id [event 1 (Num 1), event_2_clean])"
    by code_simp+
  have d: "clean_distribution_centers reads_nothing distribution_centers_raw =
             Inr [distribution_center_3, distribution_center_4]"
    "distinct (map dc_id [distribution_center_3, distribution_center_4])"
    by code_simp+
  note fp = cleaning_fixed_point[of reads_nothing users_raw "[user_1, user_2]"
      products_raw "[product_7, product_8]"
      orders_raw "[order_not_shipped, order_of_user_1]"
      order_items_raw "[order_item 1 100 7, order_item 2 999 7]"
      inventory_items_raw "[inventory_item_5, inventory_item_6]"
      events_raw "[event 1 (Num 1), event_2_clean]"
      distribution_centers_raw "[distribution_center_3, distribution_center_4]"]
  have "clean_users reads_nothing [user_1, user_2] = Inr [user_1, user_2]"
    using fp u by blast
  moreover have "clean_products reads_nothing [product_7, product_8] = Inr [product_7, product_8]"
    using fp p by blast
  moreover have "clean_orders reads_nothing [order_not_shipped, order_of_user_1] =
     Inr [order_not_shipped, order_of_user_1]"
    using fp os by blast
  moreover have "clean_order_items reads_nothing [order_item 1 100 7, order_item 2 999 7] =
     Inr [order_item 1 100 7, order_item 2 999 7]"
    using fp oi by blast
  moreover have "clean_inventory_items reads_nothing [inventory_item_5, inventory_item_6] =
     Inr [inventory_item_5, inventory_item_6]"
    using fp iv by blast
  moreover have "clean_events reads_nothing [event 1 (Num 1), event_2_clean] =
     Inr [event 1 (Num 1), event_2_clean]"
    using fp e by blast
  moreover have "clean_distribution_centers reads_nothing
       [distribution_center_3, distribution_center_4] =
     Inr [distribution_center_3, distribution_center_4]"
    using fp d by blast
  ultimately show ?thesis using u p os oi iv e d by blast
qed

subsection \<open>A run of \<open>main\<close>: the files and the summary it leaves\<close>

lemma step_None:
  "step m f = (st', None) \<Longrightarrow> \<exists>st. m = (st, None) \<and> f st = (st', None)"
  by (cases m) (auto simp: step_def split: option.splits)

lemma process_file_None:
  assumes "process_file name f raw to_csv st = (st', None)"
  shows "(raw = None \<and> st' = st) \<or>
         (\<exists>df out. raw = Some df \<and> f df = Inr out \<and>
            st' = (to_csv out st)\<lparr>cleaning_summary := cleaning_summary st @
                     [\<lparr>table = name, original_rows = length df, clean_rows = length out,
                       removed_rows = int (length df) - int (length out),
                       clean_rows_after_RI = None\<rparr>]\<rparr>)"
  using assms by (auto simp: process_file_def split: option.splits sum.splits)

lemma clean_all_steps:
  assumes "clean_all rd raw st0 = (st, None)"
  obtains s1 s2 s3 s4 s5 s6 where
    "process_file ''users'' (clean_users rd) (users_csv raw)
       (\<lambda>df st. st\<lparr>users_cleaned := Some df\<rparr>) st0 = (s1, None)"
    "process_file ''products'' (clean_products rd) (products_csv raw)
       (\<lambda>df st. st\<lparr>products_cleaned := Some df\<rparr>) s1 = (s2, None)"
    "process_file ''orders'' (clean_orders rd) (orders_csv raw)
       (\<lambda>df st. st\<lparr>orders_cleaned := Some df\<rparr>) s2 = (s3, None)"
    "process_file ''order_items'' (clean_order_items rd) (order_items_csv raw)
       (\<lambda>df st. st\<lparr>order_items_cleaned := Some df\<rparr>) s3 = (s4, None)"
    "process_file ''inventory_items'' (clean_inventory_items rd) (inventory_items_csv raw)
       (\<lambda>df st. st\<lparr>inventory_items_cleaned := Some df\<rparr>) s4 = (s5, None)"
    "process_file ''events'' (clean_events rd) (events_csv raw)
       (\<lambda>df st. st\<lparr>events_cleaned := Some df\<rparr>) s5 = (s6, None)"
    "process_file ''distribution_centers'' (clean_distribution_centers rd)
       (distribution_centers_csv raw)
       (\<lambda>df st. st\<lparr>distribution_centers_cleaned := Some df\<rparr>) s6 = (st, None)"
proof -
  from assms[unfolded clean_all_def] obtain s1 where 1:
    "process_file ''users'' (clean_users rd) (users_csv raw)
       (\<lambda>df st. st\<lparr>users_cleaned := Some df\<rparr>) st0 = (s1, None)"
    and r1: "step (process_file ''products'' (clean_products rd) (products_csv raw)
             (\<lambda>df st. st\<lparr>products_cleaned := Some df\<rparr>) s1) (\<lambda>st.
     step (process_file ''orders'' (clean_orders rd) (orders_csv raw)
             (\<lambda>df st. st\<lparr>orders_cleaned := Some df\<rparr>) st) (\<lambda>st.
     step (process_file ''order_items'' (clean_order_items rd) (order_items_csv raw)
             (\<lambda>df st. st\<lparr>order_items_cleaned := Some df\<rparr>) st) (\<lambda>st.
     step (process_file ''inventory_items'' (clean_inventory_items rd) (inventory_items_csv raw)
             (\<lambda>df st. st\<lparr>inventory_items_cleaned := Some df\<rparr>) st) (\<lambda>st.
     step (process_file ''events'' (clean_events rd) (events_csv raw)
             (\<lambda>df st. st\<lparr>events_cleaned := Some df\<rparr>) st) (\<lambda>st.
     process_file ''distribution_centers'' (clean_distribution_centers rd)
             (distribution_centers_csv raw)
             (\<lambda>df st. st\<lparr>distribution_centers_cleaned := Some df\<rparr>) st))))) = (st, None)"
    by (blast dest: step_None)
  from r1 obtain s2 where 2:
    "process_file ''products'' (clean_products rd) (products_csv raw)
       (\<lambda>df st. st\<lparr>products_cleaned := Some df\<rparr>) s1 = (s2, None)"
    and r2: "step (process_file ''orders'' (clean_orders rd) (orders_csv raw)
             (\<lambda>df st. st\<lparr>orders_cleaned := Some df\<rparr>) s2) (\<lambda>st.
     step (process_file ''order_items'' (clean_order_items rd) (order_items_csv raw)
             (\<lambda>df st. st\<lparr>order_items_cleaned := Some df\<rparr>) st) (\<lambda>st.
     step (process_file ''inventory_items'' (clean_inventory_items rd) (inventory_items_csv raw)
             (\<lambda>df st. st\<lparr>inventory_items_cleaned := Some df\<rparr>) st) (\<lambda>st.
     step (process_file ''events'' (clean_events rd) (events_csv raw)
             (\<lambda>df st. st\<lparr>events_cleaned := Some df\<rparr>) st) (\<lambda>st.
     process_file ''distribution_centers'' (clean_distribution_centers rd)
             (distribution_centers_csv raw)
             (\<lambda>df st. st\<lparr>distribution_centers_cleaned := Some df\<rparr>) st)))) = (st, None)"
    by (blast dest: step_None)
  from r2 obtain s3 where 3:
    "process_file ''orders'' (clean_orders rd) (orders_csv raw)
       (\<lambda>df st. st\<lparr>orders_cleaned := Some df\<rparr>) s2 = (s3, None)"
    and r3: "step (process_file ''order_items'' (clean_order_items rd) (order_items_csv raw)
             (\<lambda>df st. st\<lparr>order_items_cleaned := Some df\<rparr>) s3) (\<lambda>st.
     step (process_file ''inventory_items'' (clean_inventory_items rd) (inventory_items_csv raw)
             (\<lambda>df st. st\<lparr>inventory_items_cleaned := Some df\<rparr>) st) (\<lambda>st.
     step (process_file ''events'' (clean_events rd) (events_csv raw)
             (\<lambda>df st. st\<lparr>events_cleaned := Some df\<rparr>) st) (\<lambda>st.
     process_file ''distribution_centers'' (clean_distribution_centers rd)
             (distribution_centers_csv raw)
             (\<lambda>df st. st\<lparr>distribution_centers_cleaned := Some df\<rparr>) st))) = (st, None)"
    by (blast dest: step_None)
  from r3 obtain s4 where 4:
    "process_file ''order_items'' (clean_order_items rd) (order_items_csv raw)
       (\<lambda>df st. st\<lparr>order_items_cleaned := Some df\<rparr>) s3 = (s4, None)"
    and r4: "step (process_file ''inventory_items'' (clean_inventory_items rd) (inventory_items_csv raw)
             (\<lambda>df st. st\<lparr>inventory_items_cleaned := Some df\<rparr>) s4) (\<lambda>st.
     step (process_file ''events'' (clean_events rd) (events_csv raw)
             (\<lambda>df st. st\<lparr>events_cleaned := Some df\<rparr>) st) (\<lambda>st.
     process_file ''distribution_centers'' (clean_distribution_centers rd)
             (distribution_centers_csv raw)
             (\<lambda>df st. st\<lparr>distribution_centers_cleaned := Some df\<rparr>) st)) = (st, None)"
    by (blast dest: step_None)
  from r4 obtain s5 where 5:
    "process_file ''inventory_items'' (clean_inventory_items rd) (inventory_items_csv raw)
       (\<lambda>df st. st\<lparr>inventory_items_cleaned := Some df\<rparr>) s4 = (s5, None)"
    and r5: "step (process_file ''events'' (clean_events rd) (events_csv raw)
             (\<lambda>df st. st\<lparr>events_cleaned := Some df\<rparr>) s5) (\<lambda>st.
     process_file ''distribution_centers'' (clean_distribution_centers rd)
             (distribution_centers_csv raw)
             (\<lambda>df st. st\<lparr>distribution_centers_cleaned := Some df\<rparr>) st) = (st, None)"
    by (blast dest: step_None)
  from r5 obtain s6 where 6:
    "process_file ''events'' (clean_events rd) (events_csv raw)
       (\<lambda>df st. st\<lparr>events_cleaned := Some df\<rparr>) s5 = (s6, None)"
    and 7: "process_file ''distribution_centers'' (clean_distribution_centers rd)
             (distribution_centers_csv raw)
             (\<lambda>df st. st\<lparr>distribution_centers_cleaned := Some df\<rparr>) s6 = (st, None)"
    by (blast dest: step_None)
  from 1 2 3 4 5 6 7 show thesis by (rule that)
qed

lemma process_users:
  assumes "process_file name f raw (\<lambda>df st. st\<lparr>users_cleaned := Some df\<rparr>) st = (st', None)"
  shows "products_cleaned st' = products_cleaned st"
    "orders_cleaned st' = orders_cleaned st"
    "order_items_cleaned st' = order_items_cleaned st"
    "inventory_items_cleaned st' = inventory_items_cleaned st"
    "events_cleaned st' = events_cleaned st"
    "distribution_centers_cleaned st' = distribution_centers_cleaned st"
    "\<forall>df. raw = Some df \<longrightarrow> (\<exists>out. f df = Inr out \<and> users_cleaned st' = Some out)"
  using process_file_None[OF assms] by auto

lemma process_products:
  assumes "process_file name f raw (\<lambda>df st. st\<lparr>products_cleaned := Some df\<rparr>) st = (st', None)"
  shows "users_cleaned st' = users_cleaned st"
    "orders_cleaned st' = orders_cleaned st"
    "order_items_cleaned st' = order_items_cleaned st"
    "inventory_items_cleaned st' = inventory_items_cleaned st"
    "events_cleaned st' = events_cleaned st"
    "distribution_centers_cleaned st' = distribution_centers_cleaned st"
    "\<forall>df. raw = Some df \<longrightarrow> (\<exists>out. f df = Inr out \<and> products_cleaned st' = Some out)"
  using process_file_None[OF assms] by auto

lemma process_orders:
  assumes "process_file name f raw (\<lambda>df st. st\<lparr>orders_cleaned := Some df\<rparr>) st = (st', None)"
  shows "users_cleaned st' = users_cleaned st"
    "products_cleaned st' = products_cleaned st"
    "order_items_cleaned st' = order_items_cleaned st"
    "inventory_items_cleaned st' = inventory_items_cleaned st"
    "events_cleaned st' = events_cleaned st"
    "distribution_centers_cleaned st' = distribution_centers_cleaned st"
    "\<forall>df. raw = Some df \<longrightarrow> (\<exists>out. f df = Inr out \<and> orders_cleaned st' = Some out)"
  using process_file_None[OF assms] by auto

lemma process_order_items:
  assumes "process_file name f raw (\<lambda>df st. st\<lparr>order_items_cleaned := Some df\<rparr>) st = (st', None)"
  shows "users_cleaned st' = users_cleaned st"
    "products_cleaned st' = products_cleaned st"
    "orders_cleaned st' = orders_cleaned st"
    "inventory_items_cleaned st' = inventory_items_cleaned st"
    "events_cleaned st' = events_cleaned st"
    "distribution_centers_cleaned st' = distribution_centers_cleaned st"
    "\<forall>df. raw = Some df \<longrightarrow> (\<exists>out. f df = Inr out \<and> order_items_cleaned st' = Some out)"
  using process_file_None[OF assms] by auto

lemma process_inventory_items:
  assumes "process_file name f raw (\<lambda>df st. st\<lparr>inventory_items_cleaned := Some df\<rparr>) st = (st', None)"
  shows "users_cleaned st' = users_cleaned st"
    "products_cleaned st' = products_cleaned st"
    "orders_cleaned st' = orders_cleaned st"
    "order_items_cleaned st' = order_items_cleaned st"
    "events_cleaned st' = events_cleaned st"
    "distribution_centers_cleaned st' = distribution_centers_cleaned st"
    "\<forall>df. raw = Some df \<longrightarrow> (\<exists>out. f df = Inr out \<and> inventory_items_cleaned st' = Some out)"
  using process_file_None[OF assms] by auto

lemma process_events:
  assumes "process_file name f raw (\<lambda>df st. st\<lparr>events_cleaned := Some df\<rparr>) st = (st', None)"
  shows "users_cleaned st' = users_cleaned st"
    "products_cleaned st' = products_cleaned st"
    "orders_cleaned st' = orders_cleaned st"
    "order_items_cleaned st' = order_items_cleaned st"
    "inventory_items_cleaned st' = inventory_items_cleaned st"
    "distribution_centers_cleaned st' = distribution_centers_cleaned st"
    "\<forall>df. raw = Some df \<longrightarrow> (\<exists>out. f df = Inr out \<and> events_cleaned st' = Some out)"
  using process_file_None[OF assms] by auto

lemma process_distribution_centers:
  assumes "process_file name f raw (\<lambda>df st. st\<lparr>distribution_centers_cleaned := Some df\<rparr>) st = (st', None)"
  shows "users_cleaned st' = users_cleaned st"
    "products_cleaned st' = products_cleaned st"
    "orders_cleaned st' = orders_cleaned st"
    "order_items_cleaned st' = order_items_cleaned st"
    "inventory_items_cleaned st' = inventory_items_cleaned st"
    "events_cleaned st' = events_cleaned st"
    "\<forall>df. raw = Some df \<longrightarrow> (\<exists>out. f df = Inr out \<and> distribution_centers_cleaned st' = Some out)"
  using process_file_None[OF assms] by auto

lemma clean_all_files:
  assumes "clean_all rd raw st0 = (st, None)"
  shows "\<forall>df. users_csv raw = Some df \<longrightarrow> (\<exists>out. clean_users rd df = Inr out \<and> users_cleaned st = Some out)"
    "\<forall>df. products_csv raw = Some df \<longrightarrow> (\<exists>out. clean_products rd df = Inr out \<and> products_cleaned st = Some out)"
    "\<forall>df. orders_csv raw = Some df \<longrightarrow> (\<exists>out. clean_orders rd df = Inr out \<and> orders_cleaned st = Some out)"
    "\<forall>df. order_items_csv raw = Some df \<longrightarrow> (\<exists>out. clean_order_items rd df = Inr out \<and> order_items_cleaned st = Some out)"
    "\<forall>df. inventory_items_csv raw = Some df \<longrightarrow> (\<exists>out. clean_inventory_items rd df = Inr out \<and> inventory_items_cleaned st = Some out)"
    "\<forall>df. events_csv raw = Some df \<longrightarrow> (\<exists>out. clean_events rd df = Inr out \<and> events_cleaned st = Some out)"
    "\<forall>df. distribution_centers_csv raw = Some df \<longrightarrow> (\<exists>out. clean_distribution_centers rd df = Inr out \<and> distribution_centers_cleaned st = Some out)"
proof -
  from assms obtain s1 s2 s3 s4 s5 s6 where
    p1: "process_file ''users'' (clean_users rd) (users_csv raw)
       (\<lambda>df st. st\<lparr>users_cleaned := Some df\<rparr>) st0 = (s1, None)" and
    p2: "process_file ''products'' (clean_products rd) (products_csv raw)
       (\<lambda>df st. st\<lparr>products_cleaned := Some df\<rparr>) s1 = (s2, None)" and
    p3: "process_file ''orders'' (clean_orders rd) (orders_csv raw)
       (\<lambda>df st. st\<lparr>orders_cleaned := Some df\<rparr>) s2 = (s3, None)" and
    p4: "process_file ''order_items'' (clean_order_items rd) (order_items_csv raw)
       (\<lambda>df st. st\<lparr>order_items_cleaned := Some df\<rparr>) s3 = (s4, None)" and
    p5: "process_file ''inventory_items'' (clean_inventory_items rd) (inventory_items_csv raw)
       (\<lambda>df st. st\<lparr>inventory_items_cleaned := Some df\<rparr>) s4 = (s5, None)" and
    p6: "process_file ''events'' (clean_events rd) (events_csv raw)
       (\<lambda>df st. st\<lparr>events_cleaned := Some df\<rparr>) s5 = (s6, None)" and
    p7: "process_file ''distribution_centers'' (clean_distribution_centers rd) (distribution_centers_csv raw)
       (\<lambda>df st. st\<lparr>distribution_centers_cleaned := Some df\<rparr>) s6 = (st, None)"
    by (rule clean_all_steps)
  show "\<forall>df. users_csv raw = Some df \<longrightarrow> (\<exists>out. clean_users rd df = Inr out \<and> users_cleaned st = Some out)"
    using process_users[OF p1] process_products[OF p2] process_orders[OF p3] process_order_items[OF p4] process_inventory_items[OF p5] process_events[OF p6] process_distribution_centers[OF p7] by simp
  show "\<forall>df. products_csv raw = Some df \<longrightarrow> (\<exists>out. clean_products rd df = Inr out \<and> products_cleaned st = Some out)"
    using process_products[OF p2] process_orders[OF p3] process_order_items[OF p4] process_inventory_items[OF p5] process_events[OF p6] process_distribution_centers[OF p7] by simp
  show "\<forall>df. orders_csv raw = Some df \<longrightarrow> (\<exists>out. clean_orders rd df = Inr out \<and> orders_cleaned st = Some out)"
    using process_orders[OF p3] process_order_items[OF p4] process_inventory_items[OF p5] process_events[OF p6] process_distribution_centers[OF p7] by simp
  show "\<forall>df. order_items_csv raw = Some df \<longrightarrow> (\<exists>out. clean_order_items rd df = Inr out \<and> order_items_cleaned st = Some out)"
    using process_order_items[OF p4] process_inventory_items[OF p5] process_events[OF p6] process_distribution_centers[OF p7] by simp
  show "\<forall>df. inventory_items_csv raw = Some df \<longrightarrow> (\<exists>out. clean_inventory_items rd df = Inr out \<and> inventory_items_cleaned st = Some out)"
    using process_inventory_items[OF p5] process_events[OF p6] process_distribution_centers[OF p7] by simp
  show "\<forall>df. events_csv raw = Some df \<longrightarrow> (\<exists>out. clean_events rd df = Inr out \<and> events_cleaned st = Some out)"
    using process_events[OF p6] process_distribution_centers[OF p7] by simp
  show "\<forall>df. distribution_centers_csv raw = Some df \<longrightarrow> (\<exists>out. clean_distribution_centers rd df = Inr out \<and> distribution_centers_cleaned st = Some out)"
    using process_distribution_centers[OF p7] by simp
qed

lemma ri_unrelated_files:
  "inventory_items_cleaned (ri_events_users st) = inventory_items_cleaned st"
  "distribution_centers_cleaned (ri_events_users st) = distribution_centers_cleaned st"
  "inventory_items_cleaned (ri_orders_users st) = inventory_items_cleaned st"
  "distribution_centers_cleaned (ri_orders_users st) = distribution_centers_cleaned st"
  by (simp_all add: ri_events_users_def ri_orders_users_def Let_def split: option.splits)

lemma ri_order_items_unrelated_files:
  "inventory_items_cleaned (ri_order_items st) = inventory_items_cleaned st"
  "distribution_centers_cleaned (ri_order_items st) = distribution_centers_cleaned st"
  by (simp_all add: ri_order_items_def Let_def ri_unrelated_files split: option.splits)

lemma map_option_filter_True: "map_option (filter (\<lambda>r. True)) x = x"
  by (cases x) simp_all

lemma ri_orders_users_filters:
  "\<exists>P. orders_cleaned (ri_orders_users st) = map_option (filter P) (orders_cleaned st)"
proof (cases "users_cleaned st = None \<or> orders_cleaned st = None")
  case True
  then have "ri_orders_users st = st" by (rule ri_orders_users_skipped)
  then have "orders_cleaned (ri_orders_users st) = map_option (filter (\<lambda>r. True)) (orders_cleaned st)"
    by (simp add: map_option_filter_True)
  then show ?thesis by blast
next
  case False
  then obtain u os where "users_cleaned st = Some u" "orders_cleaned st = Some os" by auto
  then have "orders_cleaned (ri_orders_users st) =
      map_option (filter (\<lambda>r. o_user_id r \<in> set (map u_id u))) (orders_cleaned st)"
    by (simp add: ri_orders_users_evaluated)
  then show ?thesis by blast
qed

lemma ri_events_users_filters:
  "\<exists>P. events_cleaned (ri_events_users st) = map_option (filter P) (events_cleaned st)"
proof (cases "users_cleaned st = None \<or> events_cleaned st = None")
  case True
  then have "ri_events_users st = st" by (rule ri_events_users_skipped)
  then have "events_cleaned (ri_events_users st) = map_option (filter (\<lambda>r. True)) (events_cleaned st)"
    by (simp add: map_option_filter_True)
  then show ?thesis by blast
next
  case False
  then obtain u es where a: "users_cleaned st = Some u" "events_cleaned st = Some es" by auto
  then have "events_cleaned (ri_events_users st) =
      map_option (filter (\<lambda>r. e_user_id r = NA \<or> e_user_id r \<in> set (map u_id u))) (events_cleaned st)"
    by (simp add: ri_events_users_def Let_def isin_valid_ids)
  then show ?thesis by blast
qed

lemma ri_order_items_filters:
  "(\<exists>P. order_items_cleaned (ri_order_items st) = map_option (filter P) (order_items_cleaned st)) \<and>
   (\<exists>P. events_cleaned (ri_order_items st) = map_option (filter P) (events_cleaned st))"
proof (cases "orders_cleaned st = None \<or> products_cleaned st = None \<or> order_items_cleaned st = None")
  case True
  then have "ri_order_items st = st" by (rule ri_order_items_skipped)
  then have "order_items_cleaned (ri_order_items st) =
               map_option (filter (\<lambda>r. True)) (order_items_cleaned st)"
    "events_cleaned (ri_order_items st) = map_option (filter (\<lambda>r. True)) (events_cleaned st)"
    by (simp_all add: map_option_filter_True)
  then show ?thesis by blast
next
  case False
  then obtain os p oi where a: "orders_cleaned st = Some os" "products_cleaned st = Some p"
    "order_items_cleaned st = Some oi" by auto
  from order_items_file_after[OF a] a(3)
  have 1: "\<exists>P. order_items_cleaned (ri_order_items st) = map_option (filter P) (order_items_cleaned st)"
    by (metis option.map(2))
  have "\<exists>m. ri_order_items st = ri_events_users m \<and> events_cleaned m = events_cleaned st"
    using a by (auto simp: ri_order_items_def Let_def)
  then obtain m where m: "ri_order_items st = ri_events_users m" "events_cleaned m = events_cleaned st"
    by blast
  from ri_events_users_filters[of m] m
  have 2: "\<exists>P. events_cleaned (ri_order_items st) = map_option (filter P) (events_cleaned st)"
    by simp
  from 1 2 show ?thesis by blast
qed

lemma ri_files_are_filters:
  fixes st :: state
  defines "st' \<equiv> ri_order_items (ri_orders_users st)"
  shows "(\<exists>P. orders_cleaned st' = map_option (filter P) (orders_cleaned st)) \<and>
         (\<exists>P. order_items_cleaned st' = map_option (filter P) (order_items_cleaned st)) \<and>
         (\<exists>P. events_cleaned st' = map_option (filter P) (events_cleaned st)) \<and>
         users_cleaned st' = users_cleaned st \<and> products_cleaned st' = products_cleaned st"
  unfolding st'_def
  using ri_orders_users_filters[of st] ri_order_items_filters[of "ri_orders_users st"]
  by (simp add: ri_order_items_other_files ri_orders_users_other_files)


lemma main_state:
  assumes "main rd raw disk = (st, None)"
  obtains s where "clean_all rd raw (disk\<lparr>cleaning_summary := []\<rparr>) = (s, None)"
    and "st = ri_order_items (ri_orders_users s)"
proof -
  from assms[unfolded main_def] obtain s where
    a: "clean_all rd raw (disk\<lparr>cleaning_summary := []\<rparr>) = (s, None)"
    and b: "report (ri_order_items (ri_orders_users s)) = (st, None)"
    by (blast dest: step_None)
  from b have "st = ri_order_items (ri_orders_users s)"
    by (simp add: report_def split: if_splits)
  with a show thesis by (rule that)
qed

lemma main_files:
  assumes "main rd raw disk = (st, None)"
  shows
    "\<forall>df. users_csv raw = Some df \<longrightarrow>
       (\<exists>out. clean_users rd df = Inr out \<and> users_cleaned st = Some out)"
    "\<forall>df. products_csv raw = Some df \<longrightarrow>
       (\<exists>out. clean_products rd df = Inr out \<and> products_cleaned st = Some out)"
    "\<forall>df. orders_csv raw = Some df \<longrightarrow>
       (\<exists>out P. clean_orders rd df = Inr out \<and> orders_cleaned st = Some (filter P out))"
    "\<forall>df. order_items_csv raw = Some df \<longrightarrow>
       (\<exists>out P. clean_order_items rd df = Inr out \<and>
          order_items_cleaned st = Some (filter P out))"
    "\<forall>df. inventory_items_csv raw = Some df \<longrightarrow>
       (\<exists>out. clean_inventory_items rd df = Inr out \<and>
          inventory_items_cleaned st = Some out)"
    "\<forall>df. events_csv raw = Some df \<longrightarrow>
       (\<exists>out P. clean_events rd df = Inr out \<and> events_cleaned st = Some (filter P out))"
    "\<forall>df. distribution_centers_csv raw = Some df \<longrightarrow>
       (\<exists>out. clean_distribution_centers rd df = Inr out \<and>
          distribution_centers_cleaned st = Some out)"
proof -
  from assms obtain s where c: "clean_all rd raw (disk\<lparr>cleaning_summary := []\<rparr>) = (s, None)"
    and st: "st = ri_order_items (ri_orders_users s)"
    by (rule main_state)
  note f = clean_all_files[OF c]
  from ri_files_are_filters[of s] st obtain Po Pi Pe where
    o: "orders_cleaned st = map_option (filter Po) (orders_cleaned s)" and
    i: "order_items_cleaned st = map_option (filter Pi) (order_items_cleaned s)" and
    e: "events_cleaned st = map_option (filter Pe) (events_cleaned s)" and
    u: "users_cleaned st = users_cleaned s" and
    p: "products_cleaned st = products_cleaned s"
    by auto
  have v: "inventory_items_cleaned st = inventory_items_cleaned s"
    and d: "distribution_centers_cleaned st = distribution_centers_cleaned s"
    unfolding st by (simp_all add: ri_order_items_unrelated_files ri_unrelated_files)
  show "\<forall>df. users_csv raw = Some df \<longrightarrow>
       (\<exists>out. clean_users rd df = Inr out \<and> users_cleaned st = Some out)"
    using f(1) u by simp
  show "\<forall>df. products_csv raw = Some df \<longrightarrow>
       (\<exists>out. clean_products rd df = Inr out \<and> products_cleaned st = Some out)"
    using f(2) p by simp
  show "\<forall>df. orders_csv raw = Some df \<longrightarrow>
       (\<exists>out P. clean_orders rd df = Inr out \<and> orders_cleaned st = Some (filter P out))"
    using f(3) o by fastforce
  show "\<forall>df. order_items_csv raw = Some df \<longrightarrow>
       (\<exists>out P. clean_order_items rd df = Inr out \<and>
          order_items_cleaned st = Some (filter P out))"
    using f(4) i by fastforce
  show "\<forall>df. inventory_items_csv raw = Some df \<longrightarrow>
       (\<exists>out. clean_inventory_items rd df = Inr out \<and>
          inventory_items_cleaned st = Some out)"
    using f(5) v by simp
  show "\<forall>df. events_csv raw = Some df \<longrightarrow>
       (\<exists>out P. clean_events rd df = Inr out \<and> events_cleaned st = Some (filter P out))"
    using f(6) e by fastforce
  show "\<forall>df. distribution_centers_csv raw = Some df \<longrightarrow>
       (\<exists>out. clean_distribution_centers rd df = Inr out \<and>
          distribution_centers_cleaned st = Some out)"
    using f(7) d by simp
qed

lemma file_rows_summary:
  "file_rows (st\<lparr>cleaning_summary := cs\<rparr>) = file_rows st"
  by (simp add: file_rows_def fun_eq_iff)

lemma process_file_summary:
  assumes p: "process_file name f raw to_csv st = (st', None)"
    and len: "\<And>df out. f df = Inr out \<Longrightarrow> length out \<le> length df"
    and csv: "\<And>out s. file_rows (to_csv out s) = (file_rows s)(name := Some (length out))"
    and inv: "summary_inv st"
    and names: "table ` set (cleaning_summary st) \<subseteq> N" "name \<notin> N"
  shows "summary_inv st' \<and> table ` set (cleaning_summary st') \<subseteq> insert name N"
proof -
  from process_file_None[OF p] show ?thesis
  proof (elim disjE conjE exE)
    assume "st' = st"
    with inv names show ?thesis by auto
  next
    fix df out
    assume f: "f df = Inr out"
      and st': "st' = (to_csv out st)\<lparr>cleaning_summary := cleaning_summary st @
                     [\<lparr>table = name, original_rows = length df, clean_rows = length out,
                       removed_rows = int (length df) - int (length out),
                       clean_rows_after_RI = None\<rparr>]\<rparr>"
    have fr: "file_rows st' = (file_rows st)(name := Some (length out))"
      unfolding st' by (simp add: csv file_rows_summary)
    have cs: "cleaning_summary st' = cleaning_summary st @
                     [\<lparr>table = name, original_rows = length df, clean_rows = length out,
                       removed_rows = int (length df) - int (length out),
                       clean_rows_after_RI = None\<rparr>]"
      unfolding st' by simp
    have old: "counts_ok entry \<and> (\<forall>m. file_rows st' (table entry) = Some m \<longrightarrow> m \<le> clean_rows entry)"
      if "entry \<in> set (cleaning_summary st)" for entry
    proof -
      from that names have "table entry \<noteq> name" by auto
      with inv that show ?thesis by (simp add: summary_inv_def fr)
    qed
    have new: "counts_ok \<lparr>table = name, original_rows = length df, clean_rows = length out,
                       removed_rows = int (length df) - int (length out),
                       clean_rows_after_RI = None\<rparr>"
      using len[OF f] by (simp add: counts_ok_def)
    have "summary_inv st'"
      unfolding summary_inv_def cs using old new by (auto simp: fr)
    moreover have "table ` set (cleaning_summary st') \<subseteq> insert name N"
      unfolding cs using names by auto
    ultimately show ?thesis by simp
  qed
qed

lemma set_after_RI_summary:
  assumes inv: "summary_inv st"
    and m: "file_rows st name = Some m" and n: "n \<le> m"
    and fr: "file_rows st' = (file_rows st)(name := Some n)"
    and cs: "cleaning_summary st' = set_after_RI name n (cleaning_summary st)"
  shows "summary_inv st'"
proof -
  have "counts_ok e \<and> (\<forall>k. file_rows st' (table e) = Some k \<longrightarrow> k \<le> clean_rows e)"
    if e: "e \<in> set (cleaning_summary st')" for e
  proof -
    from e obtain entry where r: "entry \<in> set (cleaning_summary st)"
      and e': "e = (if table entry = name then entry\<lparr>clean_rows_after_RI := Some n\<rparr> else entry)"
      unfolding cs set_after_RI_def by auto
    from inv r have c: "counts_ok entry"
      and k: "\<forall>k. file_rows st (table entry) = Some k \<longrightarrow> k \<le> clean_rows entry"
      by (simp_all add: summary_inv_def)
    show ?thesis
    proof (cases "table entry = name")
      case True
      with k m have "m \<le> clean_rows entry" by simp
      with n c True show ?thesis unfolding e' by (simp add: counts_ok_def fr)
    next
      case False
      with c k show ?thesis unfolding e' by (simp add: fr)
    qed
  qed
  then show ?thesis unfolding summary_inv_def by blast
qed

lemma ri_orders_users_summary:
  assumes "summary_inv st"
  shows "summary_inv (ri_orders_users st)"
proof (cases "users_cleaned st = None \<or> orders_cleaned st = None")
  case True
  then have "ri_orders_users st = st" by (rule ri_orders_users_skipped)
  with assms show ?thesis by simp
next
  case False
  then obtain u os where a: "users_cleaned st = Some u" "orders_cleaned st = Some os" by auto
  define n where "n = length (filter (\<lambda>r. isin (o_user_id r) (map u_id u)) os)"
  show ?thesis
  proof (rule set_after_RI_summary[OF assms, of "''orders''" "length os" n])
    show "file_rows st ''orders'' = Some (length os)" using a by (simp add: file_rows_def)
    show "n \<le> length os" by (simp add: n_def)
    show "file_rows (ri_orders_users st) = (file_rows st)(''orders'' := Some n)"
      using a by (simp add: ri_orders_users_def Let_def file_rows_def fun_eq_iff n_def)
    show "cleaning_summary (ri_orders_users st) = set_after_RI ''orders'' n (cleaning_summary st)"
      using a by (simp add: ri_orders_users_def Let_def n_def)
  qed
qed

lemma ri_events_users_summary:
  assumes "summary_inv st"
  shows "summary_inv (ri_events_users st)"
proof (cases "users_cleaned st = None \<or> events_cleaned st = None")
  case True
  then have "ri_events_users st = st" by (rule ri_events_users_skipped)
  with assms show ?thesis by simp
next
  case False
  then obtain u es where a: "users_cleaned st = Some u" "events_cleaned st = Some es" by auto
  define n where "n = length (filter (\<lambda>r. cell_isna (e_user_id r) \<or>
      isin (e_user_id r) (remdups (filter (\<lambda>c. \<not> cell_isna c) (map u_id u)))) es)"
  show ?thesis
  proof (rule set_after_RI_summary[OF assms, of "''events''" "length es" n])
    show "file_rows st ''events'' = Some (length es)" using a by (simp add: file_rows_def)
    show "n \<le> length es" by (simp add: n_def)
    show "file_rows (ri_events_users st) = (file_rows st)(''events'' := Some n)"
      using a by (simp add: ri_events_users_def Let_def file_rows_def fun_eq_iff n_def)
    show "cleaning_summary (ri_events_users st) = set_after_RI ''events'' n (cleaning_summary st)"
      using a by (simp add: ri_events_users_def Let_def n_def)
  qed
qed

lemma ri_order_items_summary:
  assumes "summary_inv st"
  shows "summary_inv (ri_order_items st)"
proof (cases "orders_cleaned st = None \<or> products_cleaned st = None \<or> order_items_cleaned st = None")
  case True
  then have "ri_order_items st = st" by (rule ri_order_items_skipped)
  with assms show ?thesis by simp
next
  case False
  then obtain os p oi where a: "orders_cleaned st = Some os" "products_cleaned st = Some p"
    "order_items_cleaned st = Some oi" by auto
  define n where "n = length (filter (\<lambda>r. isin (oi_order_id r) (map o_order_id os) \<and>
      isin (oi_product_id r) (map p_id p)) oi)"
  define st1 where "st1 =
    (if map (\<lambda>r. (oi_id r, oi_order_id r, oi_product_id r))
          (filter (\<lambda>r. \<not> isin (oi_order_id r) (map o_order_id os)) oi) \<noteq> []
     then st\<lparr>oi_missing_orders := Some (map (\<lambda>r. (oi_id r, oi_order_id r, oi_product_id r))
          (filter (\<lambda>r. \<not> isin (oi_order_id r) (map o_order_id os)) oi))\<rparr> else st)"
  define st2 where "st2 =
    (if map (\<lambda>r. (oi_id r, oi_order_id r, oi_product_id r))
          (filter (\<lambda>r. \<not> isin (oi_product_id r) (map p_id p)) oi) \<noteq> []
     then st1\<lparr>oi_missing_products := Some (map (\<lambda>r. (oi_id r, oi_order_id r, oi_product_id r))
          (filter (\<lambda>r. \<not> isin (oi_product_id r) (map p_id p)) oi))\<rparr> else st1)"
  define mid where "mid =
    st2\<lparr>order_items_cleaned := Some (filter (\<lambda>r. isin (oi_order_id r) (map o_order_id os) \<and>
                  isin (oi_product_id r) (map p_id p)) oi),
        cleaning_summary := set_after_RI ''order_items'' n (cleaning_summary st2)\<rparr>"
  have m: "ri_order_items st = ri_events_users mid"
    "file_rows mid = (file_rows st)(''order_items'' := Some n)"
    "cleaning_summary mid = set_after_RI ''order_items'' n (cleaning_summary st)"
    using a by (simp_all add: ri_order_items_def Let_def file_rows_def fun_eq_iff n_def
                  mid_def st2_def st1_def)
  have "summary_inv mid"
  proof (rule set_after_RI_summary[OF assms, of "''order_items''" "length oi" n])
    show "file_rows st ''order_items'' = Some (length oi)" using a by (simp add: file_rows_def)
    show "n \<le> length oi" by (simp add: n_def)
  qed (rule m(2), rule m(3))
  then show ?thesis unfolding m(1) by (rule ri_events_users_summary)
qed

lemma clean_all_summary:
  assumes c: "clean_all rd raw st0 = (st, None)" and e: "cleaning_summary st0 = []"
  shows "summary_inv st"
proof -
  from c obtain s1 s2 s3 s4 s5 s6 where
    p1: "process_file ''users'' (clean_users rd) (users_csv raw)
       (\<lambda>df st. st\<lparr>users_cleaned := Some df\<rparr>) st0 = (s1, None)" and
    p2: "process_file ''products'' (clean_products rd) (products_csv raw)
       (\<lambda>df st. st\<lparr>products_cleaned := Some df\<rparr>) s1 = (s2, None)" and
    p3: "process_file ''orders'' (clean_orders rd) (orders_csv raw)
       (\<lambda>df st. st\<lparr>orders_cleaned := Some df\<rparr>) s2 = (s3, None)" and
    p4: "process_file ''order_items'' (clean_order_items rd) (order_items_csv raw)
       (\<lambda>df st. st\<lparr>order_items_cleaned := Some df\<rparr>) s3 = (s4, None)" and
    p5: "process_file ''inventory_items'' (clean_inventory_items rd) (inventory_items_csv raw)
       (\<lambda>df st. st\<lparr>inventory_items_cleaned := Some df\<rparr>) s4 = (s5, None)" and
    p6: "process_file ''events'' (clean_events rd) (events_csv raw)
       (\<lambda>df st. st\<lparr>events_cleaned := Some df\<rparr>) s5 = (s6, None)" and
    p7: "process_file ''distribution_centers'' (clean_distribution_centers rd)
       (distribution_centers_csv raw)
       (\<lambda>df st. st\<lparr>distribution_centers_cleaned := Some df\<rparr>) s6 = (st, None)"
    by (rule clean_all_steps)
  have i0: "summary_inv st0" "table ` set (cleaning_summary st0) \<subseteq> {}"
    using e by (simp_all add: summary_inv_def)
  have i1: "summary_inv s1 \<and> table ` set (cleaning_summary s1) \<subseteq> {''users''}"
    by (rule process_file_summary[OF p1 clean_users_length _ i0])
       (simp_all add: file_rows_def fun_eq_iff)
  have i2: "summary_inv s2 \<and>
      table ` set (cleaning_summary s2) \<subseteq> {''products'', ''users''}"
    by (rule process_file_summary[OF p2 clean_products_length _ conjunct1[OF i1] conjunct2[OF i1]])
       (simp_all add: file_rows_def fun_eq_iff)
  have i3: "summary_inv s3 \<and>
      table ` set (cleaning_summary s3) \<subseteq> {''orders'', ''products'', ''users''}"
    by (rule process_file_summary[OF p3 clean_orders_length _ conjunct1[OF i2] conjunct2[OF i2]])
       (simp_all add: file_rows_def fun_eq_iff)
  have i4: "summary_inv s4 \<and>
      table ` set (cleaning_summary s4) \<subseteq> {''order_items'', ''orders'', ''products'', ''users''}"
    by (rule process_file_summary[OF p4 clean_order_items_length _ conjunct1[OF i3] conjunct2[OF i3]])
       (simp_all add: file_rows_def fun_eq_iff)
  have i5: "summary_inv s5 \<and>
      table ` set (cleaning_summary s5) \<subseteq>
        {''inventory_items'', ''order_items'', ''orders'', ''products'', ''users''}"
    by (rule process_file_summary[OF p5 clean_inventory_items_length _ conjunct1[OF i4] conjunct2[OF i4]])
       (simp_all add: file_rows_def fun_eq_iff)
  have i6: "summary_inv s6 \<and>
      table ` set (cleaning_summary s6) \<subseteq>
        {''events'', ''inventory_items'', ''order_items'', ''orders'', ''products'', ''users''}"
    by (rule process_file_summary[OF p6 clean_events_length _ conjunct1[OF i5] conjunct2[OF i5]])
       (simp_all add: file_rows_def fun_eq_iff)
  have i7: "summary_inv st \<and>
      table ` set (cleaning_summary st) \<subseteq>
        {''distribution_centers'', ''events'', ''inventory_items'', ''order_items'', ''orders'',
         ''products'', ''users''}"
    by (rule process_file_summary[OF p7 clean_distribution_centers_length _
          conjunct1[OF i6] conjunct2[OF i6]])
       (simp_all add: file_rows_def fun_eq_iff)
  then show ?thesis by simp
qed

lemma main_summary:
  assumes "main rd raw disk = (st, None)"
  shows "summary_inv st"
proof -
  from assms obtain s where c: "clean_all rd raw (disk\<lparr>cleaning_summary := []\<rparr>) = (s, None)"
    and st: "st = ri_order_items (ri_orders_users s)"
    by (rule main_state)
  have "summary_inv s" by (rule clean_all_summary[OF c]) simp
  then show ?thesis unfolding st by (intro ri_order_items_summary ri_orders_users_summary)
qed

subsection \<open>Unique keys\<close>

lemma drop_from_find:
  "r \<in> set (drop_from seen key df) \<longleftrightarrow>
   key r \<notin> set seen \<and> find (\<lambda>x. key x = key r) df = Some r"
  by (induction df arbitrary: seen) auto

lemma drop_duplicates_find:
  "r \<in> set (drop_duplicates key df) \<longleftrightarrow> find (\<lambda>x. key x = key r) df = Some r"
  by (simp add: drop_duplicates_def drop_from_find)

lemma find_Some_key: "find (\<lambda>x. key x = k) df = Some r \<Longrightarrow> key r = k"
  by (auto simp: find_Some_iff)

lemma keys_first_occurrence:
  "k \<in> set (map key (filter keep (drop_duplicates key df))) \<longleftrightarrow>
   (\<exists>r. find (\<lambda>x. key x = k) df = Some r \<and> keep r)"
proof
  assume "k \<in> set (map key (filter keep (drop_duplicates key df)))"
  then obtain r where "r \<in> set (drop_duplicates key df)" "keep r" "key r = k" by auto
  then show "\<exists>r. find (\<lambda>x. key x = k) df = Some r \<and> keep r"
    by (auto simp: drop_duplicates_find)
next
  assume "\<exists>r. find (\<lambda>x. key x = k) df = Some r \<and> keep r"
  then obtain r where r: "find (\<lambda>x. key x = k) df = Some r" "keep r" by blast
  from r(1) have k: "key r = k" by (rule find_Some_key)
  with r(1) have "r \<in> set (drop_duplicates key df)" by (simp add: drop_duplicates_find)
  with r(2) k show "k \<in> set (map key (filter keep (drop_duplicates key df)))" by force
qed

lemma cleaned_by_keys:
  assumes "cleaned_by key keep rewrite coerce df = Inr out"
    and "\<And>r. key (rewrite r) = key r"
    and "\<And>xs ys. coerce xs = Inr ys \<Longrightarrow> \<forall>r\<in>set xs. ok (key r) \<Longrightarrow> map key ys = map key xs"
    and "\<forall>r\<in>set df. ok (key r)"
  shows "map key out = map key (filter keep (drop_duplicates key df))"
proof -
  let ?pre = "map rewrite (filter keep (drop_duplicates key df))"
  have c: "coerce ?pre = Inr out" using assms(1) by (simp add: cleaned_by_def)
  have "\<forall>r\<in>set ?pre. ok (key r)"
    using assms(4) drop_duplicates_subset[of key df] by (auto simp: assms(2))
  from assms(3)[OF c this] show ?thesis
    by (simp add: assms(2) o_def)
qed

lemma clean_users_keys:
  assumes "clean_users rd df = Inr out"
  shows "map u_email out = map u_email (filter (users_keep rd) (drop_duplicates u_email df))"
proof -
  from assms have c: "cleaned_by u_email (users_keep rd) (users_row rd) (users_coerce rd) df = Inr out"
    by (simp add: clean_users_Inr)
  show ?thesis
  proof (rule cleaned_by_keys[OF c, where ok = "\<lambda>_. True"])
    show "u_email (users_row rd r) = u_email r" for r by (simp add: users_row_def)
    show "map u_email ys = map u_email xs" if "users_coerce rd xs = Inr ys" for xs ys
      using that unfolding users_coerce_def by (rule astype_map_other) simp
  qed simp
qed

lemma clean_products_keys:
  assumes "clean_products rd df = Inr out" and "\<forall>r\<in>set df. \<not> is_text (p_id r)"
  shows "map p_id out = map p_id (filter products_keep (drop_duplicates p_id df))"
proof -
  from assms have c: "cleaned_by p_id products_keep (products_row rd) (products_coerce rd) df = Inr out"
    by (simp add: clean_products_Inr)
  show ?thesis
  proof (rule cleaned_by_keys[OF c, where ok = "\<lambda>k. \<not> is_text k"])
    show "p_id (products_row rd r) = p_id r" for r by (simp add: products_row_def)
    show "map p_id ys = map p_id xs"
      if "products_coerce rd xs = Inr ys" "\<forall>r\<in>set xs. \<not> is_text (p_id r)" for xs ys
      by (rule list_all2_map_key[OF products_coerce_rows[OF that(1)]])
         (use that(2) to_Int64_numeric in fastforce)
  qed (rule assms(2))
qed

lemma clean_distribution_centers_keys:
  assumes "clean_distribution_centers rd df = Inr out" and "\<forall>r\<in>set df. \<not> is_text (dc_id r)"
  shows "map dc_id out = map dc_id (filter (\<lambda>r. True) (drop_duplicates dc_id df))"
proof -
  from assms have c: "cleaned_by dc_id (\<lambda>r. True) distribution_centers_row
      (distribution_centers_coerce rd) df = Inr out"
    by (simp add: clean_distribution_centers_normal)
  show ?thesis
  proof (rule cleaned_by_keys[OF c, where ok = "\<lambda>k. \<not> is_text k"])
    show "dc_id (distribution_centers_row r) = dc_id r" for r
      by (simp add: distribution_centers_row_def)
    show "map dc_id ys = map dc_id xs"
      if "distribution_centers_coerce rd xs = Inr ys" "\<forall>r\<in>set xs. \<not> is_text (dc_id r)" for xs ys
      by (rule list_all2_map_key[OF distribution_centers_coerce_rows[OF that(1)]])
         (use that(2) to_Int64_numeric in fastforce)
  qed (rule assms(2))
qed

lemma clean_orders_keys:
  assumes "clean_orders rd df = Inr out" and "\<forall>r\<in>set df. \<not> is_text (o_order_id r)"
  shows "map o_order_id out = map o_order_id (filter (orders_keep rd) (drop_duplicates o_order_id df))"
proof -
  from assms have c: "cleaned_by o_order_id (orders_keep rd) (orders_to_datetime rd)
      (orders_coerce rd) df = Inr out"
    by (simp add: clean_orders_Inr)
  show ?thesis
  proof (rule cleaned_by_keys[OF c, where ok = "\<lambda>k. \<not> is_text k"])
    show "o_order_id (orders_to_datetime rd r) = o_order_id r" for r
      by (simp add: orders_to_datetime_def)
    show "map o_order_id ys = map o_order_id xs"
      if "orders_coerce rd xs = Inr ys" "\<forall>r\<in>set xs. \<not> is_text (o_order_id r)" for xs ys
      by (rule list_all2_map_key[OF orders_coerce_rows[OF that(1)]])
         (use that(2) to_Int64_numeric in fastforce)
  qed (rule assms(2))
qed

lemma clean_order_items_keys:
  assumes "clean_order_items rd df = Inr out" and "\<forall>r\<in>set df. \<not> is_text (oi_id r)"
  shows "map oi_id out = map oi_id (filter order_items_keep (drop_duplicates oi_id df))"
proof -
  from assms have c: "cleaned_by oi_id order_items_keep (order_items_to_datetime rd)
      (order_items_coerce rd) df = Inr out"
    by (simp add: clean_order_items_Inr)
  show ?thesis
  proof (rule cleaned_by_keys[OF c, where ok = "\<lambda>k. \<not> is_text k"])
    show "oi_id (order_items_to_datetime rd r) = oi_id r" for r
      by (simp add: order_items_to_datetime_def)
    show "map oi_id ys = map oi_id xs"
      if "order_items_coerce rd xs = Inr ys" "\<forall>r\<in>set xs. \<not> is_text (oi_id r)" for xs ys
      by (rule list_all2_map_key[OF order_items_coerce_rows[OF that(1)]])
         (use that(2) to_Int64_numeric in fastforce)
  qed (rule assms(2))
qed

lemma clean_inventory_items_keys:
  assumes "clean_inventory_items rd df = Inr out" and "\<forall>r\<in>set df. \<not> is_text (inv_id r)"
  shows "map inv_id out = map inv_id (filter (inventory_items_keep rd) (drop_duplicates inv_id df))"
proof -
  from assms have c: "cleaned_by inv_id (inventory_items_keep rd) (inventory_items_row rd)
      (inventory_items_coerce rd) df = Inr out"
    by (simp add: clean_inventory_items_Inr)
  show ?thesis
  proof (rule cleaned_by_keys[OF c, where ok = "\<lambda>k. \<not> is_text k"])
    show "inv_id (inventory_items_row rd r) = inv_id r" for r
      by (simp add: inventory_items_row_def)
    show "map inv_id ys = map inv_id xs"
      if "inventory_items_coerce rd xs = Inr ys" "\<forall>r\<in>set xs. \<not> is_text (inv_id r)" for xs ys
      by (rule list_all2_map_key[OF inventory_items_coerce_rows[OF that(1)]])
         (use that(2) to_Int64_numeric in fastforce)
  qed (rule assms(2))
qed

lemma clean_events_keys:
  assumes "clean_events rd df = Inr out" and "\<forall>r\<in>set df. \<not> is_text (e_id r)"
  shows "map e_id out = map e_id (filter (events_keep rd) (drop_duplicates e_id df))"
proof -
  from assms have c: "cleaned_by e_id (events_keep rd) (events_row rd) (events_coerce rd) df = Inr out"
    by (simp add: clean_events_Inr)
  show ?thesis
  proof (rule cleaned_by_keys[OF c, where ok = "\<lambda>k. \<not> is_text k"])
    show "e_id (events_row rd r) = e_id r" for r
      by (simp add: events_row_def)
    show "map e_id ys = map e_id xs"
      if "events_coerce rd xs = Inr ys" "\<forall>r\<in>set xs. \<not> is_text (e_id r)" for xs ys
      by (rule list_all2_map_key[OF events_coerce_rows[OF that(1)]])
         (use that(2) to_Int64_numeric in \<open>fastforce simp: replace_spaces_def\<close>)
  qed (rule assms(2))
qed

text \<open>
  C1, as stated, fails.  \<open>clean_users\<close> removes duplicates on the email, not on the
  \<open>id\<close>: two accounts of one \<open>id\<close> under two emails are both in its output.  The other
  functions remove duplicates on the key as read and coerce it afterwards: two products
  whose ids are the texts \<open>x\<close> and \<open>y\<close> are both kept, and both ids become null.
\<close>

theorem ids_not_unique:
  "clean_users reads_nothing [user_1, user_1_again] = Inr [user_1, user_1_again] \<and>
   user_1 \<noteq> user_1_again \<and> u_id user_1 = u_id user_1_again \<and>
   \<not> distinct (map u_id [user_1, user_1_again]) \<and>
   clean_products reads_nothing [product_x, product_y] =
     Inr [product_x\<lparr>p_id := NA\<rparr>, product_y\<lparr>p_id := NA\<rparr>] \<and>
   product_x\<lparr>p_id := NA\<rparr> \<noteq> product_y\<lparr>p_id := NA\<rparr> \<and>
   \<not> distinct (map p_id [product_x\<lparr>p_id := NA\<rparr>, product_y\<lparr>p_id := NA\<rparr>])"
  by code_simp

text \<open>
  C1, amended.  The output of \<open>clean_users\<close> has no two rows with the same email, and an
  email is in it exactly when the first row of the input with this email passes the
  filters.  For each of the other six functions, when no \<open>id\<close> of the input is text, the
  output has no two rows with the same \<open>id\<close>, and an \<open>id\<close> is in it exactly when the first
  row of the input with this \<open>id\<close> passes the filters.  After a run of \<open>main\<close> that ends
  without an exception, the processed file of every table that had a raw file has no
  two rows with the same key (the email for the users, the \<open>id\<close> for the other tables,
  given an input without text ids), the referential-integrity checks only removing rows.
\<close>

theorem dedup_key_unique:
  "(clean_users rd us = Inr us' \<longrightarrow>
      distinct (map u_email us') \<and>
      (\<forall>k. k \<in> set (map u_email us') \<longleftrightarrow> (\<exists>r. find (\<lambda>x. u_email x = k) us = Some r \<and> users_keep rd r))) \<and>
   (clean_products rd ps = Inr ps' \<longrightarrow> (\<forall>r\<in>set ps. \<not> is_text (p_id r)) \<longrightarrow>
      distinct (map p_id ps') \<and>
      (\<forall>k. k \<in> set (map p_id ps') \<longleftrightarrow> (\<exists>r. find (\<lambda>x. p_id x = k) ps = Some r \<and> products_keep r))) \<and>
   (clean_orders rd os = Inr os' \<longrightarrow> (\<forall>r\<in>set os. \<not> is_text (o_order_id r)) \<longrightarrow>
      distinct (map o_order_id os') \<and>
      (\<forall>k. k \<in> set (map o_order_id os') \<longleftrightarrow> (\<exists>r. find (\<lambda>x. o_order_id x = k) os = Some r \<and> orders_keep rd r))) \<and>
   (clean_order_items rd ois = Inr ois' \<longrightarrow> (\<forall>r\<in>set ois. \<not> is_text (oi_id r)) \<longrightarrow>
      distinct (map oi_id ois') \<and>
      (\<forall>k. k \<in> set (map oi_id ois') \<longleftrightarrow> (\<exists>r. find (\<lambda>x. oi_id x = k) ois = Some r \<and> order_items_keep r))) \<and>
   (clean_inventory_items rd ivs = Inr ivs' \<longrightarrow> (\<forall>r\<in>set ivs. \<not> is_text (inv_id r)) \<longrightarrow>
      distinct (map inv_id ivs') \<and>
      (\<forall>k. k \<in> set (map inv_id ivs') \<longleftrightarrow> (\<exists>r. find (\<lambda>x. inv_id x = k) ivs = Some r \<and> inventory_items_keep rd r))) \<and>
   (clean_events rd es = Inr es' \<longrightarrow> (\<forall>r\<in>set es. \<not> is_text (e_id r)) \<longrightarrow>
      distinct (map e_id es') \<and>
      (\<forall>k. k \<in> set (map e_id es') \<longleftrightarrow> (\<exists>r. find (\<lambda>x. e_id x = k) es = Some r \<and> events_keep rd r))) \<and>
   (clean_distribution_centers rd ds = Inr ds' \<longrightarrow> (\<forall>r\<in>set ds. \<not> is_text (dc_id r)) \<longrightarrow>
      distinct (map dc_id ds') \<and>
      (\<forall>k. k \<in> set (map dc_id ds') \<longleftrightarrow> (\<exists>r. find (\<lambda>x. dc_id x = k) ds = Some r))) \<and>
   (main rd raw disk = (st, None) \<longrightarrow>
      (\<forall>df. users_csv raw = Some df \<longrightarrow>
         (\<exists>final. users_cleaned st = Some final \<and> distinct (map u_email final))) \<and>
      (\<forall>df. products_csv raw = Some df \<longrightarrow> (\<forall>r\<in>set df. \<not> is_text (p_id r)) \<longrightarrow>
         (\<exists>final. products_cleaned st = Some final \<and> distinct (map p_id final))) \<and>
      (\<forall>df. orders_csv raw = Some df \<longrightarrow> (\<forall>r\<in>set df. \<not> is_text (o_order_id r)) \<longrightarrow>
         (\<exists>final. orders_cleaned st = Some final \<and> distinct (map o_order_id final))) \<and>
      (\<forall>df. order_items_csv raw = Some df \<longrightarrow> (\<forall>r\<in>set df. \<not> is_text (oi_id r)) \<longrightarrow>
         (\<exists>final. order_items_cleaned st = Some final \<and> distinct (map oi_id final))) \<and>
      (\<forall>df. inventory_items_csv raw = Some df \<longrightarrow> (\<forall>r\<in>set df. \<not> is_text (inv_id r)) \<longrightarrow>
         (\<exists>final. inventory_items_cleaned st = Some final \<and> distinct (map inv_id final))) \<and>
      (\<forall>df. events_csv raw = Some df \<longrightarrow> (\<forall>r\<in>set df. \<not> is_text (e_id r)) \<longrightarrow>
         (\<exists>final. events_cleaned st = Some final \<and> distinct (map e_id final))) \<and>
      (\<forall>df. distribution_centers_csv raw = Some df \<longrightarrow> (\<forall>r\<in>set df. \<not> is_text (dc_id r)) \<longrightarrow>
         (\<exists>final. distribution_centers_cleaned st = Some final \<and> distinct (map dc_id final))))"
proof (intro conjI impI allI)
  assume c: "clean_users rd us = Inr us'"
  show "distinct (map u_email us')" by (rule clean_users_distinct_email[OF c])
  show "k \<in> set (map u_email us') \<longleftrightarrow> (\<exists>r. find (\<lambda>x. u_email x = k) us = Some r \<and> users_keep rd r)" for k
    unfolding clean_users_keys[OF c] by (rule keys_first_occurrence)
next
  assume c: "clean_products rd ps = Inr ps'"
    and n: "\<forall>r\<in>set ps. \<not> is_text (p_id r)"
  show "distinct (map p_id ps')" by (rule clean_products_distinct_id[OF c n])
  show "k \<in> set (map p_id ps') \<longleftrightarrow> (\<exists>r. find (\<lambda>x. p_id x = k) ps = Some r \<and> products_keep r)" for k
    unfolding clean_products_keys[OF c n] by (rule keys_first_occurrence)
next
  assume c: "clean_orders rd os = Inr os'"
    and n: "\<forall>r\<in>set os. \<not> is_text (o_order_id r)"
  show "distinct (map o_order_id os')" by (rule clean_orders_distinct_id[OF c n])
  show "k \<in> set (map o_order_id os') \<longleftrightarrow> (\<exists>r. find (\<lambda>x. o_order_id x = k) os = Some r \<and> orders_keep rd r)" for k
    unfolding clean_orders_keys[OF c n] by (rule keys_first_occurrence)
next
  assume c: "clean_order_items rd ois = Inr ois'"
    and n: "\<forall>r\<in>set ois. \<not> is_text (oi_id r)"
  show "distinct (map oi_id ois')" by (rule clean_order_items_distinct_id[OF c n])
  show "k \<in> set (map oi_id ois') \<longleftrightarrow> (\<exists>r. find (\<lambda>x. oi_id x = k) ois = Some r \<and> order_items_keep r)" for k
    unfolding clean_order_items_keys[OF c n] by (rule keys_first_occurrence)
next
  assume c: "clean_inventory_items rd ivs = Inr ivs'"
    and n: "\<forall>r\<in>set ivs. \<not> is_text (inv_id r)"
  show "distinct (map inv_id ivs')" by (rule clean_inventory_items_distinct_id[OF c n])
  show "k \<in> set (map inv_id ivs') \<longleftrightarrow> (\<exists>r. find (\<lambda>x. inv_id x = k) ivs = Some r \<and> inventory_items_keep rd r)" for k
    unfolding clean_inventory_items_keys[OF c n] by (rule keys_first_occurrence)
next
  assume c: "clean_events rd es = Inr es'"
    and n: "\<forall>r\<in>set es. \<not> is_text (e_id r)"
  show "distinct (map e_id es')" by (rule clean_events_distinct_id[OF c n])
  show "k \<in> set (map e_id es') \<longleftrightarrow> (\<exists>r. find (\<lambda>x. e_id x = k) es = Some r \<and> events_keep rd r)" for k
    unfolding clean_events_keys[OF c n] by (rule keys_first_occurrence)
next
  assume c: "clean_distribution_centers rd ds = Inr ds'"
    and n: "\<forall>r\<in>set ds. \<not> is_text (dc_id r)"
  show "distinct (map dc_id ds')" by (rule clean_distribution_centers_distinct_id[OF c n])
  show "k \<in> set (map dc_id ds') \<longleftrightarrow> (\<exists>r. find (\<lambda>x. dc_id x = k) ds = Some r)" for k
    unfolding clean_distribution_centers_keys[OF c n] using keys_first_occurrence[of k dc_id "\<lambda>r. True" ds] by simp
next
  fix df
  assume m: "main rd raw disk = (st, None)" and f: "users_csv raw = Some df"
  from main_files(1)[OF m] f obtain out where o: "clean_users rd df = Inr out"
    "users_cleaned st = Some out" by blast
  have "distinct (map u_email out)" by (rule clean_users_distinct_email[OF o(1)])
  with o(2) show "\<exists>final. users_cleaned st = Some final \<and> distinct (map u_email final)"
    by (simp add: distinct_map_filter)
next
  fix df
  assume m: "main rd raw disk = (st, None)" and f: "products_csv raw = Some df"
    and n: "\<forall>r\<in>set df. \<not> is_text (p_id r)"
  from main_files(2)[OF m] f obtain out where o: "clean_products rd df = Inr out"
    "products_cleaned st = Some out" by blast
  have "distinct (map p_id out)" by (rule clean_products_distinct_id[OF o(1) n])
  with o(2) show "\<exists>final. products_cleaned st = Some final \<and> distinct (map p_id final)"
    by (simp add: distinct_map_filter)
next
  fix df
  assume m: "main rd raw disk = (st, None)" and f: "orders_csv raw = Some df"
    and n: "\<forall>r\<in>set df. \<not> is_text (o_order_id r)"
  from main_files(3)[OF m] f obtain out P where o: "clean_orders rd df = Inr out"
    "orders_cleaned st = Some (filter P out)" by blast
  have "distinct (map o_order_id out)" by (rule clean_orders_distinct_id[OF o(1) n])
  with o(2) show "\<exists>final. orders_cleaned st = Some final \<and> distinct (map o_order_id final)"
    by (simp add: distinct_map_filter)
next
  fix df
  assume m: "main rd raw disk = (st, None)" and f: "order_items_csv raw = Some df"
    and n: "\<forall>r\<in>set df. \<not> is_text (oi_id r)"
  from main_files(4)[OF m] f obtain out P where o: "clean_order_items rd df = Inr out"
    "order_items_cleaned st = Some (filter P out)" by blast
  have "distinct (map oi_id out)" by (rule clean_order_items_distinct_id[OF o(1) n])
  with o(2) show "\<exists>final. order_items_cleaned st = Some final \<and> distinct (map oi_id final)"
    by (simp add: distinct_map_filter)
next
  fix df
  assume m: "main rd raw disk = (st, None)" and f: "inventory_items_csv raw = Some df"
    and n: "\<forall>r\<in>set df. \<not> is_text (inv_id r)"
  from main_files(5)[OF m] f obtain out where o: "clean_inventory_items rd df = Inr out"
    "inventory_items_cleaned st = Some out" by blast
  have "distinct (map inv_id out)" by (rule clean_inventory_items_distinct_id[OF o(1) n])
  with o(2) show "\<exists>final. inventory_items_cleaned st = Some final \<and> distinct (map inv_id final)"
    by (simp add: distinct_map_filter)
next
  fix df
  assume m: "main rd raw disk = (st, None)" and f: "events_csv raw = Some df"
    and n: "\<forall>r\<in>set df. \<not> is_text (e_id r)"
  from main_files(6)[OF m] f obtain out P where o: "clean_events rd df = Inr out"
    "events_cleaned st = Some (filter P out)" by blast
  have "distinct (map e_id out)" by (rule clean_events_distinct_id[OF o(1) n])
  with o(2) show "\<exists>final. events_cleaned st = Some final \<and> distinct (map e_id final)"
    by (simp add: distinct_map_filter)
next
  fix df
  assume m: "main rd raw disk = (st, None)" and f: "distribution_centers_csv raw = Some df"
    and n: "\<forall>r\<in>set df. \<not> is_text (dc_id r)"
  from main_files(7)[OF m] f obtain out where o: "clean_distribution_centers rd df = Inr out"
    "distribution_centers_cleaned st = Some out" by blast
  have "distinct (map dc_id out)" by (rule clean_distribution_centers_distinct_id[OF o(1) n])
  with o(2) show "\<exists>final. distribution_centers_cleaned st = Some final \<and> distinct (map dc_id final)"
    by (simp add: distinct_map_filter)
qed

theorem dedup_key_unique_witness:
  "clean_users reads_nothing users_raw = Inr [user_1, user_2] \<and>
   distinct (map u_email [user_1, user_2]) \<and>
   clean_products reads_nothing products_raw = Inr [product_7, product_8] \<and>
   list_all (\<lambda>r. \<not> is_text (p_id r)) products_raw \<and>
   distinct (map p_id [product_7, product_8]) \<and>
   clean_orders reads_nothing orders_raw = Inr [order_not_shipped, order_of_user_1] \<and>
   list_all (\<lambda>r. \<not> is_text (o_order_id r)) orders_raw \<and>
   distinct (map o_order_id [order_not_shipped, order_of_user_1]) \<and>
   clean_order_items reads_nothing order_items_raw = Inr [order_item 1 100 7, order_item 2 999
       7] \<and>
   list_all (\<lambda>r. \<not> is_text (oi_id r)) order_items_raw \<and>
   distinct (map oi_id [order_item 1 100 7, order_item 2 999 7]) \<and>
   clean_inventory_items reads_nothing inventory_items_raw = Inr [inventory_item_5,
       inventory_item_6] \<and>
   list_all (\<lambda>r. \<not> is_text (inv_id r)) inventory_items_raw \<and>
   distinct (map inv_id [inventory_item_5, inventory_item_6]) \<and>
   clean_events reads_nothing events_raw = Inr [event 1 (Num 1), event_2_clean] \<and>
   list_all (\<lambda>r. \<not> is_text (e_id r)) events_raw \<and>
   distinct (map e_id [event 1 (Num 1), event_2_clean]) \<and>
   clean_distribution_centers reads_nothing distribution_centers_raw = Inr
       [distribution_center_3, distribution_center_4] \<and>
   list_all (\<lambda>r. \<not> is_text (dc_id r)) distribution_centers_raw \<and>
   distinct (map dc_id [distribution_center_3, distribution_center_4]) \<and>
   main reads_nothing raw_full empty_disk = (fst (main reads_nothing raw_full empty_disk),
       None) \<and>
   users_cleaned (fst (main reads_nothing raw_full empty_disk)) = Some [user_1, user_2] \<and>
   products_cleaned (fst (main reads_nothing raw_full empty_disk)) = Some [product_7,
       product_8] \<and>
   orders_cleaned (fst (main reads_nothing raw_full empty_disk)) = Some [order_of_user_1] \<and>
   distinct (map o_order_id [order_of_user_1]) \<and>
   order_items_cleaned (fst (main reads_nothing raw_full empty_disk)) = Some [order_item 1 100
       7] \<and>
   distinct (map oi_id [order_item 1 100 7]) \<and>
   inventory_items_cleaned (fst (main reads_nothing raw_full empty_disk)) = Some
       [inventory_item_5, inventory_item_6] \<and>
   events_cleaned (fst (main reads_nothing raw_full empty_disk)) = Some [event 1 (Num 1),
       event_2_clean] \<and>
   distribution_centers_cleaned (fst (main reads_nothing raw_full empty_disk)) = Some
       [distribution_center_3, distribution_center_4]"
proof -
  have c0: "clean_users reads_nothing users_raw = Inr [user_1, user_2]"
    "users_csv raw_full = Some users_raw"
    "users_cleaned (fst (main reads_nothing raw_full empty_disk)) = Some [user_1, user_2]"
    by code_simp+
  have c1: "clean_products reads_nothing products_raw = Inr [product_7, product_8]"
    "\<forall>r\<in>set products_raw. \<not> is_text (p_id r)"
    "products_csv raw_full = Some products_raw"
    "products_cleaned (fst (main reads_nothing raw_full empty_disk)) = Some [product_7, product_8]"
    by code_simp+
  have c2: "clean_orders reads_nothing orders_raw = Inr [order_not_shipped, order_of_user_1]"
    "\<forall>r\<in>set orders_raw. \<not> is_text (o_order_id r)"
    "orders_csv raw_full = Some orders_raw"
    "orders_cleaned (fst (main reads_nothing raw_full empty_disk)) = Some [order_of_user_1]"
    by code_simp+
  have c3: "clean_order_items reads_nothing order_items_raw = Inr [order_item 1 100 7, order_item 2 999 7]"
    "\<forall>r\<in>set order_items_raw. \<not> is_text (oi_id r)"
    "order_items_csv raw_full = Some order_items_raw"
    "order_items_cleaned (fst (main reads_nothing raw_full empty_disk)) = Some [order_item 1 100 7]"
    by code_simp+
  have c4: "clean_inventory_items reads_nothing inventory_items_raw = Inr [inventory_item_5, inventory_item_6]"
    "\<forall>r\<in>set inventory_items_raw. \<not> is_text (inv_id r)"
    "inventory_items_csv raw_full = Some inventory_items_raw"
    "inventory_items_cleaned (fst (main reads_nothing raw_full empty_disk)) = Some [inventory_item_5, inventory_item_6]"
    by code_simp+
  have c5: "clean_events reads_nothing events_raw = Inr [event 1 (Num 1), event_2_clean]"
    "\<forall>r\<in>set events_raw. \<not> is_text (e_id r)"
    "events_csv raw_full = Some events_raw"
    "events_cleaned (fst (main reads_nothing raw_full empty_disk)) = Some [event 1 (Num 1), event_2_clean]"
    by code_simp+
  have c6: "clean_distribution_centers reads_nothing distribution_centers_raw = Inr [distribution_center_3, distribution_center_4]"
    "\<forall>r\<in>set distribution_centers_raw. \<not> is_text (dc_id r)"
    "distribution_centers_csv raw_full = Some distribution_centers_raw"
    "distribution_centers_cleaned (fst (main reads_nothing raw_full empty_disk)) = Some [distribution_center_3, distribution_center_4]"
    by code_simp+
  have "snd (main reads_nothing raw_full empty_disk) = None" by code_simp
  then have m: "main reads_nothing raw_full empty_disk = (fst (main reads_nothing raw_full empty_disk), None)"
    by (simp add: prod_eq_iff)
  note t = dedup_key_unique[of reads_nothing users_raw "[user_1, user_2]" products_raw
      "[product_7, product_8]" orders_raw "[order_not_shipped, order_of_user_1]"
      order_items_raw "[order_item 1 100 7, order_item 2 999 7]" inventory_items_raw
      "[inventory_item_5, inventory_item_6]" events_raw "[event 1 (Num 1), event_2_clean]"
      distribution_centers_raw "[distribution_center_3, distribution_center_4]" raw_full
      empty_disk
      "fst (main reads_nothing raw_full empty_disk)"]
  note tm = t[THEN conjunct2, THEN conjunct2, THEN conjunct2, THEN conjunct2, THEN conjunct2,
      THEN conjunct2, THEN conjunct2, THEN mp, OF m]
  have d0: "distinct (map u_email [user_1, user_2])" using t[THEN conjunct1] c0 by blast
  have "\<exists>final. users_cleaned (fst (main reads_nothing raw_full empty_disk)) = Some final \<and> distinct (map u_email final)"
    using tm[THEN conjunct1] c0 by blast
  then have e0: "distinct (map u_email [user_1, user_2])" using c0 by simp
  have d1: "distinct (map p_id [product_7, product_8])"
    using t[THEN conjunct2, THEN conjunct1] c1 by blast
  have "\<exists>final. products_cleaned (fst (main reads_nothing raw_full empty_disk)) = Some final \<and> distinct (map p_id final)"
    using tm[THEN conjunct2, THEN conjunct1] c1 by blast
  then have e1: "distinct (map p_id [product_7, product_8])" using c1 by simp
  have d2: "distinct (map o_order_id [order_not_shipped, order_of_user_1])"
    using t[THEN conjunct2, THEN conjunct2, THEN conjunct1] c2 by blast
  have "\<exists>final. orders_cleaned (fst (main reads_nothing raw_full empty_disk)) = Some final \<and> distinct (map o_order_id final)"
    using tm[THEN conjunct2, THEN conjunct2, THEN conjunct1] c2 by blast
  then have e2: "distinct (map o_order_id [order_of_user_1])" using c2 by simp
  have d3: "distinct (map oi_id [order_item 1 100 7, order_item 2 999 7])"
    using t[THEN conjunct2, THEN conjunct2, THEN conjunct2, THEN conjunct1] c3 by blast
  have "\<exists>final. order_items_cleaned (fst (main reads_nothing raw_full empty_disk)) = Some final \<and> distinct (map oi_id final)"
    using tm[THEN conjunct2, THEN conjunct2, THEN conjunct2, THEN conjunct1] c3 by blast
  then have e3: "distinct (map oi_id [order_item 1 100 7])" using c3 by simp
  have d4: "distinct (map inv_id [inventory_item_5, inventory_item_6])"
    using t[THEN conjunct2, THEN conjunct2, THEN conjunct2, THEN conjunct2, THEN conjunct1] c4
        by blast
  have "\<exists>final. inventory_items_cleaned (fst (main reads_nothing raw_full empty_disk)) = Some final \<and> distinct (map inv_id final)"
    using tm[THEN conjunct2, THEN conjunct2, THEN conjunct2, THEN conjunct2, THEN conjunct1] c4
        by blast
  then have e4: "distinct (map inv_id [inventory_item_5, inventory_item_6])" using c4 by simp
  have d5: "distinct (map e_id [event 1 (Num 1), event_2_clean])"
    using t[THEN conjunct2, THEN conjunct2, THEN conjunct2, THEN conjunct2, THEN conjunct2,
        THEN conjunct1] c5 by blast
  have "\<exists>final. events_cleaned (fst (main reads_nothing raw_full empty_disk)) = Some final \<and> distinct (map e_id final)"
    using tm[THEN conjunct2, THEN conjunct2, THEN conjunct2, THEN conjunct2, THEN conjunct2,
        THEN conjunct1] c5 by blast
  then have e5: "distinct (map e_id [event 1 (Num 1), event_2_clean])" using c5 by simp
  have d6: "distinct (map dc_id [distribution_center_3, distribution_center_4])"
    using t[THEN conjunct2, THEN conjunct2, THEN conjunct2, THEN conjunct2, THEN conjunct2,
        THEN conjunct2, THEN conjunct1] c6 by blast
  have "\<exists>final. distribution_centers_cleaned (fst (main reads_nothing raw_full empty_disk)) = Some final \<and> distinct (map dc_id final)"
    using tm[THEN conjunct2, THEN conjunct2, THEN conjunct2, THEN conjunct2, THEN conjunct2,
        THEN conjunct2] c6 by blast
  then have e6: "distinct (map dc_id [distribution_center_3, distribution_center_4])"
    using c6 by simp
  show ?thesis unfolding list_all_iff using m c0 d0 e0 c1 d1 e1 c2 d2 e2 c3 d3 e3 c4 d4 e4 c5 d5 e5 c6 d6 e6 by blast
qed

subsection \<open>Row counts\<close>

text \<open>
  C2.  A cleaning function that returns gives no more rows than it was given.  After a
  run of \<open>main\<close> that ends without an exception, for every table that had a raw file, the
  processed file has no more rows than the cleaning function returned for the raw file,
  which are no more than the raw file has; and every entry of the summary counts no more
  cleaned rows than original rows and, where it counts the rows left by the
  referential-integrity checks, no more of these than cleaned rows.
\<close>

theorem row_counts_non_increasing:
  "(clean_users rd us = Inr us' \<longrightarrow> length us' \<le> length us) \<and>
   (clean_products rd ps = Inr ps' \<longrightarrow> length ps' \<le> length ps) \<and>
   (clean_orders rd os = Inr os' \<longrightarrow> length os' \<le> length os) \<and>
   (clean_order_items rd ois = Inr ois' \<longrightarrow> length ois' \<le> length ois) \<and>
   (clean_inventory_items rd ivs = Inr ivs' \<longrightarrow> length ivs' \<le> length ivs) \<and>
   (clean_events rd es = Inr es' \<longrightarrow> length es' \<le> length es) \<and>
   (clean_distribution_centers rd ds = Inr ds' \<longrightarrow> length ds' \<le> length ds) \<and>
   (main rd raw disk = (st, None) \<longrightarrow>
      (\<forall>df. users_csv raw = Some df \<longrightarrow>
         (\<exists>out final. clean_users rd df = Inr out \<and> users_cleaned st = Some final \<and>
            length final \<le> length out \<and> length out \<le> length df)) \<and>
      (\<forall>df. products_csv raw = Some df \<longrightarrow>
         (\<exists>out final. clean_products rd df = Inr out \<and> products_cleaned st = Some final \<and>
            length final \<le> length out \<and> length out \<le> length df)) \<and>
      (\<forall>df. orders_csv raw = Some df \<longrightarrow>
         (\<exists>out final. clean_orders rd df = Inr out \<and> orders_cleaned st = Some final \<and>
            length final \<le> length out \<and> length out \<le> length df)) \<and>
      (\<forall>df. order_items_csv raw = Some df \<longrightarrow>
         (\<exists>out final. clean_order_items rd df = Inr out \<and> order_items_cleaned st = Some final \<and>
            length final \<le> length out \<and> length out \<le> length df)) \<and>
      (\<forall>df. inventory_items_csv raw = Some df \<longrightarrow>
         (\<exists>out final. clean_inventory_items rd df = Inr out \<and> inventory_items_cleaned st = Some final \<and>
            length final \<le> length out \<and> length out \<le> length df)) \<and>
      (\<forall>df. events_csv raw = Some df \<longrightarrow>
         (\<exists>out final. clean_events rd df = Inr out \<and> events_cleaned st = Some final \<and>
            length final \<le> length out \<and> length out \<le> length df)) \<and>
      (\<forall>df. distribution_centers_csv raw = Some df \<longrightarrow>
         (\<exists>out final. clean_distribution_centers rd df = Inr out \<and> distribution_centers_cleaned st = Some final \<and>
            length final \<le> length out \<and> length out \<le> length df)) \<and>
      (\<forall>entry\<in>set (cleaning_summary st).
         clean_rows entry \<le> original_rows entry \<and>
         (\<forall>n. clean_rows_after_RI entry = Some n \<longrightarrow> n \<le> clean_rows entry)))"
proof (intro conjI impI allI ballI)
  assume "clean_users rd us = Inr us'"
  then show "length us' \<le> length us" by (rule clean_users_length)
next
  assume "clean_products rd ps = Inr ps'"
  then show "length ps' \<le> length ps" by (rule clean_products_length)
next
  assume "clean_orders rd os = Inr os'"
  then show "length os' \<le> length os" by (rule clean_orders_length)
next
  assume "clean_order_items rd ois = Inr ois'"
  then show "length ois' \<le> length ois" by (rule clean_order_items_length)
next
  assume "clean_inventory_items rd ivs = Inr ivs'"
  then show "length ivs' \<le> length ivs" by (rule clean_inventory_items_length)
next
  assume "clean_events rd es = Inr es'"
  then show "length es' \<le> length es" by (rule clean_events_length)
next
  assume "clean_distribution_centers rd ds = Inr ds'"
  then show "length ds' \<le> length ds" by (rule clean_distribution_centers_length)
next
  fix df
  assume m: "main rd raw disk = (st, None)" and f: "users_csv raw = Some df"
  from main_files(1)[OF m] f obtain out where o: "clean_users rd df = Inr out"
    "users_cleaned st = Some out" by blast
  from o clean_users_length[OF o(1)]
  show "\<exists>out final. clean_users rd df = Inr out \<and> users_cleaned st = Some final \<and>
            length final \<le> length out \<and> length out \<le> length df"
    by simp
next
  fix df
  assume m: "main rd raw disk = (st, None)" and f: "products_csv raw = Some df"
  from main_files(2)[OF m] f obtain out where o: "clean_products rd df = Inr out"
    "products_cleaned st = Some out" by blast
  from o clean_products_length[OF o(1)]
  show "\<exists>out final. clean_products rd df = Inr out \<and> products_cleaned st = Some final \<and>
            length final \<le> length out \<and> length out \<le> length df"
    by simp
next
  fix df
  assume m: "main rd raw disk = (st, None)" and f: "orders_csv raw = Some df"
  from main_files(3)[OF m] f obtain out P where o: "clean_orders rd df = Inr out"
    "orders_cleaned st = Some (filter P out)" by blast
  from o clean_orders_length[OF o(1)]
  show "\<exists>out final. clean_orders rd df = Inr out \<and> orders_cleaned st = Some final \<and>
            length final \<le> length out \<and> length out \<le> length df"
    by simp
next
  fix df
  assume m: "main rd raw disk = (st, None)" and f: "order_items_csv raw = Some df"
  from main_files(4)[OF m] f obtain out P where o: "clean_order_items rd df = Inr out"
    "order_items_cleaned st = Some (filter P out)" by blast
  from o clean_order_items_length[OF o(1)]
  show "\<exists>out final. clean_order_items rd df = Inr out \<and> order_items_cleaned st = Some final \<and>
            length final \<le> length out \<and> length out \<le> length df"
    by simp
next
  fix df
  assume m: "main rd raw disk = (st, None)" and f: "inventory_items_csv raw = Some df"
  from main_files(5)[OF m] f obtain out where o: "clean_inventory_items rd df = Inr out"
    "inventory_items_cleaned st = Some out" by blast
  from o clean_inventory_items_length[OF o(1)]
  show "\<exists>out final. clean_inventory_items rd df = Inr out \<and> inventory_items_cleaned st = Some final \<and>
            length final \<le> length out \<and> length out \<le> length df"
    by simp
next
  fix df
  assume m: "main rd raw disk = (st, None)" and f: "events_csv raw = Some df"
  from main_files(6)[OF m] f obtain out P where o: "clean_events rd df = Inr out"
    "events_cleaned st = Some (filter P out)" by blast
  from o clean_events_length[OF o(1)]
  show "\<exists>out final. clean_events rd df = Inr out \<and> events_cleaned st = Some final \<and>
            length final \<le> length out \<and> length out \<le> length df"
    by simp
next
  fix df
  assume m: "main rd raw disk = (st, None)" and f: "distribution_centers_csv raw = Some df"
  from main_files(7)[OF m] f obtain out where o: "clean_distribution_centers rd df = Inr out"
    "distribution_centers_cleaned st = Some out" by blast
  from o clean_distribution_centers_length[OF o(1)]
  show "\<exists>out final. clean_distribution_centers rd df = Inr out \<and> distribution_centers_cleaned st = Some final \<and>
            length final \<le> length out \<and> length out \<le> length df"
    by simp
next
  fix entry
  assume m: "main rd raw disk = (st, None)" and e: "entry \<in> set (cleaning_summary st)"
  from main_summary[OF m] e have c: "counts_ok entry" by (simp add: summary_inv_def)
  then show "clean_rows entry \<le> original_rows entry" by (simp add: counts_ok_def)
  show "n \<le> clean_rows entry" if "clean_rows_after_RI entry = Some n" for n
    using c that by (simp add: counts_ok_def)
qed

theorem row_counts_non_increasing_witness:
  "clean_users reads_nothing users_raw = Inr [user_1, user_2] \<and>
   length [user_1, user_2] \<le> length users_raw \<and>
   clean_products reads_nothing products_raw = Inr [product_7, product_8] \<and>
   length [product_7, product_8] \<le> length products_raw \<and>
   clean_orders reads_nothing orders_raw = Inr [order_not_shipped, order_of_user_1] \<and>
   length [order_not_shipped, order_of_user_1] \<le> length orders_raw \<and>
   clean_order_items reads_nothing order_items_raw = Inr [order_item 1 100 7, order_item 2 999
       7] \<and>
   length [order_item 1 100 7, order_item 2 999 7] \<le> length order_items_raw \<and>
   clean_inventory_items reads_nothing inventory_items_raw = Inr [inventory_item_5,
       inventory_item_6] \<and>
   length [inventory_item_5, inventory_item_6] \<le> length inventory_items_raw \<and>
   clean_events reads_nothing events_raw = Inr [event 1 (Num 1), event_2_clean] \<and>
   length [event 1 (Num 1), event_2_clean] \<le> length events_raw \<and>
   clean_distribution_centers reads_nothing distribution_centers_raw = Inr
       [distribution_center_3, distribution_center_4] \<and>
   length [distribution_center_3, distribution_center_4] \<le> length distribution_centers_raw
       \<and>
   main reads_nothing raw_full empty_disk = (fst (main reads_nothing raw_full empty_disk),
       None) \<and>
   users_cleaned (fst (main reads_nothing raw_full empty_disk)) = Some [user_1, user_2] \<and>
   length [user_1, user_2] \<le> length [user_1, user_2] \<and>
   products_cleaned (fst (main reads_nothing raw_full empty_disk)) = Some [product_7,
       product_8] \<and>
   length [product_7, product_8] \<le> length [product_7, product_8] \<and>
   orders_cleaned (fst (main reads_nothing raw_full empty_disk)) = Some [order_of_user_1] \<and>
   length [order_of_user_1] \<le> length [order_not_shipped, order_of_user_1] \<and>
   order_items_cleaned (fst (main reads_nothing raw_full empty_disk)) = Some [order_item 1 100
       7] \<and>
   length [order_item 1 100 7] \<le> length [order_item 1 100 7, order_item 2 999 7] \<and>
   inventory_items_cleaned (fst (main reads_nothing raw_full empty_disk)) = Some
       [inventory_item_5, inventory_item_6] \<and>
   length [inventory_item_5, inventory_item_6] \<le> length [inventory_item_5,
       inventory_item_6] \<and>
   events_cleaned (fst (main reads_nothing raw_full empty_disk)) = Some [event 1 (Num 1),
       event_2_clean] \<and>
   length [event 1 (Num 1), event_2_clean] \<le> length [event 1 (Num 1), event_2_clean] \<and>
   distribution_centers_cleaned (fst (main reads_nothing raw_full empty_disk)) = Some
       [distribution_center_3, distribution_center_4] \<and>
   length [distribution_center_3, distribution_center_4] \<le> length [distribution_center_3,
       distribution_center_4] \<and>
   map (\<lambda>e. (table e, original_rows e, clean_rows e, clean_rows_after_RI e))
     (cleaning_summary (fst (main reads_nothing raw_full empty_disk))) =
     [(''users'', 4, 2, None), (''products'', 4, 2, None), (''orders'', 6, 2, Some 1),
      (''order_items'', 4, 2, Some 1), (''inventory_items'', 4, 2, None),
      (''events'', 4, 2, Some 2), (''distribution_centers'', 3, 2, None)] \<and>
   list_all
     (\<lambda>entry. clean_rows entry \<le> original_rows entry \<and>
        (\<forall>n. clean_rows_after_RI entry = Some n \<longrightarrow> n \<le> clean_rows entry))
     (cleaning_summary (fst (main reads_nothing raw_full empty_disk)))"
proof -
  have c0: "clean_users reads_nothing users_raw = Inr [user_1, user_2]"
    "users_csv raw_full = Some users_raw"
    "users_cleaned (fst (main reads_nothing raw_full empty_disk)) = Some [user_1, user_2]"
    by code_simp+
  have c1: "clean_products reads_nothing products_raw = Inr [product_7, product_8]"
    "products_csv raw_full = Some products_raw"
    "products_cleaned (fst (main reads_nothing raw_full empty_disk)) = Some [product_7, product_8]"
    by code_simp+
  have c2: "clean_orders reads_nothing orders_raw = Inr [order_not_shipped, order_of_user_1]"
    "orders_csv raw_full = Some orders_raw"
    "orders_cleaned (fst (main reads_nothing raw_full empty_disk)) = Some [order_of_user_1]"
    by code_simp+
  have c3: "clean_order_items reads_nothing order_items_raw = Inr [order_item 1 100 7, order_item 2 999 7]"
    "order_items_csv raw_full = Some order_items_raw"
    "order_items_cleaned (fst (main reads_nothing raw_full empty_disk)) = Some [order_item 1 100 7]"
    by code_simp+
  have c4: "clean_inventory_items reads_nothing inventory_items_raw = Inr [inventory_item_5, inventory_item_6]"
    "inventory_items_csv raw_full = Some inventory_items_raw"
    "inventory_items_cleaned (fst (main reads_nothing raw_full empty_disk)) = Some [inventory_item_5, inventory_item_6]"
    by code_simp+
  have c5: "clean_events reads_nothing events_raw = Inr [event 1 (Num 1), event_2_clean]"
    "events_csv raw_full = Some events_raw"
    "events_cleaned (fst (main reads_nothing raw_full empty_disk)) = Some [event 1 (Num 1), event_2_clean]"
    by code_simp+
  have c6: "clean_distribution_centers reads_nothing distribution_centers_raw = Inr [distribution_center_3, distribution_center_4]"
    "distribution_centers_csv raw_full = Some distribution_centers_raw"
    "distribution_centers_cleaned (fst (main reads_nothing raw_full empty_disk)) = Some [distribution_center_3, distribution_center_4]"
    by code_simp+
  have "snd (main reads_nothing raw_full empty_disk) = None" by code_simp
  then have m: "main reads_nothing raw_full empty_disk = (fst (main reads_nothing raw_full empty_disk), None)"
    by (simp add: prod_eq_iff)
  have s: "map (\<lambda>e. (table e, original_rows e, clean_rows e, clean_rows_after_RI e))
     (cleaning_summary (fst (main reads_nothing raw_full empty_disk))) =
     [(''users'', 4, 2, None), (''products'', 4, 2, None), (''orders'', 6, 2, Some 1),
      (''order_items'', 4, 2, Some 1), (''inventory_items'', 4, 2, None),
      (''events'', 4, 2, Some 2), (''distribution_centers'', 3, 2, None)]"
    by code_simp
  note t = row_counts_non_increasing[of reads_nothing users_raw "[user_1, user_2]" products_raw
      "[product_7, product_8]" orders_raw "[order_not_shipped, order_of_user_1]"
      order_items_raw "[order_item 1 100 7, order_item 2 999 7]" inventory_items_raw
      "[inventory_item_5, inventory_item_6]" events_raw "[event 1 (Num 1), event_2_clean]"
      distribution_centers_raw "[distribution_center_3, distribution_center_4]" raw_full
      empty_disk
      "fst (main reads_nothing raw_full empty_disk)"]
  note tm = t[THEN conjunct2, THEN conjunct2, THEN conjunct2, THEN conjunct2, THEN conjunct2,
      THEN conjunct2, THEN conjunct2, THEN mp, OF m]
  have d0: "length [user_1, user_2] \<le> length users_raw" using t[THEN conjunct1] c0 by blast
  have "\<exists>out final. clean_users reads_nothing users_raw = Inr out \<and>
      users_cleaned (fst (main reads_nothing raw_full empty_disk)) = Some final \<and>
      length final \<le> length out \<and> length out \<le> length users_raw"
    using tm[THEN conjunct1] c0 by blast
  then have e0: "length [user_1, user_2] \<le> length [user_1, user_2]" using c0 by simp
  have d1: "length [product_7, product_8] \<le> length products_raw"
    using t[THEN conjunct2, THEN conjunct1] c1 by blast
  have "\<exists>out final. clean_products reads_nothing products_raw = Inr out \<and>
      products_cleaned (fst (main reads_nothing raw_full empty_disk)) = Some final \<and>
      length final \<le> length out \<and> length out \<le> length products_raw"
    using tm[THEN conjunct2, THEN conjunct1] c1 by blast
  then have e1: "length [product_7, product_8] \<le> length [product_7, product_8]" using c1 by simp
  have d2: "length [order_not_shipped, order_of_user_1] \<le> length orders_raw"
    using t[THEN conjunct2, THEN conjunct2, THEN conjunct1] c2 by blast
  have "\<exists>out final. clean_orders reads_nothing orders_raw = Inr out \<and>
      orders_cleaned (fst (main reads_nothing raw_full empty_disk)) = Some final \<and>
      length final \<le> length out \<and> length out \<le> length orders_raw"
    using tm[THEN conjunct2, THEN conjunct2, THEN conjunct1] c2 by blast
  then have e2: "length [order_of_user_1] \<le> length [order_not_shipped, order_of_user_1]"
    using c2 by simp
  have d3: "length [order_item 1 100 7, order_item 2 999 7] \<le> length order_items_raw"
    using t[THEN conjunct2, THEN conjunct2, THEN conjunct2, THEN conjunct1] c3 by blast
  have "\<exists>out final. clean_order_items reads_nothing order_items_raw = Inr out \<and>
      order_items_cleaned (fst (main reads_nothing raw_full empty_disk)) = Some final \<and>
      length final \<le> length out \<and> length out \<le> length order_items_raw"
    using tm[THEN conjunct2, THEN conjunct2, THEN conjunct2, THEN conjunct1] c3 by blast
  then have e3: "length [order_item 1 100 7] \<le> length [order_item 1 100 7, order_item 2 999 7]"
    using c3 by simp
  have d4: "length [inventory_item_5, inventory_item_6] \<le> length inventory_items_raw"
    using t[THEN conjunct2, THEN conjunct2, THEN conjunct2, THEN conjunct2, THEN conjunct1] c4
        by blast
  have "\<exists>out final. clean_inventory_items reads_nothing inventory_items_raw = Inr out \<and>
      inventory_items_cleaned (fst (main reads_nothing raw_full empty_disk)) = Some final \<and>
      length final \<le> length out \<and> length out \<le> length inventory_items_raw"
    using tm[THEN conjunct2, THEN conjunct2, THEN conjunct2, THEN conjunct2, THEN conjunct1] c4
        by blast
  then have e4: "length [inventory_item_5, inventory_item_6] \<le> length [inventory_item_5, inventory_item_6]"
    using c4 by simp
  have d5: "length [event 1 (Num 1), event_2_clean] \<le> length events_raw"
    using t[THEN conjunct2, THEN conjunct2, THEN conjunct2, THEN conjunct2, THEN conjunct2,
        THEN conjunct1] c5 by blast
  have "\<exists>out final. clean_events reads_nothing events_raw = Inr out \<and>
      events_cleaned (fst (main reads_nothing raw_full empty_disk)) = Some final \<and>
      length final \<le> length out \<and> length out \<le> length events_raw"
    using tm[THEN conjunct2, THEN conjunct2, THEN conjunct2, THEN conjunct2, THEN conjunct2,
        THEN conjunct1] c5 by blast
  then have e5: "length [event 1 (Num 1), event_2_clean] \<le> length [event 1 (Num 1), event_2_clean]"
    using c5 by simp
  have d6: "length [distribution_center_3, distribution_center_4] \<le> length distribution_centers_raw"
    using t[THEN conjunct2, THEN conjunct2, THEN conjunct2, THEN conjunct2, THEN conjunct2,
        THEN conjunct2, THEN conjunct1] c6 by blast
  have "\<exists>out final. clean_distribution_centers reads_nothing distribution_centers_raw =
      Inr out \<and>
      distribution_centers_cleaned (fst (main reads_nothing raw_full empty_disk)) = Some final
          \<and>
      length final \<le> length out \<and> length out \<le> length distribution_centers_raw"
    using tm[THEN conjunct2, THEN conjunct2, THEN conjunct2, THEN conjunct2, THEN conjunct2,
        THEN conjunct2, THEN conjunct1] c6 by blast
  then have e6: "length [distribution_center_3, distribution_center_4] \<le> length [distribution_center_3, distribution_center_4]"
    using c6 by simp
  have a: "\<forall>entry\<in>set (cleaning_summary (fst (main reads_nothing raw_full empty_disk))).
      clean_rows entry \<le> original_rows entry \<and>
      (\<forall>n. clean_rows_after_RI entry = Some n \<longrightarrow> n \<le> clean_rows entry)"
    by (rule tm[THEN conjunct2, THEN conjunct2, THEN conjunct2, THEN conjunct2, THEN conjunct2,
        THEN conjunct2, THEN conjunct2])
  show ?thesis unfolding list_all_iff using m s a c0 d0 e0 c1 d1 e1 c2 d2 e2 c3 d3 e3 c4 d4 e4 c5 d5 e5 c6 d6 e6 by blast
qed


end
